theory Spec2Isabelle
  imports Complex_Main
begin

section \<open>JavaScript numbers\<close>

text \<open>
  Coordinates are JavaScript numbers, that is IEEE 754 binary64 values. A finite value is
  kept as the rational it denotes; \<open>Finite 0\<close> is \<open>+0\<close> and \<open>NegZero\<close> is \<open>-0\<close>.
  \<open>rnd\<close> rounds an exact rational result to the nearest binary64 value, ties to even,
  with gradual underflow (exponent floor \<open>-1074\<close>) and overflow to an infinity from
  \<open>2 ^ 1024\<close> on. A decimal literal of the source such as \<open>26.7606\<close> denotes
  \<open>rnd (267606 / 10000)\<close>.
\<close>

datatype float64 = Finite rat | NegZero | PosInf | NegInf | NaN

definition pow2 :: "int \<Rightarrow> rat" where
  "pow2 e = (if 0 \<le> e then 2 ^ nat e else 1 / 2 ^ nat (- e))"

definition pow10 :: "int \<Rightarrow> rat" where
  "pow10 e = (if 0 \<le> e then 10 ^ nat e else 1 / 10 ^ nat (- e))"

function bit_length :: "int \<Rightarrow> int" where
  "bit_length n = (if 0 < n then bit_length (n div 2) + 1 else 0)"
  by pat_completeness auto
termination
  by (relation "measure nat") auto

declare bit_length.simps [simp del]

definition ilog2 :: "rat \<Rightarrow> int" where
  "ilog2 a = (if 1 \<le> a then bit_length \<lfloor>a\<rfloor> - 1 else - bit_length (\<lceil>1 / a\<rceil> - 1))"

definition tie_break :: "int \<Rightarrow> rat \<Rightarrow> int" where
  "tie_break f d =
     (if d < 1 / 2 then f else if 1 / 2 < d then f + 1 else if even f then f else f + 1)"

definition round_half_even :: "rat \<Rightarrow> int" where
  "round_half_even x = tie_break \<lfloor>x\<rfloor> (x - of_int \<lfloor>x\<rfloor>)"

definition ulp_exp :: "rat \<Rightarrow> int" where
  "ulp_exp a = max (ilog2 a - 52) (- 1074)"

definition round_magnitude :: "rat \<Rightarrow> rat" where
  "round_magnitude a = of_int (round_half_even (a / pow2 (ulp_exp a))) * pow2 (ulp_exp a)"

definition pack :: "bool \<Rightarrow> rat \<Rightarrow> float64" where
  "pack positive v =
     (if 2 ^ 1024 \<le> v then (if positive then PosInf else NegInf)
      else if v = 0 then (if positive then Finite 0 else NegZero)
      else Finite (if positive then v else - v))"

definition rnd :: "rat \<Rightarrow> float64" where
  "rnd q = (if q = 0 then Finite 0 else pack (0 < q) (round_magnitude \<bar>q\<bar>))"

definition is_nan :: "float64 \<Rightarrow> bool" where "is_nan x = (x = NaN)"
definition is_inf :: "float64 \<Rightarrow> bool" where "is_inf x = (x = PosInf \<or> x = NegInf)"
definition is_zero :: "float64 \<Rightarrow> bool" where "is_zero x = (x = Finite 0 \<or> x = NegZero)"

fun is_neg :: "float64 \<Rightarrow> bool" where
  "is_neg (Finite q) = (q < 0)"
| "is_neg NegZero = True"
| "is_neg NegInf = True"
| "is_neg PosInf = False"
| "is_neg NaN = False"

fun magnitude :: "float64 \<Rightarrow> rat" where
  "magnitude (Finite q) = q"
| "magnitude _ = 0"

definition fmul :: "float64 \<Rightarrow> float64 \<Rightarrow> float64" where
  "fmul x y =
     (if is_nan x \<or> is_nan y then NaN
      else if is_inf x \<or> is_inf y then
        (if is_zero x \<or> is_zero y then NaN
         else if is_neg x \<noteq> is_neg y then NegInf else PosInf)
      else if is_zero x \<or> is_zero y then
        (if is_neg x \<noteq> is_neg y then NegZero else Finite 0)
      else rnd (magnitude x * magnitude y))"

definition fdiv :: "float64 \<Rightarrow> float64 \<Rightarrow> float64" where
  "fdiv x y =
     (if is_nan x \<or> is_nan y then NaN
      else if is_inf x then
        (if is_inf y then NaN else if is_neg x \<noteq> is_neg y then NegInf else PosInf)
      else if is_inf y then (if is_neg x \<noteq> is_neg y then NegZero else Finite 0)
      else if is_zero y then
        (if is_zero x then NaN else if is_neg x \<noteq> is_neg y then NegInf else PosInf)
      else if is_zero x then (if is_neg x \<noteq> is_neg y then NegZero else Finite 0)
      else rnd (magnitude x / magnitude y))"

fun math_round :: "float64 \<Rightarrow> float64" where
  "math_round (Finite q) =
     (if \<lfloor>q + 1 / 2\<rfloor> = 0 \<and> q < 0 then NegZero else Finite (of_int \<lfloor>q + 1 / 2\<rfloor>))"
| "math_round x = x"

subsection \<open>Number to string\<close>

text \<open>
  The template literal of the key applies the ECMAScript \<open>Number::toString\<close> conversion:
  the shortest decimal digit string \<open>s\<close> (of \<open>k\<close> digits, scaled by \<open>10 ^ (n - k)\<close>)
  that reads back as the same binary64 value, the closest one where several exist, laid out
  in positional notation for \<open>-6 < n \<le> 21\<close> and in exponent notation otherwise.
  \<open>shortest x k\<close> tries \<open>k = 1, 2, \<dots>\<close> digits; the two candidates at \<open>k\<close> digits are the
  neighbours \<open>dec_below x k \<le> x \<le> dec_above x k\<close> of \<open>x\<close> on the \<open>k\<close>-digit grid.
\<close>

definition digit_char :: "int \<Rightarrow> char" where
  "digit_char d = ''0123456789'' ! nat d"

function int_to_string :: "int \<Rightarrow> string" where
  "int_to_string n =
     (if n < 10 then [digit_char n] else int_to_string (n div 10) @ [digit_char (n mod 10)])"
  by pat_completeness auto
termination
  by (relation "measure nat") auto

function declen :: "int \<Rightarrow> int" where
  "declen n = (if 0 < n then declen (n div 10) + 1 else 0)"
  by pat_completeness auto
termination
  by (relation "measure nat") auto

declare int_to_string.simps [simp del] declen.simps [simp del]

definition dec_exp :: "rat \<Rightarrow> int" where
  "dec_exp a = (if 1 \<le> a then declen \<lfloor>a\<rfloor> else 1 - declen (\<lceil>1 / a\<rceil> - 1))"

definition grain :: "rat \<Rightarrow> int \<Rightarrow> rat" where
  "grain x k = pow10 (dec_exp x - k)"

definition dec_below :: "rat \<Rightarrow> int \<Rightarrow> rat" where
  "dec_below x k = of_int \<lfloor>x / grain x k\<rfloor> * grain x k"

definition dec_above :: "rat \<Rightarrow> int \<Rightarrow> rat" where
  "dec_above x k = of_int \<lceil>x / grain x k\<rceil> * grain x k"

definition closer :: "rat \<Rightarrow> int \<Rightarrow> rat" where
  "closer x k =
     (if x - dec_below x k < dec_above x k - x then dec_below x k
      else if dec_above x k - x < x - dec_below x k then dec_above x k
      else if even \<lfloor>x / grain x k\<rfloor> then dec_below x k else dec_above x k)"

function shortest :: "rat \<Rightarrow> int \<Rightarrow> rat \<times> int" where
  "shortest x k =
     (if 17 \<le> k then (closer x k, k)
      else if rnd (dec_below x k) = Finite x then
        (if rnd (dec_above x k) = Finite x then (closer x k, k) else (dec_below x k, k))
      else if rnd (dec_above x k) = Finite x then (dec_above x k, k)
      else shortest x (k + 1))"
  by pat_completeness auto
termination
  by (relation "measure (\<lambda>(x, k). nat (17 - k))") auto

declare shortest.simps [simp del]

definition exponent_part :: "int \<Rightarrow> string" where
  "exponent_part e = ''e'' @ (if 0 \<le> e then ''+'' else ''-'') @ int_to_string \<bar>e\<bar>"

definition layout :: "string \<Rightarrow> int \<Rightarrow> int \<Rightarrow> string" where
  "layout ds k n =
     (if k \<le> n \<and> n \<le> 21 then ds @ replicate (nat (n - k)) (CHR ''0'')
      else if 0 < n \<and> n \<le> 21 then take (nat n) ds @ ''.'' @ drop (nat n) ds
      else if - 6 < n \<and> n \<le> 0 then ''0.'' @ replicate (nat (- n)) (CHR ''0'') @ ds
      else if k = 1 then ds @ exponent_part (n - 1)
      else take 1 ds @ ''.'' @ drop 1 ds @ exponent_part (n - 1))"

fun digits_layout :: "rat \<times> int \<Rightarrow> string" where
  "digits_layout (c, k) = layout (int_to_string \<lfloor>c / pow10 (dec_exp c - k)\<rfloor>) k (dec_exp c)"

definition positive_to_string :: "rat \<Rightarrow> string" where
  "positive_to_string x = digits_layout (shortest x 1)"

fun number_to_string :: "float64 \<Rightarrow> string" where
  "number_to_string NaN = ''NaN''"
| "number_to_string NegZero = ''0''"
| "number_to_string PosInf = ''Infinity''"
| "number_to_string NegInf = ''-Infinity''"
| "number_to_string (Finite q) =
     (if q = 0 then ''0'' else if q < 0 then ''-'' @ positive_to_string (- q)
      else positive_to_string q)"

section \<open>Cache keys\<close>

text \<open>
  \<open>generateCacheKey\<close> of the service class and \<open>getCacheKey\<close> of the standalone utility:
  both round each coordinate with \<open>Math.round(x * 1000) / 1000\<close>, here \<open>rounded x\<close>, and
  join the two numbers, converted to strings, with a comma.
\<close>

definition rounded :: "float64 \<Rightarrow> float64" where
  "rounded x = fdiv (math_round (fmul x (Finite 1000))) (Finite 1000)"

definition generateCacheKey :: "float64 \<Rightarrow> float64 \<Rightarrow> string" where
  "generateCacheKey lat lng =
     (let roundedLat = rounded lat;
          roundedLng = rounded lng
      in number_to_string roundedLat @ '','' @ number_to_string roundedLng)"

definition getCacheKey :: "float64 \<Rightarrow> float64 \<Rightarrow> string" where
  "getCacheKey lat lng = number_to_string (rounded lat) @ '','' @ number_to_string (rounded lng)"


text \<open>
  What the key is meant to be: the decimal numeral of a whole number of thousandths, with
  an integer part, at most three fractional digits, no trailing zero and no sign for zero.
  \<open>cell x\<close> is the whole number that \<open>Math.round(x * 1000)\<close> returns, and \<open>in_range\<close>
  holds of the numbers up to 180 in magnitude, which include the latitudes and longitudes
  that the route \<open>GET /geocode\<close> admits.
\<close>

definition fraction :: "int \<Rightarrow> string" where
  "fraction r =
     (if r = 0 then []
      else if r mod 100 = 0 then ''.'' @ [digit_char (r div 100)]
      else if r mod 10 = 0 then ''.'' @ [digit_char (r div 100), digit_char (r div 10 mod 10)]
      else ''.'' @ [digit_char (r div 100), digit_char (r div 10 mod 10), digit_char (r mod 10)])"

definition thousandths :: "int \<Rightarrow> string" where
  "thousandths n =
     (if n < 0 then ''-'' else []) @ int_to_string (\<bar>n\<bar> div 1000) @ fraction (\<bar>n\<bar> mod 1000)"

definition cell :: "float64 \<Rightarrow> int" where
  "cell x = \<lfloor>magnitude (math_round (fmul x (Finite 1000)))\<rfloor>"

definition in_range :: "float64 \<Rightarrow> bool" where
  "in_range x = (\<not> is_nan x \<and> \<not> is_inf x \<and> \<bar>magnitude x\<bar> \<le> 180)"


section \<open>Formatting a resolver result\<close>

text \<open>
  The resolver answers with a list of candidate lists, or with nothing (\<open>None\<close>). A
  candidate is an object whose properties may be missing (\<open>None\<close>). Its \<open>admin1Code\<close> and
  \<open>admin2Code\<close> are either an object, which may carry a \<open>name\<close>, or a bare code string.
\<close>

datatype admin = AdminObject "string option" | AdminCode string

record candidate =
  data_name :: "string option"
  data_admin1Code :: "admin option"
  data_admin2Code :: "admin option"
  data_countryCode :: "string option"
  data_population :: "int option"
  data_featureCode :: "string option"

type_synonym raw_result = "candidate list list option"

text \<open>
  The value of \<open>data.admin1Code?.name || data.admin1Code || ''\<close>: a string, or the admin
  object itself when it has no name or an empty one (an object is truthy).
\<close>

datatype area_name = Text string | Object "string option"

fun adminName :: "admin option \<Rightarrow> area_name" where
  "adminName None = Text ''''"
| "adminName (Some (AdminCode c)) = Text c"
| "adminName (Some (AdminObject None)) = Object None"
| "adminName (Some (AdminObject (Some n))) = (if n \<noteq> '''' then Text n else Object (Some n))"

fun truthy :: "area_name \<Rightarrow> bool" where
  "truthy (Text s) = (s \<noteq> '''')"
| "truthy (Object _) = True"

fun to_string :: "area_name \<Rightarrow> string" where
  "to_string (Text s) = s"
| "to_string (Object _) = ''[object Object]''"

fun or_empty :: "string option \<Rightarrow> string" where
  "or_empty None = ''''"
| "or_empty (Some s) = s"

fun or_zero :: "int option \<Rightarrow> int" where
  "or_zero None = 0"
| "or_zero (Some n) = n"

text \<open>
  A location as the formatter builds it. \<open>countryName\<close> is \<open>None\<close> when the property holds
  \<open>undefined\<close>. The service class adds \<open>featureCode\<close>; the utility does not.
\<close>

record location =
  name :: string
  adminName1 :: area_name
  adminName2 :: area_name
  countryCode :: string
  countryName :: "string option"
  population :: int
  displayName :: string

record featured_location = location +
  featureCode :: string

definition countries :: "(string \<times> string) list" where
  "countries =
     [(''IN'', ''India''), (''US'', ''United States''), (''GB'', ''United Kingdom''),
      (''CA'', ''Canada''), (''AU'', ''Australia''), (''DE'', ''Germany''),
      (''FR'', ''France''), (''JP'', ''Japan''), (''CN'', ''China''), (''BR'', ''Brazil'')]"

definition COUNTRY_NAMES :: "(string \<times> string) list" where
  "COUNTRY_NAMES =
     [(''IN'', ''India''), (''US'', ''United States''), (''GB'', ''United Kingdom''),
      (''CA'', ''Canada''), (''AU'', ''Australia''), (''DE'', ''Germany''),
      (''FR'', ''France''), (''JP'', ''Japan''), (''CN'', ''China''), (''BR'', ''Brazil''),
      (''RU'', ''Russia''), (''AE'', ''UAE''), (''SG'', ''Singapore''),
      (''NL'', ''Netherlands''), (''IT'', ''Italy''), (''ES'', ''Spain''),
      (''MX'', ''Mexico''), (''ID'', ''Indonesia''), (''PK'', ''Pakistan''),
      (''BD'', ''Bangladesh''), (''NP'', ''Nepal''), (''LK'', ''Sri Lanka'')]"

text \<open>
  \<open>table[code] || code\<close>. The code of a candidate is the ISO 3166 code of its country, and
  the table is looked up among its own keys: a string that names a member of
  \<open>Object.prototype\<close>, such as \<open>constructor\<close>, is no country code, and the member that
  the source would find for it is left out.
\<close>

fun lookup_or_code :: "(string \<times> string) list \<Rightarrow> string option \<Rightarrow> string option" where
  "lookup_or_code table None = None"
| "lookup_or_code table (Some code) =
     (case map_of table code of
        Some n \<Rightarrow> if n \<noteq> '''' then Some n else Some code
      | None \<Rightarrow> Some code)"

definition getCountryName :: "string option \<Rightarrow> string option" where
  "getCountryName code = lookup_or_code countries code"

fun join :: "string \<Rightarrow> string list \<Rightarrow> string" where
  "join sep [] = ''''"
| "join sep [x] = x"
| "join sep (x # y # ys) = x @ sep @ join sep (y # ys)"

text \<open>
  The display name: \<open>parts\<close> starts as \<open>[name]\<close>, the three pushes are conditional, and
  \<open>parts.filter(Boolean).join(', ')\<close> drops the falsy parts and joins the rest.
\<close>

definition buildDisplayName :: "string \<Rightarrow> area_name \<Rightarrow> area_name \<Rightarrow> string option \<Rightarrow> string" where
  "buildDisplayName nm a2 a1 cn =
     (let parts = [Text nm]
              @ (if truthy a2 \<and> a2 \<noteq> Text nm then [a2] else [])
              @ (if truthy a1 then [a1] else [])
              @ (if or_empty cn \<noteq> '''' then [Text (or_empty cn)] else [])
      in join '', '' (map to_string (filter truthy parts)))"

fun formatLocation :: "raw_result \<Rightarrow> featured_location option" where
  "formatLocation None = None"
| "formatLocation (Some []) = None"
| "formatLocation (Some ([] # _)) = None"
| "formatLocation (Some ((data # _) # _)) =
     Some \<lparr>name = or_empty (data_name data),
           adminName1 = adminName (data_admin1Code data),
           adminName2 = adminName (data_admin2Code data),
           countryCode = or_empty (data_countryCode data),
           countryName = getCountryName (data_countryCode data),
           population = or_zero (data_population data),
           displayName =
             buildDisplayName (or_empty (data_name data)) (adminName (data_admin2Code data))
               (adminName (data_admin1Code data)) (getCountryName (data_countryCode data)),
           featureCode = or_empty (data_featureCode data)\<rparr>"

text \<open>
  The utility's formatter answers the two-field object
  \<open>{name: 'Unknown', displayName: 'Unknown Location'}\<close> where the service answers \<open>null\<close>.
\<close>

datatype 'l place = Known 'l | Unknown

fun formatLocation_util :: "raw_result \<Rightarrow> location place" where
  "formatLocation_util None = Unknown"
| "formatLocation_util (Some []) = Unknown"
| "formatLocation_util (Some ([] # _)) = Unknown"
| "formatLocation_util (Some ((data # _) # _)) =
     Known \<lparr>name = or_empty (data_name data),
            adminName1 = adminName (data_admin1Code data),
            adminName2 = adminName (data_admin2Code data),
            countryCode = or_empty (data_countryCode data),
            countryName = lookup_or_code COUNTRY_NAMES (data_countryCode data),
            population = or_zero (data_population data),
            displayName =
              buildDisplayName (or_empty (data_name data)) (adminName (data_admin2Code data))
                (adminName (data_admin1Code data))
                (lookup_or_code COUNTRY_NAMES (data_countryCode data))\<rparr>"

fun place_name :: "('l::type) location_scheme place \<Rightarrow> string" where
  "place_name (Known l) = name l"
| "place_name Unknown = ''Unknown''"

fun place_displayName :: "'l location_scheme place \<Rightarrow> string" where
  "place_displayName (Known l) = displayName l"
| "place_displayName Unknown = ''Unknown Location''"


section \<open>The cache collection\<close>

text \<open>
  A document of the \<open>GeoCache\<close> collection. Dates are milliseconds since the epoch and
  \<open>hitCount\<close> is an integer. The collection is the list of its documents; a query by
  \<open>cacheKey\<close> addresses the first document that carries the key. The service class stores
  the raw resolver response, the utility's schema has no such path (\<open>'r\<close> is \<open>unit\<close>).
\<close>

record ('l, 'r) geo_cache =
  cacheKey :: string
  latitude :: float64
  longitude :: float64
  location :: 'l
  rawResponse :: 'r
  createdAt :: int
  hitCount :: int
  lastAccessedAt :: int

fun update_first :: "('a \<Rightarrow> bool) \<Rightarrow> ('a \<Rightarrow> 'a) \<Rightarrow> 'a list \<Rightarrow> 'a list" where
  "update_first p f [] = []"
| "update_first p f (d # ds) = (if p d then f d # ds else d # update_first p f ds)"

text \<open>
  \<open>findOneAndUpdate({cacheKey}, update, options)\<close>: the first document with the key is
  updated and returned as updated; without a match, \<open>upsert\<close> (\<open>Some\<close> of the document to
  insert) appends that document, and otherwise nothing is returned and nothing changes.
\<close>

definition findOneAndUpdate ::
  "string \<Rightarrow> (('l, 'r) geo_cache \<Rightarrow> ('l, 'r) geo_cache) \<Rightarrow> ('l, 'r) geo_cache option \<Rightarrow>
   ('l, 'r) geo_cache list \<Rightarrow> ('l, 'r) geo_cache option \<times> ('l, 'r) geo_cache list" where
  "findOneAndUpdate key update upsert docs =
     (case find (\<lambda>d. cacheKey d = key) docs of
        Some d \<Rightarrow> (Some (update d), update_first (\<lambda>d. cacheKey d = key) update docs)
      | None \<Rightarrow>
          (case upsert of
             None \<Rightarrow> (None, docs)
           | Some d \<Rightarrow> (Some d, docs @ [d])))"

text \<open>\<open>deleteMany(filter)\<close> removes the matching documents and reports how many.\<close>

definition deleteMany :: "('a \<Rightarrow> bool) \<Rightarrow> 'a list \<Rightarrow> nat \<times> 'a list" where
  "deleteMany p docs = (length (filter p docs), filter (\<lambda>d. \<not> p d) docs)"


section \<open>The service\<close>

text \<open>
  A rejection: an \<open>Error\<close> with its message, or the \<open>CastError\<close> with which a query is
  refused when a value cannot be cast to the schema type of its path.
\<close>

datatype js_error = Error (message: string) | CastError (path: string)

text \<open>
  What one call meets outside the program: the resolver's answer for a coordinate pair
  (an error or a raw result), whether the cache read and the cache write reject (with
  which message), and the clock at the read and at the write. A rejected store call
  leaves the collection as it was.
\<close>

record world =
  lookUp :: "float64 \<Rightarrow> float64 \<Rightarrow> js_error + raw_result"
  readFault :: "string option"
  writeFault :: "string option"
  readClock :: int
  writeClock :: int

text \<open>
  The state: the initialisation flag, the collection, and the log of the coordinate pairs
  handed to the resolver, which makes a resolver call observable.
\<close>

record ('l, 'r) service =
  isInitialized :: bool
  geoCache :: "('l, 'r) geo_cache list"
  lookUpCalls :: "(float64 \<times> float64) list"

record 'l lookup_result =
  r_place :: "'l place"
  r_source :: string
  r_cacheKey :: string
  r_hitCount :: "int option"

text \<open>Step 1, the cache check: a hit touches the document; a rejected read is a miss.\<close>

definition touch :: "int \<Rightarrow> ('l, 'r) geo_cache \<Rightarrow> ('l, 'r) geo_cache" where
  "touch now d = d\<lparr>hitCount := hitCount d + 1, lastAccessedAt := now\<rparr>"

definition checkCache ::
  "world \<Rightarrow> string \<Rightarrow> ('l, 'r) service \<Rightarrow> (('l, 'r) geo_cache \<times> ('l, 'r) service) option" where
  "checkCache w key s =
     (case readFault w of
        Some msg \<Rightarrow> None
      | None \<Rightarrow>
          (case findOneAndUpdate key (touch (readClock w)) None (geoCache s) of
             (Some cached, docs) \<Rightarrow> Some (cached, s\<lparr>geoCache := docs\<rparr>)
           | (None, docs) \<Rightarrow> None))"

text \<open>
  Step 3, the cache write: the update document names every field, \<open>hitCount: 1\<close> among
  them, so an existing document has them all set; a new one also gets \<open>createdAt\<close>.
  A rejected write is logged and dropped.
\<close>

definition overwrite ::
  "string \<Rightarrow> float64 \<Rightarrow> float64 \<Rightarrow> 'l \<Rightarrow> 'r \<Rightarrow> int \<Rightarrow> ('l, 'r) geo_cache \<Rightarrow> ('l, 'r) geo_cache" where
  "overwrite key lat lng loc raw now d =
     d\<lparr>cacheKey := key, latitude := lat, longitude := lng, location := loc,
       rawResponse := raw, hitCount := 1, lastAccessedAt := now\<rparr>"

definition fresh ::
  "string \<Rightarrow> float64 \<Rightarrow> float64 \<Rightarrow> 'l \<Rightarrow> 'r \<Rightarrow> int \<Rightarrow> ('l, 'r) geo_cache" where
  "fresh key lat lng loc raw now =
     \<lparr>cacheKey = key, latitude = lat, longitude = lng, location = loc, rawResponse = raw,
      createdAt = now, hitCount = 1, lastAccessedAt = now\<rparr>"

definition saveToCache ::
  "world \<Rightarrow> string \<Rightarrow> float64 \<Rightarrow> float64 \<Rightarrow> 'l \<Rightarrow> 'r \<Rightarrow> ('l, 'r) service \<Rightarrow> ('l, 'r) service" where
  "saveToCache w key lat lng loc raw s =
     (case writeFault w of
        Some msg \<Rightarrow> s
      | None \<Rightarrow>
          s\<lparr>geoCache :=
              snd (findOneAndUpdate key (overwrite key lat lng loc raw (writeClock w))
                     (Some (fresh key lat lng loc raw (writeClock w))) (geoCache s))\<rparr>)"

text \<open>Step 2, the resolver call, which the log records.\<close>

definition lookupLocal ::
  "world \<Rightarrow> float64 \<Rightarrow> float64 \<Rightarrow> ('l, 'r) service \<Rightarrow> (js_error + raw_result) \<times> ('l, 'r) service" where
  "lookupLocal w lat lng s = (lookUp w lat lng, s\<lparr>lookUpCalls := lookUpCalls s @ [(lat, lng)]\<rparr>)"

text \<open>
  \<open>getLocation(lat, lng, skipCache)\<close> of the service class. The source awaits the cache
  read, the resolver and the cache write. Here a call runs to its end with no other call in
  between; the cache read alone is \<open>checkCache\<close> and the cache write alone is
  \<open>saveToCache\<close>, so that a write which arrives after other calls have run is
  \<open>saveToCache\<close> on the state that they left.
\<close>

definition getLocation ::
  "world \<Rightarrow> (featured_location, raw_result) service \<Rightarrow> float64 \<Rightarrow> float64 \<Rightarrow> bool \<Rightarrow>
   (js_error + featured_location lookup_result) \<times> (featured_location, raw_result) service" where
  "getLocation w s lat lng skipCache =
     (if \<not> isInitialized s
      then (Inl (Error ''Geocoder not initialized. Call init() first.''), s)
      else
        let key = generateCacheKey lat lng
        in case (if skipCache then None else checkCache w key s) of
             Some (cached, s') \<Rightarrow>
               (Inr \<lparr>r_place = Known (location cached), r_source = ''cache'',
                     r_cacheKey = key, r_hitCount = Some (hitCount cached)\<rparr>, s')
           | None \<Rightarrow>
               (case lookupLocal w lat lng s of
                  (Inl err, s1) \<Rightarrow> (Inl err, s1)
                | (Inr rawResult, s1) \<Rightarrow>
                    (case formatLocation rawResult of
                       None \<Rightarrow>
                         (Inr \<lparr>r_place = Unknown, r_source = ''local'',
                               r_cacheKey = key, r_hitCount = None\<rparr>, s1)
                     | Some loc \<Rightarrow>
                         (Inr \<lparr>r_place = Known loc, r_source = ''local'',
                               r_cacheKey = key, r_hitCount = None\<rparr>,
                          saveToCache w key lat lng loc rawResult s1))))"

text \<open>
  \<open>reverseGeocode(lat, lng, options)\<close> of the utility: a hit answers without \<open>hitCount\<close>,
  and the result is written unless its name is \<open>'Unknown'\<close>.
\<close>

definition reverseGeocode ::
  "world \<Rightarrow> (location, unit) service \<Rightarrow> float64 \<Rightarrow> float64 \<Rightarrow> bool \<Rightarrow>
   (js_error + location lookup_result) \<times> (location, unit) service" where
  "reverseGeocode w s lat lng skipCache =
     (if \<not> isInitialized s
      then (Inl (Error ''Geocoder not initialized. Call initGeocoder() first.''), s)
      else
        let key = getCacheKey lat lng
        in case (if skipCache then None else checkCache w key s) of
             Some (cached, s') \<Rightarrow>
               (Inr \<lparr>r_place = Known (location cached), r_source = ''cache'',
                     r_cacheKey = key, r_hitCount = None\<rparr>, s')
           | None \<Rightarrow>
               (case lookupLocal w lat lng s of
                  (Inl err, s1) \<Rightarrow> (Inl err, s1)
                | (Inr result, s1) \<Rightarrow>
                    (let loc = formatLocation_util result
                     in (Inr \<lparr>r_place = loc, r_source = ''local'',
                               r_cacheKey = key, r_hitCount = None\<rparr>,
                         case loc of
                           Known l \<Rightarrow>
                             if name l \<noteq> ''Unknown''
                             then saveToCache w key lat lng l () s1 else s1
                         | Unknown \<Rightarrow> s1))))"


section \<open>Batch lookups\<close>

text \<open>
  One entry of a batch answer. The service class answers \<open>{...coord, location: result}\<close>
  or \<open>{...coord, location: null, error: err.message}\<close>; the utility answers
  \<open>{lat, lng, location, success: true}\<close> or \<open>{lat, lng, error: err.message, success: false}\<close>.
  The \<open>i\<close>-th call of a batch meets the world \<open>ws i\<close>.
\<close>

record coord =
  coord_lat :: float64
  coord_lng :: float64

record 'l batch_entry = coord +
  entry_location :: "'l lookup_result option"
  entry_error :: "string option"

record 'l util_entry = "'l batch_entry" +
  success :: bool

fun getLocations ::
  "(nat \<Rightarrow> world) \<Rightarrow> (featured_location, raw_result) service \<Rightarrow> coord list \<Rightarrow>
   featured_location batch_entry list \<times> (featured_location, raw_result) service" where
  "getLocations ws s [] = ([], s)"
| "getLocations ws s (c # cs) =
     (case getLocation (ws 0) s (coord_lat c) (coord_lng c) False of
        (Inr result, s1) \<Rightarrow>
          (case getLocations (\<lambda>i. ws (Suc i)) s1 cs of
             (results, s2) \<Rightarrow>
               (\<lparr>coord_lat = coord_lat c, coord_lng = coord_lng c, entry_location = Some result,
                  entry_error = None\<rparr> # results, s2))
      | (Inl err, s1) \<Rightarrow>
          (case getLocations (\<lambda>i. ws (Suc i)) s1 cs of
             (results, s2) \<Rightarrow>
               (\<lparr>coord_lat = coord_lat c, coord_lng = coord_lng c, entry_location = None,
                  entry_error = Some (message err)\<rparr> # results, s2)))"

fun reverseGeocodeBatch ::
  "(nat \<Rightarrow> world) \<Rightarrow> (location, unit) service \<Rightarrow> coord list \<Rightarrow>
   location util_entry list \<times> (location, unit) service" where
  "reverseGeocodeBatch ws s [] = ([], s)"
| "reverseGeocodeBatch ws s (c # cs) =
     (case reverseGeocode (ws 0) s (coord_lat c) (coord_lng c) False of
        (Inr loc, s1) \<Rightarrow>
          (case reverseGeocodeBatch (\<lambda>i. ws (Suc i)) s1 cs of
             (results, s2) \<Rightarrow>
               (\<lparr>coord_lat = coord_lat c, coord_lng = coord_lng c, entry_location = Some loc,
                  entry_error = None, success = True\<rparr> # results, s2))
      | (Inl err, s1) \<Rightarrow>
          (case reverseGeocodeBatch (\<lambda>i. ws (Suc i)) s1 cs of
             (results, s2) \<Rightarrow>
               (\<lparr>coord_lat = coord_lat c, coord_lng = coord_lng c, entry_location = None,
                  entry_error = Some (message err), success = False\<rparr> # results, s2)))"


section \<open>Eviction\<close>

text \<open>
  A \<open>Date\<close> holds a time value: a whole number of milliseconds within \<open>8.64e15\<close> of the
  epoch, or \<open>NaN\<close>, which makes it an Invalid Date (\<open>None\<close>). \<open>TimeClip\<close> is the last step
  of the \<open>Date\<close> constructor and of \<open>setDate\<close>.

  The service class moves the calendar day of a local date:
  \<open>cutoffDate.setDate(cutoffDate.getDate() - daysOld)\<close> is the local time of now, less
  \<open>daysOld\<close> days of \<open>msPerDay\<close> milliseconds, read back as universal time and clipped.
  The two conversions belong to the host's time zone. The utility subtracts the
  milliseconds from \<open>Date.now()\<close> and makes a \<open>Date\<close> of the difference. Both default
  \<open>daysOld\<close> to 90. \<open>daysOld\<close> is a whole number; the binary64 arithmetic of the source is
  exact as long as its result is a time value, and out of range whenever the exact result
  is.

  The query \<open>{lastAccessedAt: {$lt: cutoff}}\<close> is cast to the schema before it is sent: an
  Invalid Date is rejected with a \<open>CastError\<close> at the path \<open>lastAccessedAt\<close>, and the
  collection is not touched. A rejection by the store itself is \<open>fault\<close>.
\<close>

definition msPerDay :: int where
  "msPerDay = 24 * 60 * 60 * 1000"

definition TimeClip :: "int \<Rightarrow> int option" where
  "TimeClip time = (if 8640000000000000 < \<bar>time\<bar> then None else Some time)"

record time_zone =
  LocalTime :: "int \<Rightarrow> int"
  UTC :: "int \<Rightarrow> int"

fun or_90 :: "int option \<Rightarrow> int" where
  "or_90 None = 90"
| "or_90 (Some d) = d"

definition cutoffDate :: "time_zone \<Rightarrow> int \<Rightarrow> int \<Rightarrow> int option" where
  "cutoffDate tz now daysOld = TimeClip (UTC tz (LocalTime tz now - daysOld * msPerDay))"

definition cutoff :: "int \<Rightarrow> int \<Rightarrow> int option" where
  "cutoff now daysOld = TimeClip (now - daysOld * msPerDay)"

definition castDate :: "string \<Rightarrow> int option \<Rightarrow> js_error + int" where
  "castDate p date = (case date of None \<Rightarrow> Inl (CastError p) | Some t \<Rightarrow> Inr t)"

definition clearOldCache ::
  "time_zone \<Rightarrow> int \<Rightarrow> string option \<Rightarrow> ('l, 'r) service \<Rightarrow> int option \<Rightarrow>
   (js_error + nat) \<times> ('l, 'r) service" where
  "clearOldCache tz now fault s daysOld =
     (case castDate ''lastAccessedAt'' (cutoffDate tz now (or_90 daysOld)) of
        Inl err \<Rightarrow> (Inl err, s)
      | Inr t \<Rightarrow>
          (case fault of
             Some msg \<Rightarrow> (Inl (Error msg), s)
           | None \<Rightarrow>
               (case deleteMany (\<lambda>d. lastAccessedAt d < t) (geoCache s) of
                  (deletedCount, docs) \<Rightarrow> (Inr deletedCount, s\<lparr>geoCache := docs\<rparr>))))"

definition clearOldCache_util ::
  "int \<Rightarrow> string option \<Rightarrow> ('l, 'r) service \<Rightarrow> int option \<Rightarrow>
   (js_error + nat) \<times> ('l, 'r) service" where
  "clearOldCache_util now fault s daysOld =
     (case castDate ''lastAccessedAt'' (cutoff now (or_90 daysOld)) of
        Inl err \<Rightarrow> (Inl err, s)
      | Inr t \<Rightarrow>
          (case fault of
             Some msg \<Rightarrow> (Inl (Error msg), s)
           | None \<Rightarrow>
               (case deleteMany (\<lambda>d. lastAccessedAt d < t) (geoCache s) of
                  (deletedCount, docs) \<Rightarrow> (Inr deletedCount, s\<lparr>geoCache := docs\<rparr>))))"

definition fixed_offset :: "int \<Rightarrow> time_zone" where
  "fixed_offset off = \<lparr>LocalTime = (\<lambda>t. t + off), UTC = (\<lambda>t. t - off)\<rparr>"


section \<open>Sequences of lookups\<close>

text \<open>
  A sequence of calls, each with its world, its coordinates and its \<open>skipCache\<close> flag, run
  one after the other on the state.
\<close>

type_synonym call = "world \<times> float64 \<times> float64 \<times> bool"

fun lookups ::
  "call list \<Rightarrow> (featured_location, raw_result) service \<Rightarrow> (featured_location, raw_result) service" where
  "lookups [] s = s"
| "lookups ((w, lat, lng, skipCache) # calls) s =
     lookups calls (snd (getLocation w s lat lng skipCache))"

fun lookups_util :: "call list \<Rightarrow> (location, unit) service \<Rightarrow> (location, unit) service" where
  "lookups_util [] s = s"
| "lookups_util ((w, lat, lng, skipCache) # calls) s =
     lookups_util calls (snd (reverseGeocode w s lat lng skipCache))"

text \<open>
  The ways one lookup can change the collection: not at all; a hit touches the first
  document that satisfies a predicate; a write creates a document, with \<open>hitCount\<close> 1; and,
  only when the lookup bypassed the cache or its cache read was rejected (\<open>forced\<close>), a
  write overwrites an existing document, setting its \<open>hitCount\<close> to 1.
\<close>

definition cache_step ::
  "bool \<Rightarrow> ('l, 'r) geo_cache list \<Rightarrow> ('l, 'r) geo_cache list \<Rightarrow> bool" where
  "cache_step forced ds ds' \<longleftrightarrow>
     ds' = ds
     \<or> (\<exists>p now. ds' = update_first p (touch now) ds)
     \<or> (\<exists>d. hitCount d = 1 \<and> ds' = ds @ [d])
     \<or> (forced \<and> (\<exists>p f. (\<forall>d. hitCount (f d) = 1) \<and> ds' = update_first p f ds))"


section \<open>Example data\<close>

definition gorakhpur :: candidate where
  "gorakhpur =
     \<lparr>data_name = Some ''Gorakhpur'',
      data_admin1Code = Some (AdminObject (Some ''Uttar Pradesh'')),
      data_admin2Code = Some (AdminObject (Some ''Gorakhpur'')),
      data_countryCode = Some ''IN'',
      data_population = None,
      data_featureCode = None\<rparr>"

definition gorakhpur_location :: featured_location where
  "gorakhpur_location =
     \<lparr>name = ''Gorakhpur'', adminName1 = Text ''Uttar Pradesh'', adminName2 = Text ''Gorakhpur'',
      countryCode = ''IN'', countryName = Some ''India'', population = 0,
      displayName = ''Gorakhpur, Uttar Pradesh, India'', featureCode = ''''\<rparr>"

definition gorakhpur_lat :: float64 where
  "gorakhpur_lat = rnd (267606 / 10000)"

definition gorakhpur_lng :: float64 where
  "gorakhpur_lng = rnd (833732 / 10000)"

definition nowhere :: raw_result where
  "nowhere = Some [[]]"

definition answers :: "raw_result \<Rightarrow> float64 \<Rightarrow> float64 \<Rightarrow> js_error + raw_result" where
  "answers raw la lo = Inr raw"

definition fails :: "string \<Rightarrow> float64 \<Rightarrow> float64 \<Rightarrow> js_error + raw_result" where
  "fails msg la lo = Inl (Error msg)"

definition calm :: "(float64 \<Rightarrow> float64 \<Rightarrow> js_error + raw_result) \<Rightarrow> int \<Rightarrow> world" where
  "calm resolver now =
     \<lparr>lookUp = resolver, readFault = None, writeFault = None, readClock = now, writeClock = now\<rparr>"

definition store_down :: "(float64 \<Rightarrow> float64 \<Rightarrow> js_error + raw_result) \<Rightarrow> world" where
  "store_down resolver =
     \<lparr>lookUp = resolver, readFault = Some ''connection lost'',
      writeFault = Some ''connection lost'', readClock = 0, writeClock = 0\<rparr>"

definition ready :: "('l, 'r) service" where
  "ready = \<lparr>isInitialized = True, geoCache = [], lookUpCalls = []\<rparr>"

definition delhi_lat :: float64 where
  "delhi_lat = rnd (286139 / 10000)"

definition delhi_lng :: float64 where
  "delhi_lng = rnd (772090 / 10000)"

text \<open>
  A batch of three coordinates, the first and the last being the same place; at the second
  call the store and the resolver are both down.
\<close>

definition batch3 :: "coord list" where
  "batch3 =
     [\<lparr>coord_lat = gorakhpur_lat, coord_lng = gorakhpur_lng\<rparr>,
      \<lparr>coord_lat = delhi_lat, coord_lng = delhi_lng\<rparr>,
      \<lparr>coord_lat = gorakhpur_lat, coord_lng = gorakhpur_lng\<rparr>]"

definition three_calls :: "nat \<Rightarrow> world" where
  "three_calls i =
     (if i = 1 then store_down (fails ''no data'')
      else calm (answers (Some [[gorakhpur]])) (1000 + int i))"

text \<open>Three documents, last read at, one millisecond before and one after a given instant.\<close>

definition seen_at :: "string \<Rightarrow> int \<Rightarrow> (featured_location, raw_result) geo_cache" where
  "seen_at key t = fresh key gorakhpur_lat gorakhpur_lng gorakhpur_location (Some [[gorakhpur]]) t"

definition aged :: "int \<Rightarrow> (featured_location, raw_result) service" where
  "aged t =
     \<lparr>isInitialized = True,
      geoCache = [seen_at ''a'' t, seen_at ''b'' (t - 1), seen_at ''c'' (t + 1)],
      lookUpCalls = []\<rparr>"

text \<open>
  US Eastern time about the start of daylight saving time on 10 March 2024, 07:00 UTC: local
  time is five hours behind universal time before it and four hours behind from then on.
  The local hour from 02:00 that the clocks skip is read with the earlier offset.
\<close>

definition new_york :: time_zone where
  "new_york =
     \<lparr>LocalTime = (\<lambda>t. if t < 1710054000000 then t - 18000000 else t - 14400000),
      UTC = (\<lambda>t. if t < 1710039600000 then t + 18000000 else t + 14400000)\<rparr>"

text \<open>A candidate that has a name and nothing else.\<close>

definition atlantis :: candidate where
  "atlantis =
     \<lparr>data_name = Some ''Atlantis'', data_admin1Code = None, data_admin2Code = None,
      data_countryCode = None, data_population = None, data_featureCode = None\<rparr>"

text \<open>A candidate whose name is the word \<open>Unknown\<close>.\<close>

definition unknown_village :: candidate where
  "unknown_village =
     \<lparr>data_name = Some ''Unknown'', data_admin1Code = None, data_admin2Code = None,
      data_countryCode = Some ''IN'', data_population = None, data_featureCode = None\<rparr>"

text \<open>A collection whose one document, for the key of the example, has been read five times.\<close>

definition popular :: "(featured_location, raw_result) service" where
  "popular =
     \<lparr>isInitialized = True,
      geoCache = [(seen_at (generateCacheKey gorakhpur_lat gorakhpur_lng) 1000)\<lparr>hitCount := 5\<rparr>],
      lookUpCalls = []\<rparr>"

definition gorakhpur_place :: location where
  "gorakhpur_place =
     \<lparr>name = ''Gorakhpur'', adminName1 = Text ''Uttar Pradesh'', adminName2 = Text ''Gorakhpur'',
      countryCode = ''IN'', countryName = Some ''India'', population = 0,
      displayName = ''Gorakhpur, Uttar Pradesh, India''\<rparr>"

definition popular_util :: "(location, unit) service" where
  "popular_util =
     \<lparr>isInitialized = True,
      geoCache = [(fresh (getCacheKey gorakhpur_lat gorakhpur_lng) gorakhpur_lat gorakhpur_lng
                    gorakhpur_place () 1000)\<lparr>hitCount := 5\<rparr>],
      lookUpCalls = []\<rparr>"


section \<open>The paths of a lookup\<close>

lemma checkCache_fault: "readFault w = Some m \<Longrightarrow> checkCache w key s = None"
  by (simp add: checkCache_def)

lemma checkCache_miss:
  "find (\<lambda>d. cacheKey d = key) (geoCache s) = None \<Longrightarrow> checkCache w key s = None"
  by (simp add: checkCache_def findOneAndUpdate_def split: option.splits)

lemma checkCache_hit:
  "readFault w = None \<Longrightarrow> find (\<lambda>d. cacheKey d = key) (geoCache s) = Some d \<Longrightarrow>
   checkCache w key s =
     Some (touch (readClock w) d,
           s\<lparr>geoCache := update_first (\<lambda>d. cacheKey d = key) (touch (readClock w)) (geoCache s)\<rparr>)"
  by (simp add: checkCache_def findOneAndUpdate_def)

lemma getLocation_resolver_path:
  assumes "isInitialized s" "skipCache \<or> checkCache w (generateCacheKey lat lng) s = None"
  shows "getLocation w s lat lng skipCache =
     (case lookUp w lat lng of
        Inl err \<Rightarrow> (Inl err, s\<lparr>lookUpCalls := lookUpCalls s @ [(lat, lng)]\<rparr>)
      | Inr rawResult \<Rightarrow>
          (case formatLocation rawResult of
             None \<Rightarrow>
               (Inr \<lparr>r_place = Unknown, r_source = ''local'',
                     r_cacheKey = generateCacheKey lat lng, r_hitCount = None\<rparr>,
                s\<lparr>lookUpCalls := lookUpCalls s @ [(lat, lng)]\<rparr>)
           | Some loc \<Rightarrow>
               (Inr \<lparr>r_place = Known loc, r_source = ''local'',
                     r_cacheKey = generateCacheKey lat lng, r_hitCount = None\<rparr>,
                saveToCache w (generateCacheKey lat lng) lat lng loc rawResult
                  (s\<lparr>lookUpCalls := lookUpCalls s @ [(lat, lng)]\<rparr>))))"
  using assms
  by (auto simp: getLocation_def Let_def lookupLocal_def split: sum.splits option.splits)

lemma getLocation_hit:
  assumes "isInitialized s" "checkCache w (generateCacheKey lat lng) s = Some (cached, s')"
  shows "getLocation w s lat lng False =
     (Inr \<lparr>r_place = Known (location cached), r_source = ''cache'',
           r_cacheKey = generateCacheKey lat lng, r_hitCount = Some (hitCount cached)\<rparr>, s')"
  using assms by (simp add: getLocation_def Let_def)

lemma getLocation_not_initialized:
  "\<not> isInitialized s \<Longrightarrow>
   getLocation w s lat lng skipCache =
     (Inl (Error ''Geocoder not initialized. Call init() first.''), s)"
  by (simp add: getLocation_def)

lemma reverseGeocode_resolver_path:
  assumes "isInitialized s" "skipCache \<or> checkCache w (getCacheKey lat lng) s = None"
  shows "reverseGeocode w s lat lng skipCache =
     (case lookUp w lat lng of
        Inl err \<Rightarrow> (Inl err, s\<lparr>lookUpCalls := lookUpCalls s @ [(lat, lng)]\<rparr>)
      | Inr result \<Rightarrow>
          (Inr \<lparr>r_place = formatLocation_util result, r_source = ''local'',
                r_cacheKey = getCacheKey lat lng, r_hitCount = None\<rparr>,
           case formatLocation_util result of
             Known l \<Rightarrow>
               if name l \<noteq> ''Unknown''
               then saveToCache w (getCacheKey lat lng) lat lng l ()
                      (s\<lparr>lookUpCalls := lookUpCalls s @ [(lat, lng)]\<rparr>)
               else s\<lparr>lookUpCalls := lookUpCalls s @ [(lat, lng)]\<rparr>
           | Unknown \<Rightarrow> s\<lparr>lookUpCalls := lookUpCalls s @ [(lat, lng)]\<rparr>))"
  using assms
  by (auto simp: reverseGeocode_def Let_def lookupLocal_def split: sum.splits option.splits)

lemma reverseGeocode_hit:
  assumes "isInitialized s" "checkCache w (getCacheKey lat lng) s = Some (cached, s')"
  shows "reverseGeocode w s lat lng False =
     (Inr \<lparr>r_place = Known (location cached), r_source = ''cache'',
           r_cacheKey = getCacheKey lat lng, r_hitCount = None\<rparr>, s')"
  using assms by (simp add: reverseGeocode_def Let_def)

lemma saveToCache_fields [simp]:
  "isInitialized (saveToCache w key lat lng loc raw s) = isInitialized s"
  "lookUpCalls (saveToCache w key lat lng loc raw s) = lookUpCalls s"
  by (simp_all add: saveToCache_def split: option.splits)

lemma saveToCache_fault:
  "writeFault w = Some m \<Longrightarrow> saveToCache w key lat lng loc raw s = s"
  by (simp add: saveToCache_def)

lemma formatLocation_util_Unknown:
  "formatLocation_util raw = Unknown \<longleftrightarrow> formatLocation raw = None"
  by (induction raw rule: formatLocation.induct) simp_all

lemma gorakhpur_formatted: "formatLocation (Some [[gorakhpur]]) = Some gorakhpur_location"
  by (simp add: gorakhpur_def gorakhpur_location_def getCountryName_def countries_def
      buildDisplayName_def)

lemma gorakhpur_formatted_util: "formatLocation_util (Some [[gorakhpur]]) = Known gorakhpur_place"
  by (simp add: gorakhpur_def gorakhpur_place_def COUNTRY_NAMES_def buildDisplayName_def)


section \<open>Batches, entry by entry\<close>



lemma getLocations_Cons:
  "getLocations ws s (c # cs) =
     ((case fst (getLocation (ws 0) s (coord_lat c) (coord_lng c) False) of
         Inr result \<Rightarrow>
           \<lparr>coord_lat = coord_lat c, coord_lng = coord_lng c,
            entry_location = Some result, entry_error = None\<rparr>
       | Inl err \<Rightarrow>
           \<lparr>coord_lat = coord_lat c, coord_lng = coord_lng c,
            entry_location = None, entry_error = Some (message err)\<rparr>)
      # fst (getLocations (\<lambda>i. ws (Suc i))
             (snd (getLocation (ws 0) s (coord_lat c) (coord_lng c) False)) cs),
      snd (getLocations (\<lambda>i. ws (Suc i))
             (snd (getLocation (ws 0) s (coord_lat c) (coord_lng c) False)) cs))"
  by (simp split: prod.splits sum.splits)

lemma reverseGeocodeBatch_Cons:
  "reverseGeocodeBatch ws s (c # cs) =
     ((case fst (reverseGeocode (ws 0) s (coord_lat c) (coord_lng c) False) of
         Inr result \<Rightarrow>
           \<lparr>coord_lat = coord_lat c, coord_lng = coord_lng c,
            entry_location = Some result, entry_error = None, success = True\<rparr>
       | Inl err \<Rightarrow>
           \<lparr>coord_lat = coord_lat c, coord_lng = coord_lng c,
            entry_location = None, entry_error = Some (message err), success = False\<rparr>)
      # fst (reverseGeocodeBatch (\<lambda>i. ws (Suc i))
             (snd (reverseGeocode (ws 0) s (coord_lat c) (coord_lng c) False)) cs),
      snd (reverseGeocodeBatch (\<lambda>i. ws (Suc i))
             (snd (reverseGeocode (ws 0) s (coord_lat c) (coord_lng c) False)) cs))"
  by (simp split: prod.splits sum.splits)

lemmas batch_Cons = getLocations_Cons reverseGeocodeBatch_Cons

lemma getLocations_length: "length (fst (getLocations ws s cs)) = length cs"
  by (induction cs arbitrary: ws s)
    (simp_all add: batch_Cons del: getLocations.simps(2))

lemma reverseGeocodeBatch_length: "length (fst (reverseGeocodeBatch ws s cs)) = length cs"
  by (induction cs arbitrary: ws s)
    (simp_all add: batch_Cons del: reverseGeocodeBatch.simps(2))

lemma getLocations_coords:
  "map (\<lambda>e. (coord_lat e, coord_lng e)) (fst (getLocations ws s cs)) =
   map (\<lambda>c. (coord_lat c, coord_lng c)) cs"
  by (induction cs arbitrary: ws s)
    (simp_all add: batch_Cons del: getLocations.simps(2) split: sum.splits)

lemma reverseGeocodeBatch_coords:
  "map (\<lambda>e. (coord_lat e, coord_lng e)) (fst (reverseGeocodeBatch ws s cs)) =
   map (\<lambda>c. (coord_lat c, coord_lng c)) cs"
  by (induction cs arbitrary: ws s)
    (simp_all add: batch_Cons del: reverseGeocodeBatch.simps(2) split: sum.splits)



text \<open>
  The \<open>i\<close>-th entry is built from one call with \<open>skipCache = false\<close>, made in the state
  that the first \<open>i\<close> entries leave behind, and that call's state is handed on.
\<close>

lemma getLocations_step:
  assumes "i < length cs"
  shows "(\<forall>result. fst (getLocation (ws i) (snd (getLocations ws s (take i cs)))
                 (coord_lat (cs ! i)) (coord_lng (cs ! i)) False) = Inr result \<longrightarrow>
              fst (getLocations ws s cs) ! i =
                \<lparr>coord_lat = coord_lat (cs ! i), coord_lng = coord_lng (cs ! i),
                 entry_location = Some result, entry_error = None\<rparr>)
       \<and> (\<forall>err. fst (getLocation (ws i) (snd (getLocations ws s (take i cs)))
                 (coord_lat (cs ! i)) (coord_lng (cs ! i)) False) = Inl err \<longrightarrow>
              fst (getLocations ws s cs) ! i =
                \<lparr>coord_lat = coord_lat (cs ! i), coord_lng = coord_lng (cs ! i),
                 entry_location = None, entry_error = Some (message err)\<rparr>)
       \<and> snd (getLocations ws s (take (Suc i) cs)) =
           snd (getLocation (ws i) (snd (getLocations ws s (take i cs)))
                  (coord_lat (cs ! i)) (coord_lng (cs ! i)) False)"
  using assms
proof (induction cs arbitrary: ws s i)
  case Nil
  then show ?case by simp
next
  case (Cons c cs)
  show ?case
  proof (cases i)
    case 0
    then show ?thesis
      by (simp add: batch_Cons del: getLocations.simps(2))
  next
    case (Suc j)
    with Cons.prems have "j < length cs" by simp
    from Cons.IH [OF this, of "\<lambda>i. ws (Suc i)"
        "snd (getLocation (ws 0) s (coord_lat c) (coord_lng c) False)"]
    show ?thesis
      using Suc by (simp add: batch_Cons del: getLocations.simps(2))
  qed
qed

lemma reverseGeocodeBatch_step:
  assumes "i < length cs"
  shows "(\<forall>result. fst (reverseGeocode (ws i) (snd (reverseGeocodeBatch ws s (take i cs)))
                 (coord_lat (cs ! i)) (coord_lng (cs ! i)) False) = Inr result \<longrightarrow>
              fst (reverseGeocodeBatch ws s cs) ! i =
                \<lparr>coord_lat = coord_lat (cs ! i), coord_lng = coord_lng (cs ! i),
                 entry_location = Some result, entry_error = None, success = True\<rparr>)
       \<and> (\<forall>err. fst (reverseGeocode (ws i) (snd (reverseGeocodeBatch ws s (take i cs)))
                 (coord_lat (cs ! i)) (coord_lng (cs ! i)) False) = Inl err \<longrightarrow>
              fst (reverseGeocodeBatch ws s cs) ! i =
                \<lparr>coord_lat = coord_lat (cs ! i), coord_lng = coord_lng (cs ! i),
                 entry_location = None, entry_error = Some (message err), success = False\<rparr>)
       \<and> snd (reverseGeocodeBatch ws s (take (Suc i) cs)) =
           snd (reverseGeocode (ws i) (snd (reverseGeocodeBatch ws s (take i cs)))
                  (coord_lat (cs ! i)) (coord_lng (cs ! i)) False)"
  using assms
proof (induction cs arbitrary: ws s i)
  case Nil
  then show ?case by simp
next
  case (Cons c cs)
  show ?case
  proof (cases i)
    case 0
    then show ?thesis
      by (simp add: batch_Cons del: reverseGeocodeBatch.simps(2))
  next
    case (Suc j)
    with Cons.prems have "j < length cs" by simp
    from Cons.IH [OF this, of "\<lambda>i. ws (Suc i)"
        "snd (reverseGeocode (ws 0) s (coord_lat c) (coord_lng c) False)"]
    show ?thesis
      using Suc by (simp add: batch_Cons del: reverseGeocodeBatch.simps(2))
  qed
qed


section \<open>Reads and writes of the collection\<close>

lemma find_update_first:
  "find p ds = Some d \<Longrightarrow> p (f d) \<Longrightarrow> find p (update_first p f ds) = Some (f d)"
  by (induction ds) (auto split: if_splits)


lemma length_update_first [simp]: "length (update_first p f ds) = length ds"
  by (induction ds) auto

lemma nth_update_first:
  "i < length ds \<Longrightarrow> update_first p f ds ! i = ds ! i \<or> update_first p f ds ! i = f (ds ! i)"
proof (induction ds arbitrary: i)
  case Nil
  then show ?case by simp
next
  case (Cons d ds)
  then show ?case by (cases i) auto
qed

lemma saveToCache_insert:
  "writeFault w = None \<Longrightarrow> find (\<lambda>d. cacheKey d = key) (geoCache s) = None \<Longrightarrow>
   geoCache (saveToCache w key lat lng loc raw s) =
     geoCache s @ [fresh key lat lng loc raw (writeClock w)]"
  by (simp add: saveToCache_def findOneAndUpdate_def)

lemma saveToCache_overwrite:
  "writeFault w = None \<Longrightarrow> find (\<lambda>d. cacheKey d = key) (geoCache s) = Some d \<Longrightarrow>
   geoCache (saveToCache w key lat lng loc raw s) =
     update_first (\<lambda>d. cacheKey d = key) (overwrite key lat lng loc raw (writeClock w))
       (geoCache s)"
  by (simp add: saveToCache_def findOneAndUpdate_def)

lemma cacheKey_fresh [simp]: "cacheKey (fresh key lat lng loc raw now) = key"
  by (simp add: fresh_def)

lemma cacheKey_overwrite [simp]: "cacheKey (overwrite key lat lng loc raw now d) = key"
  by (simp add: overwrite_def)

lemma cacheKey_touch [simp]: "cacheKey (touch now d) = cacheKey d"
  by (simp add: touch_def)

lemma find_key: "find (\<lambda>d. cacheKey d = key) ds = Some d \<Longrightarrow> cacheKey d = key"
  by (induction ds) (auto split: if_splits)


section \<open>How a lookup changes the counters\<close>

lemma set_update_first: "set (update_first p f ds) \<subseteq> set ds \<union> f ` set ds"
  by (induction ds) auto

lemma cache_step_length: "cache_step forced ds ds' \<Longrightarrow> length ds \<le> length ds'"
  by (auto simp: cache_step_def)

lemma cache_step_positive:
  assumes "cache_step forced ds ds'" and "\<forall>d \<in> set ds. 1 \<le> hitCount d"
  shows "\<forall>d \<in> set ds'. 1 \<le> hitCount d"
proof
  fix d
  assume d: "d \<in> set ds'"
  from assms(1) consider "ds' = ds"
    | p now where "ds' = update_first p (touch now) ds"
    | e where "hitCount e = 1" "ds' = ds @ [e]"
    | p f where "\<forall>d. hitCount (f d) = 1" "ds' = update_first p f ds"
    by (auto simp: cache_step_def)
  then show "1 \<le> hitCount d"
  proof cases
    case 1
    with d assms(2) show ?thesis by simp
  next
    case 2
    with d set_update_first [of p "touch now" ds]
    have "d \<in> set ds \<or> (\<exists>e \<in> set ds. d = touch now e)" by auto
    with assms(2) show ?thesis by (auto simp: touch_def)
  next
    case 3
    with d assms(2) show ?thesis by auto
  next
    case 4
    with d set_update_first [of p f ds]
    have "d \<in> set ds \<or> (\<exists>e \<in> set ds. d = f e)" by auto
    with assms(2) 4(1) show ?thesis by auto
  qed
qed

lemma cache_step_monotone:
  assumes "cache_step False ds ds'" and "i < length ds"
  shows "hitCount (ds ! i) \<le> hitCount (ds' ! i)"
proof -
  from assms(1) consider "ds' = ds"
    | p now where "ds' = update_first p (touch now) ds"
    | e where "ds' = ds @ [e]"
    by (auto simp: cache_step_def)
  then show ?thesis
  proof cases
    case 1
    then show ?thesis by simp
  next
    case 2
    with nth_update_first [OF assms(2), of p "touch now"] show ?thesis
      by (auto simp: touch_def)
  next
    case 3
    with assms(2) show ?thesis by (simp add: nth_append)
  qed
qed

lemma cache_step_created:
  assumes "cache_step forced ds ds'" and "length ds \<le> i" and "i < length ds'"
  shows "hitCount (ds' ! i) = 1"
proof -
  from assms(1) consider "length ds' = length ds"
    | e where "hitCount e = 1" "ds' = ds @ [e]"
    by (auto simp: cache_step_def)
  then show ?thesis
  proof cases
    case 1
    with assms(2,3) show ?thesis by simp
  next
    case 2
    with assms(2,3) have "i = length ds" by simp
    with 2 show ?thesis by simp
  qed
qed

lemma hitCount_fresh [simp]: "hitCount (fresh key lat lng loc raw now) = 1"
  by (simp add: fresh_def)

lemma hitCount_overwrite [simp]: "hitCount (overwrite key lat lng loc raw now d) = 1"
  by (simp add: overwrite_def)

lemma saveToCache_step:
  "cache_step True (geoCache s) (geoCache (saveToCache w key lat lng loc raw s))"
proof (cases "writeFault w")
  case (Some m)
  then show ?thesis by (simp add: saveToCache_fault cache_step_def)
next
  case None
  show ?thesis
  proof (cases "find (\<lambda>d. cacheKey d = key) (geoCache s)")
    case None
    have "hitCount (fresh key lat lng loc raw (writeClock w)) = 1" by simp
    then show ?thesis
      unfolding cache_step_def saveToCache_insert [OF \<open>writeFault w = None\<close> None] by blast
  next
    case (Some d)
    have "\<forall>d. hitCount (overwrite key lat lng loc raw (writeClock w) d) = 1" by simp
    then show ?thesis
      unfolding cache_step_def saveToCache_overwrite [OF \<open>writeFault w = None\<close> Some] by blast
  qed
qed

lemma saveToCache_step_new:
  assumes "find (\<lambda>d. cacheKey d = key) (geoCache s) = None"
  shows "cache_step forced (geoCache s) (geoCache (saveToCache w key lat lng loc raw s))"
proof (cases "writeFault w")
  case (Some m)
  then show ?thesis by (simp add: saveToCache_fault cache_step_def)
next
  case None
  have "hitCount (fresh key lat lng loc raw (writeClock w)) = 1" by simp
  then show ?thesis
    unfolding cache_step_def saveToCache_insert [OF None assms] by blast
qed

lemma checkCache_cases:
  "checkCache w key s = None \<and>
     (readFault w \<noteq> None \<or> find (\<lambda>d. cacheKey d = key) (geoCache s) = None)
   \<or> (\<exists>d. readFault w = None \<and> find (\<lambda>d. cacheKey d = key) (geoCache s) = Some d
        \<and> checkCache w key s =
            Some (touch (readClock w) d,
                  s\<lparr>geoCache :=
                      update_first (\<lambda>d. cacheKey d = key) (touch (readClock w)) (geoCache s)\<rparr>))"
  by (cases "readFault w"; cases "find (\<lambda>d. cacheKey d = key) (geoCache s)")
    (simp_all add: checkCache_fault checkCache_miss checkCache_hit)

lemma getLocation_step:
  "cache_step (skipCache \<or> readFault w \<noteq> None) (geoCache s)
     (geoCache (snd (getLocation w s lat lng skipCache)))"
proof (cases "isInitialized s")
  case False
  then show ?thesis by (simp add: getLocation_not_initialized cache_step_def)
next
  case init: True
  let ?key = "generateCacheKey lat lng"
  let ?s1 = "s\<lparr>lookUpCalls := lookUpCalls s @ [(lat, lng)]\<rparr>"
  show ?thesis
  proof (cases "skipCache \<or> checkCache w ?key s = None")
    case False
    then obtain d where "\<not> skipCache"
      "checkCache w ?key s =
         Some (touch (readClock w) d,
               s\<lparr>geoCache :=
                   update_first (\<lambda>d. cacheKey d = ?key) (touch (readClock w)) (geoCache s)\<rparr>)"
      using checkCache_cases [of w ?key s] by auto
    then show ?thesis
      using getLocation_hit [OF init, of w lat lng] by (auto simp: cache_step_def)
  next
    case True
    note path = getLocation_resolver_path [OF init True]
    show ?thesis
    proof (cases "skipCache \<or> readFault w \<noteq> None")
      case forced: True
      have "cache_step True (geoCache s) (geoCache (snd (getLocation w s lat lng skipCache)))"
        using saveToCache_step [of ?s1 w ?key lat lng]
        by (auto simp: path cache_step_def [of _ "geoCache s" "geoCache s"]
            split: sum.splits option.splits)
      with forced show ?thesis by simp
    next
      case False
      with True have "find (\<lambda>d. cacheKey d = ?key) (geoCache ?s1) = None"
        using checkCache_cases [of w ?key s] by auto
      from saveToCache_step_new [OF this, of False w lat lng]
      have "cache_step False (geoCache s) (geoCache (snd (getLocation w s lat lng skipCache)))"
        by (auto simp: path cache_step_def [of _ "geoCache s" "geoCache s"]
            split: sum.splits option.splits)
      with False show ?thesis by simp
    qed
  qed
qed

lemma reverseGeocode_step:
  "cache_step (skipCache \<or> readFault w \<noteq> None) (geoCache s)
     (geoCache (snd (reverseGeocode w s lat lng skipCache)))"
proof (cases "isInitialized s")
  case False
  then show ?thesis by (simp add: reverseGeocode_def cache_step_def)
next
  case init: True
  let ?key = "getCacheKey lat lng"
  let ?s1 = "s\<lparr>lookUpCalls := lookUpCalls s @ [(lat, lng)]\<rparr>"
  show ?thesis
  proof (cases "skipCache \<or> checkCache w ?key s = None")
    case False
    then obtain d where "\<not> skipCache"
      "checkCache w ?key s =
         Some (touch (readClock w) d,
               s\<lparr>geoCache :=
                   update_first (\<lambda>d. cacheKey d = ?key) (touch (readClock w)) (geoCache s)\<rparr>)"
      using checkCache_cases [of w ?key s] by auto
    then show ?thesis
      using reverseGeocode_hit [OF init, of w lat lng] by (auto simp: cache_step_def)
  next
    case True
    note path = reverseGeocode_resolver_path [OF init True]
    show ?thesis
    proof (cases "skipCache \<or> readFault w \<noteq> None")
      case forced: True
      have "cache_step True (geoCache s) (geoCache (snd (reverseGeocode w s lat lng skipCache)))"
        using saveToCache_step [of ?s1 w ?key lat lng]
        by (auto simp: path cache_step_def [of _ "geoCache s" "geoCache s"]
            split: sum.splits place.splits)
      with forced show ?thesis by simp
    next
      case False
      with True have "find (\<lambda>d. cacheKey d = ?key) (geoCache ?s1) = None"
        using checkCache_cases [of w ?key s] by auto
      from saveToCache_step_new [OF this, of False w lat lng]
      have "cache_step False (geoCache s) (geoCache (snd (reverseGeocode w s lat lng skipCache)))"
        by (auto simp: path cache_step_def [of _ "geoCache s" "geoCache s"]
            split: sum.splits place.splits)
      with False show ?thesis by simp
    qed
  qed
qed


section \<open>Evaluating numbers\<close>

lemma floor_rat_numeral: "\<lfloor>numeral a / numeral b :: rat\<rfloor> = numeral a div numeral b"
  by (metis floor_divide_of_int_eq of_int_numeral)

lemma floor_rat_neg_numeral:
  "\<lfloor>- (numeral a / numeral b) :: rat\<rfloor> = - numeral a div numeral b"
  by (metis floor_divide_of_int_eq of_int_numeral of_int_minus minus_divide_left)

lemma floor_rat_one_numeral: "\<lfloor>1 / numeral b :: rat\<rfloor> = 1 div numeral b"
  by (metis floor_divide_of_int_eq of_int_numeral of_int_1)

lemma ceiling_rat_numeral:
  "\<lceil>numeral a / numeral b :: rat\<rceil> = - (- numeral a div numeral b)"
  unfolding ceiling_def by (simp add: floor_rat_neg_numeral)

lemma ceiling_rat_one_numeral: "\<lceil>1 / numeral b :: rat\<rceil> = - (- 1 div numeral b)"
  unfolding ceiling_def
  by (metis floor_divide_of_int_eq of_int_numeral of_int_1 of_int_minus minus_divide_left)

lemmas float_eval = floor_rat_numeral floor_rat_neg_numeral floor_rat_one_numeral
  ceiling_rat_numeral ceiling_rat_one_numeral
  rnd_def pack_def round_magnitude_def ulp_exp_def ilog2_def pow2_def pow10_def
  round_half_even_def tie_break_def bit_length.simps fmul_def fdiv_def is_nan_def is_inf_def
  is_zero_def dec_exp_def declen.simps grain_def dec_below_def dec_above_def closer_def
  shortest.simps positive_to_string_def layout_def exponent_part_def
  int_to_string.simps digit_char_def rounded_def

text \<open>The rounded coordinates of the examples.\<close>

lemma rounded_26_7606: "rounded (rnd (267606 / 10000)) = Finite (7532551851753865 / 281474976710656)"
  by (simp add: float_eval)

lemma rounded_83_3732: "rounded (rnd (833732 / 10000)) = Finite (5866853308324381 / 70368744177664)"
  by (simp add: float_eval)

lemma rounded_26_76061: "rounded (rnd (2676061 / 100000)) = Finite (7532551851753865 / 281474976710656)"
  by (simp add: float_eval)

lemma rounded_26_76064: "rounded (rnd (2676064 / 100000)) = Finite (7532551851753865 / 281474976710656)"
  by (simp add: float_eval)

lemma rounded_83_37321: "rounded (rnd (8337321 / 100000)) = Finite (5866853308324381 / 70368744177664)"
  by (simp add: float_eval)

lemma rounded_83_37324: "rounded (rnd (8337324 / 100000)) = Finite (5866853308324381 / 70368744177664)"
  by (simp add: float_eval)

lemma rounded_26_7601: "rounded (rnd (267601 / 10000)) = Finite (7532270376777155 / 281474976710656)"
  by (simp add: float_eval)

lemma rounded_26_7611: "rounded (rnd (267611 / 10000)) = Finite (7532551851753865 / 281474976710656)"
  by (simp add: float_eval)

text \<open>Their strings.\<close>

lemma string_26_761: "number_to_string (Finite (7532551851753865 / 281474976710656)) = ''26.761''"
  by (simp add: float_eval)

lemma string_83_373: "number_to_string (Finite (5866853308324381 / 70368744177664)) = ''83.373''"
  by (simp add: float_eval)

lemma string_26_76: "number_to_string (Finite (7532270376777155 / 281474976710656)) = ''26.76''"
  by (simp add: float_eval)

lemma gorakhpur_key: "generateCacheKey gorakhpur_lat gorakhpur_lng = ''26.761,83.373''"
  by (simp only: generateCacheKey_def Let_def gorakhpur_lat_def gorakhpur_lng_def
      rounded_26_7606 rounded_83_3732 string_26_761 string_83_373) simp

lemma getCacheKey_eq: "getCacheKey lat lng = generateCacheKey lat lng"
  by (simp add: getCacheKey_def generateCacheKey_def)


section \<open>Rounding to binary64, in general\<close>

lemma pow2_powi: "pow2 e = 2 powi e"
  by (simp add: pow2_def power_int_def power_one_over)

lemma pow10_powi: "pow10 e = 10 powi e"
  by (simp add: pow10_def power_int_def power_one_over)

lemma pow2_pos [simp]: "0 < pow2 e"
  by (simp add: pow2_powi)

lemma pow10_pos [simp]: "0 < pow10 e"
  by (simp add: pow10_powi)

lemma pow2_nonneg [simp]: "0 \<le> pow2 e"
  by (rule less_imp_le [OF pow2_pos])

lemma pow10_nonneg [simp]: "0 \<le> pow10 e"
  by (rule less_imp_le [OF pow10_pos])

lemma pow10_nonzero [simp]: "pow10 e \<noteq> 0"
  using pow10_pos [of e] by linarith

lemma pow2_mono: "p \<le> q \<Longrightarrow> pow2 p \<le> pow2 q"
  by (simp add: pow2_powi power_int_increasing)

lemma pow10_mono: "p \<le> q \<Longrightarrow> pow10 p \<le> pow10 q"
  by (simp add: pow10_powi power_int_increasing)

lemma pow10_strict_mono: "p < q \<Longrightarrow> pow10 p < pow10 q"
  by (simp add: pow10_powi power_int_strict_increasing)

lemma pow10_add: "pow10 (p + q) = pow10 p * pow10 q"
  by (simp add: pow10_powi power_int_add)

lemma pow10_nat: "pow10 (int j) = 10 ^ j"
  by (simp add: pow10_def)

lemma pow10_neg_nat: "pow10 (- int j) = 1 / 10 ^ j"
  by (auto simp: pow10_def)

lemma bit_length_nonneg: "0 \<le> bit_length n"
  by (induction n rule: bit_length.induct) (subst bit_length.simps, simp)

lemma bit_length_le: "0 \<le> n \<Longrightarrow> n < 2 ^ j \<Longrightarrow> bit_length n \<le> int j"
proof (induction j arbitrary: n)
  case 0
  then show ?case by (subst bit_length.simps) simp
next
  case (Suc j)
  show ?case
  proof (cases "0 < n")
    case True
    with Suc.prems have "0 \<le> n div 2" "n div 2 < 2 ^ j" by auto
    from Suc.IH [OF this] True show ?thesis
      by (subst bit_length.simps) simp
  next
    case False
    then show ?thesis by (subst bit_length.simps) simp
  qed
qed

lemma ilog2_less: "0 < a \<Longrightarrow> a < 2 ^ Suc j \<Longrightarrow> ilog2 a \<le> int j"
proof -
  assume a: "0 < a" "a < 2 ^ Suc j"
  show ?thesis
  proof (cases "1 \<le> a")
    case True
    have "\<lfloor>a\<rfloor> < 2 ^ Suc j"
      using a(2) by (simp add: floor_less_iff)
    moreover from True have "0 \<le> \<lfloor>a\<rfloor>" by simp
    ultimately have "bit_length \<lfloor>a\<rfloor> \<le> int (Suc j)" by (rule bit_length_le [rotated])
    with True show ?thesis by (simp add: ilog2_def)
  next
    case False
    with bit_length_nonneg [of "\<lceil>1 / a\<rceil> - 1"] show ?thesis
      by (simp add: ilog2_def)
  qed
qed

lemma round_half_even_error: "\<bar>of_int (round_half_even y) - y\<bar> \<le> 1 / 2"
proof -
  have "of_int \<lfloor>y\<rfloor> \<le> y" "y < of_int \<lfloor>y\<rfloor> + 1" by linarith+
  then show ?thesis
    unfolding round_half_even_def tie_break_def
    by (simp only: of_int_add of_int_1 split: if_split) linarith
qed

lemma round_magnitude_error:
  assumes "0 < a" and "a < 2 ^ Suc j"
  shows "\<bar>round_magnitude a - a\<bar> \<le> pow2 (max (int j - 52) (- 1074)) / 2"
proof -
  let ?p = "ulp_exp a"
  have p: "?p \<le> max (int j - 52) (- 1074)"
    using ilog2_less [OF assms] by (simp add: ulp_exp_def)
  have nz: "pow2 ?p \<noteq> 0"
    using pow2_pos [of ?p] by linarith
  have "round_magnitude a - a = (of_int (round_half_even (a / pow2 ?p)) - a / pow2 ?p) * pow2 ?p"
    by (simp add: round_magnitude_def algebra_simps nz)
  then have "\<bar>round_magnitude a - a\<bar> =
      \<bar>of_int (round_half_even (a / pow2 ?p)) - a / pow2 ?p\<bar> * pow2 ?p"
    by (simp add: abs_mult abs_of_pos [OF pow2_pos])
  also have "\<dots> \<le> 1 / 2 * pow2 ?p"
    by (rule mult_right_mono [OF round_half_even_error]) simp
  also have "\<dots> \<le> 1 / 2 * pow2 (max (int j - 52) (- 1074))"
    using pow2_mono [OF p] by simp
  finally show ?thesis by simp
qed

lemma round_magnitude_near:
  assumes "0 < a" and "a < 512"
  shows "\<bar>round_magnitude a - a\<bar> \<le> 1 / 2 ^ 45"
proof -
  have "a < 2 ^ Suc 8" using assms(2) by simp
  from round_magnitude_error [OF assms(1) this]
  show ?thesis by (simp add: pow2_def)
qed

lemma rnd_positive:
  assumes "0 < c" and "0 < v" and "rnd c = Finite v"
  shows "round_magnitude c = v"
  using assms by (auto simp: rnd_def pack_def split: if_splits)

lemma rnd_small:
  assumes "1 / 1000 \<le> a" and "a < 512"
  shows "rnd a = Finite (round_magnitude a)" and "rnd (- a) = Finite (- round_magnitude a)"
    and "0 < round_magnitude a"
proof -
  from assms have pos: "0 < a" by simp
  from round_magnitude_near [OF pos assms(2)]
  have near: "\<bar>round_magnitude a - a\<bar> \<le> 1 / 2 ^ 45" .
  have small: "(1 :: rat) / 2 ^ 45 < 1 / 1000" by simp
  from near small assms show v: "0 < round_magnitude a" by linarith
  have "(512 :: rat) + 1 / 2 ^ 45 < 2 ^ 1024" by simp
  with near assms have "round_magnitude a < 2 ^ 1024" by linarith
  with v pos show "rnd a = Finite (round_magnitude a)" "rnd (- a) = Finite (- round_magnitude a)"
    by (simp_all add: rnd_def pack_def)
qed


section \<open>Decimal exponents\<close>

lemma div_10_bounds:
  fixes n :: int
  shows "10 * (n div 10) \<le> n" and "n < 10 * (n div 10) + 10"
  using div_mult_mod_eq [of n 10] pos_mod_bound [of 10 n] pos_mod_sign [of 10 n]
  by linarith+

lemma declen_nonpos: "n \<le> 0 \<Longrightarrow> declen n = 0"
  by (subst declen.simps) simp

lemma declen_pos: "0 < n \<Longrightarrow> declen n = declen (n div 10) + 1"
  by (subst declen.simps) simp

lemma declen_eq: "10 ^ j \<le> n \<Longrightarrow> n < 10 ^ Suc j \<Longrightarrow> declen n = int (Suc j)"
proof (induction j arbitrary: n)
  case 0
  then have "0 < n" "n div 10 = 0" by simp_all
  then show ?case by (simp add: declen_pos declen_nonpos)
next
  case (Suc j)
  define X :: int where "X = 10 ^ j"
  from Suc.prems have "10 * X \<le> n" "n < 100 * X" by (simp_all add: X_def)
  with div_10_bounds [of n] have "X \<le> n div 10" "n div 10 < 10 * X" by linarith+
  then have "declen (n div 10) = int (Suc j)"
    by (intro Suc.IH) (simp_all add: X_def)
  moreover have "0 < X" by (simp add: X_def)
  with \<open>10 * X \<le> n\<close> have "0 < n" by linarith
  ultimately show ?case by (simp add: declen_pos)
qed

lemma declen_bounds: "0 < n \<Longrightarrow> \<exists>j. 10 ^ j \<le> n \<and> n < 10 ^ Suc j \<and> declen n = int (Suc j)"
proof (induction n rule: declen.induct)
  case (1 n)
  show ?case
  proof (cases "n < 10")
    case True
    with 1(2) have b: "10 ^ 0 \<le> n" "n < 10 ^ Suc 0" by simp_all
    from b declen_eq [OF b] show ?thesis by (intro exI [of _ 0] conjI)
  next
    case False
    with div_10_bounds [of n] have "0 < n div 10" by linarith
    from 1(1) [OF 1(2) this] obtain j where j: "10 ^ j \<le> n div 10" "n div 10 < 10 ^ Suc j"
      by (elim exE conjE)
    define X :: int where "X = 10 ^ j"
    from j have "X \<le> n div 10" "n div 10 < 10 * X" by (simp_all add: X_def)
    with div_10_bounds [of n] have "10 * X \<le> n" "n < 100 * X" by linarith+
    then have b: "10 ^ Suc j \<le> n" "n < 10 ^ Suc (Suc j)" by (simp_all add: X_def)
    from b declen_eq [OF b] show ?thesis by (intro exI [of _ "Suc j"] conjI)
  qed
qed
lemma dec_exp_eq:
  assumes "0 < a" and "pow10 (e - 1) \<le> a" and "a < pow10 e"
  shows "dec_exp a = e"
proof (cases "1 \<le> a")
  case True
  have "0 < e"
  proof (rule ccontr)
    assume "\<not> 0 < e"
    then have "pow10 e \<le> pow10 0" by (intro pow10_mono) simp
    with assms(3) True show False by (simp add: pow10_def)
  qed
  define j where "j = nat (e - 1)"
  from \<open>0 < e\<close> have e: "e = int (Suc j)" and e1: "e - 1 = int j" by (simp_all add: j_def)
  from assms(2) have "10 ^ j \<le> a" by (simp only: e1 pow10_nat)
  from assms(3) have "a < 10 ^ Suc j" by (simp only: e pow10_nat)
  note this = \<open>10 ^ j \<le> a\<close> this
  then have "10 ^ j \<le> \<lfloor>a\<rfloor>" "\<lfloor>a\<rfloor> < 10 ^ Suc j"
    by (simp_all add: le_floor_iff floor_less_iff)
  from declen_eq [OF this] True show ?thesis by (simp add: dec_exp_def e)
next
  case False
  have "e \<le> 0"
  proof (rule ccontr)
    assume "\<not> e \<le> 0"
    then have "pow10 0 \<le> pow10 (e - 1)" by (intro pow10_mono) simp
    with assms(2) False show False by (simp add: pow10_def)
  qed
  define j where "j = nat (- e)"
  from \<open>e \<le> 0\<close> have e: "e = - int j" by (simp add: j_def)
  have e1: "e - 1 = - int (Suc j)" by (simp add: e)
  from assms(2) have "pow10 (- int (Suc j)) \<le> a" by (simp only: e1)
  then have a1: "1 / 10 ^ Suc j \<le> a" by (simp only: pow10_neg_nat)
  from assms(3) have "a < pow10 (- int j)" by (simp only: e)
  then have a2: "a < 1 / 10 ^ j" by (simp only: pow10_neg_nat)
  note a = a1 a2
  from a(2) assms(1) have "10 ^ j < 1 / a"
    by (simp add: field_simps)
  then have lo: "10 ^ j \<le> \<lceil>1 / a\<rceil> - 1"
    by (simp add: less_ceiling_iff)
  from a(1) assms(1) have "1 / a \<le> 10 ^ Suc j"
    by (simp add: field_simps)
  then have "\<lceil>1 / a\<rceil> \<le> 10 ^ Suc j"
    by (simp add: ceiling_le_iff)
  then have hi: "\<lceil>1 / a\<rceil> - 1 < 10 ^ Suc j"
    by linarith
  from declen_eq [OF lo hi] False show ?thesis by (simp add: dec_exp_def e)
qed


section \<open>The shortest digits of a rounded decimal\<close>

lemma round_magnitude_pow10:
  assumes "- 3 \<le> p" and "p \<le> 2"
  shows "pow10 p \<le> round_magnitude (pow10 p)"
proof -
  from assms have "p = - 3 \<or> p = - 2 \<or> p = - 1 \<or> p = 0 \<or> p = 1 \<or> p = 2"
    by linarith
  then show ?thesis
    by (elim disjE) (simp_all add: float_eval)
qed

lemma rnd_far:
  assumes "1 / 1000 \<le> a" and "a < 512" and "0 \<le> c" and "c < 512"
    and "1 / 1000 \<le> \<bar>c - a\<bar>"
  shows "rnd c \<noteq> Finite (round_magnitude a)"
proof (cases "c = 0")
  case True
  with rnd_small(3) [OF assms(1,2)] show ?thesis
    by (simp add: rnd_def)
next
  case False
  with assms(3) have c: "0 < c" by simp
  from assms(1) have a: "0 < a" by simp
  show ?thesis
  proof
    assume "rnd c = Finite (round_magnitude a)"
    from rnd_positive [OF c rnd_small(3) [OF assms(1,2)] this]
    have same: "round_magnitude c = round_magnitude a" .
    from round_magnitude_near [OF c assms(4)] round_magnitude_near [OF a assms(2)] same
    have "\<bar>c - a\<bar> \<le> 2 / 2 ^ 45" by linarith
    moreover have "(2 :: rat) / 2 ^ 45 < 1 / 1000" by simp
    ultimately show False using assms(5) by linarith
  qed
qed

lemma grid_distance:
  assumes "z \<noteq> s"
  shows "pow10 p \<le> \<bar>of_int z * pow10 p - of_int s * pow10 p\<bar>"
proof -
  from assms have "1 \<le> \<bar>z - s\<bar>" by linarith
  then have "(1 :: rat) \<le> \<bar>of_int (z - s)\<bar>"
    by (metis of_int_1 of_int_abs of_int_le_iff)
  then have "1 * pow10 p \<le> \<bar>of_int (z - s)\<bar> * pow10 p"
    by (intro mult_right_mono) simp_all
  moreover have "of_int z * pow10 p - of_int s * pow10 p = of_int (z - s) * pow10 p"
    by (simp add: algebra_simps)
  then have "\<bar>of_int z * pow10 p - of_int s * pow10 p\<bar> = \<bar>of_int (z - s)\<bar> * pow10 p"
    by (simp only: abs_mult abs_of_pos [OF pow10_pos])
  ultimately show ?thesis by (simp only: mult_1)
qed

lemma scale_mono: "x \<le> y \<Longrightarrow> x * pow10 p \<le> y * pow10 p"
  by (rule mult_right_mono) simp_all

lemma pow10_ge_thousandth: "- 3 \<le> p \<Longrightarrow> 1 / 1000 \<le> pow10 p"
  using pow10_mono [of "- 3" p] by (simp add: pow10_def)

lemma decimal_facts:
  fixes s p :: int
  assumes "0 < s" and "\<not> 10 dvd s" and "- 3 \<le> p" and "p \<le> 2"
    and "of_int s * pow10 p \<le> 180"
  shows "1 / 1000 \<le> of_int s * pow10 p"
    and "\<bar>round_magnitude (of_int s * pow10 p) - of_int s * pow10 p\<bar> \<le> 1 / 2 ^ 45"
    and "0 < round_magnitude (of_int s * pow10 p)"
    and "rnd (of_int s * pow10 p) = Finite (round_magnitude (of_int s * pow10 p))"
    and "dec_exp (of_int s * pow10 p) = declen s + p"
    and "dec_exp (round_magnitude (of_int s * pow10 p)) = declen s + p"
    and "pow10 (declen s + p - 1) \<le> round_magnitude (of_int s * pow10 p)"
    and "round_magnitude (of_int s * pow10 p) < 256"
    and "1 \<le> declen s" and "declen s \<le> 6"
proof -
  define a where "a = of_int s * pow10 p"
  define w where "w = round_magnitude a"
  from declen_bounds [OF assms(1)] obtain j where
    j: "10 ^ j \<le> s" "s < 10 ^ Suc j" "declen s = int (Suc j)"
    by (elim exE conjE)
  have g: "1 / 1000 \<le> pow10 p"
    by (rule pow10_ge_thousandth [OF assms(3)])
  from assms(1) have "1 \<le> (of_int s :: rat)" by simp
  from scale_mono [OF this] have "pow10 p \<le> of_int s * pow10 p"
    by (simp only: mult_1)
  with g show lo: "1 / 1000 \<le> of_int s * pow10 p" by linarith
  from assms(5) have hi: "of_int s * pow10 p < 512" by simp
  from lo have pos: "0 < of_int s * pow10 p" by simp
  show near: "\<bar>round_magnitude (of_int s * pow10 p) - of_int s * pow10 p\<bar> \<le> 1 / 2 ^ 45"
    by (rule round_magnitude_near [OF pos hi])
  show wpos: "0 < round_magnitude (of_int s * pow10 p)"
    by (rule rnd_small(3) [OF lo hi])
  show "rnd (of_int s * pow10 p) = Finite (round_magnitude (of_int s * pow10 p))"
    by (rule rnd_small(1) [OF lo hi])
  have tiny: "(1 :: rat) / 2 ^ 45 < 1 / 1000" by simp
  from near assms(5) tiny show "round_magnitude (of_int s * pow10 p) < 256"
    by linarith
  from j(3) show "1 \<le> declen s" by simp
  have e: "pow10 (declen s + p - 1) = 10 ^ j * pow10 p"
    and e': "pow10 (declen s + p) = 10 ^ Suc j * pow10 p"
    using pow10_add [of "int j" p] pow10_add [of "int (Suc j)" p]
    by (simp_all only: j(3) pow10_nat) (simp_all add: algebra_simps)
  from j(1) have "(10 :: rat) ^ j \<le> of_int s"
    by (metis of_int_le_iff of_int_numeral of_int_power)
  then have "10 ^ j * pow10 p \<le> of_int s * pow10 p"
    by (intro mult_right_mono) simp_all
  then have below: "pow10 (declen s + p - 1) \<le> of_int s * pow10 p"
    by (simp only: e)
  from j(2) have "s + 1 \<le> 10 ^ Suc j" by simp
  then have "(of_int (s + 1) :: rat) \<le> 10 ^ Suc j"
    by (metis of_int_le_iff of_int_numeral of_int_power)
  then have "of_int (s + 1) * pow10 p \<le> 10 ^ Suc j * pow10 p"
    by (intro mult_right_mono) simp_all
  then have above: "of_int s * pow10 p + pow10 p \<le> pow10 (declen s + p)"
    by (simp only: e') (simp add: algebra_simps)
  from above g have "of_int s * pow10 p < pow10 (declen s + p)" by linarith
  from dec_exp_eq [OF pos below this]
  show "dec_exp (of_int s * pow10 p) = declen s + p" .
  have wlo: "pow10 (declen s + p - 1) \<le> round_magnitude (of_int s * pow10 p)"
  proof (cases "s = 10 ^ j")
    case True
    have "j = 0"
    proof (rule ccontr)
      assume "j \<noteq> 0"
      then obtain i where "j = Suc i" by (cases j) auto
      with True have "10 dvd s" by simp
      with assms(2) show False by simp
    qed
    with True j(3) have "s = 1" "declen s + p - 1 = p" by simp_all
    with round_magnitude_pow10 [OF assms(3,4)] show ?thesis by simp
  next
    case False
    with j(1) have "10 ^ j + 1 \<le> s" by simp
    then have "(of_int (10 ^ j + 1) :: rat) \<le> of_int s"
      by (simp only: of_int_le_iff)
    then have "of_int (10 ^ j + 1) * pow10 p \<le> of_int s * pow10 p"
      by (intro mult_right_mono) simp_all
    then have "pow10 (declen s + p - 1) + pow10 p \<le> of_int s * pow10 p"
      by (simp only: e) (simp add: algebra_simps)
    with near g tiny show ?thesis by linarith
  qed
  then show "pow10 (declen s + p - 1) \<le> round_magnitude (of_int s * pow10 p)" .
  from above near g tiny
  have "round_magnitude (of_int s * pow10 p) < pow10 (declen s + p)" by linarith
  from dec_exp_eq [OF wpos wlo this]
  show "dec_exp (round_magnitude (of_int s * pow10 p)) = declen s + p" .
  from assms(5) g have "of_int s * (1 / 1000) \<le> (180 :: rat)"
  proof -
    from assms(1) have "0 \<le> (of_int s :: rat)" by simp
    from mult_left_mono [OF g this] assms(5) show ?thesis by linarith
  qed
  then have "(of_int s :: rat) \<le> 180000" by simp
  then have "s \<le> 180000" by (metis of_int_le_iff of_int_numeral)
  with j(1) have "(10 :: int) ^ j < 10 ^ 6" by simp
  then have "j < 6" by (simp only: power_strict_increasing_iff) 
  with j(3) show "declen s \<le> 6" by simp
qed


lemma grain_decimal:
  fixes s p :: int
  assumes "0 < s" and "\<not> 10 dvd s" and "- 3 \<le> p" and "p \<le> 2"
    and "of_int s * pow10 p \<le> 180"
  shows "grain (round_magnitude (of_int s * pow10 p)) k = pow10 (declen s + p - k)"
  by (simp add: grain_def decimal_facts(6) [OF assms])

lemma multiple_fails:
  fixes s p z :: int
  assumes "0 < s" and "\<not> 10 dvd s" and "- 3 \<le> p" and "p \<le> 2"
    and "of_int s * pow10 p \<le> 180"
    and "z \<noteq> s" and "0 \<le> z" and "of_int z * pow10 p < 512"
  shows "rnd (of_int z * pow10 p) \<noteq> Finite (round_magnitude (of_int s * pow10 p))"
proof -
  note f = decimal_facts [OF assms(1-5)]
  from assms(5) have hi: "of_int s * pow10 p < 512" by simp
  from assms(7) have "0 \<le> (of_int z :: rat)" by simp
  then have nonneg: "0 \<le> of_int z * pow10 p" by simp
  from grid_distance [OF assms(6), of p] pow10_ge_thousandth [OF assms(3)]
  have "1 / 1000 \<le> \<bar>of_int z * pow10 p - of_int s * pow10 p\<bar>" by linarith
  from rnd_far [OF f(1) hi nonneg assms(8) this] show ?thesis .
qed

lemma candidates_fail:
  fixes s p k :: int
  assumes "0 < s" and "\<not> 10 dvd s" and "- 3 \<le> p" and "p \<le> 2"
    and "of_int s * pow10 p \<le> 180"
    and "1 \<le> k" and "k < declen s"
  shows "rnd (dec_below (round_magnitude (of_int s * pow10 p)) k) \<noteq>
           Finite (round_magnitude (of_int s * pow10 p))"
    and "rnd (dec_above (round_magnitude (of_int s * pow10 p)) k) \<noteq>
           Finite (round_magnitude (of_int s * pow10 p))"
proof -
  note core = assms(1-5)
  note f = decimal_facts [OF core]
  define w where "w = round_magnitude (of_int s * pow10 p)"
  define g where "g = grain w k"
  define m where "m = nat (declen s - k)"
  from assms(7) have m: "declen s - k = int m" "m = Suc (m - 1)" by (simp_all add: m_def)
  have e: "declen s + p - k = int m + p" using m(1) by simp
  have "g = pow10 (declen s + p - k)"
    by (simp add: g_def w_def grain_decimal [OF core])
  then have "g = pow10 (int m + p)"
    by (simp only: e)
  then have g: "g = 10 ^ m * pow10 p"
    by (simp only: pow10_add pow10_nat)
  have gpos: "0 < g" by (simp add: g)
  from assms(6) have "declen s + p - k \<le> declen s + p - 1" by simp
  from pow10_mono [OF this] f(7) have gle: "g \<le> w"
    by (simp add: g_def w_def grain_decimal [OF core])
  from f(3) have wpos: "0 < w" by (simp add: w_def)
  from f(8) have whi: "w < 256" by (simp add: w_def)
  have fails: "rnd (of_int z * g) \<noteq> Finite w" if z: "0 \<le> z" "of_int z * g < 512" for z :: int
  proof -
    have eq: "of_int z * g = of_int (z * 10 ^ m) * pow10 p"
      by (simp add: g)
    have "10 dvd z * 10 ^ m"
      by (subst m(2)) simp
    with assms(2) have ne: "z * 10 ^ m \<noteq> s" by auto
    from z(1) have nn: "0 \<le> z * 10 ^ m" by simp
    from z(2) have lt: "of_int (z * 10 ^ m) * pow10 p < 512" by (simp only: eq)
    show ?thesis
      unfolding eq w_def by (rule multiple_fails [OF core ne nn lt])
  qed
  have q: "0 \<le> w / g" using wpos gpos by simp
  have below: "0 \<le> \<lfloor>w / g\<rfloor>" using q by simp
  have "of_int \<lfloor>w / g\<rfloor> * g \<le> w / g * g"
    by (intro mult_right_mono) (simp_all add: less_imp_le [OF gpos])
  with gpos whi have "of_int \<lfloor>w / g\<rfloor> * g < 512" by simp
  from fails [OF below this] show "rnd (dec_below (round_magnitude (of_int s * pow10 p)) k) \<noteq>
           Finite (round_magnitude (of_int s * pow10 p))"
    by (simp add: dec_below_def g_def w_def)
  have above: "0 \<le> \<lceil>w / g\<rceil>" using q by simp
  have "of_int \<lceil>w / g\<rceil> < w / g + 1" by linarith
  then have "of_int \<lceil>w / g\<rceil> * g < (w / g + 1) * g"
    using gpos by (simp only: mult_less_cancel_right_pos)
  also have "\<dots> = w + g" using gpos by (simp add: algebra_simps)
  finally have "of_int \<lceil>w / g\<rceil> * g < 512" using gle whi by linarith
  from fails [OF above this] show "rnd (dec_above (round_magnitude (of_int s * pow10 p)) k) \<noteq>
           Finite (round_magnitude (of_int s * pow10 p))"
    by (simp add: dec_above_def g_def w_def)
qed

lemma shortest_step:
  fixes s p k :: int
  assumes "0 < s" and "\<not> 10 dvd s" and "- 3 \<le> p" and "p \<le> 2"
    and "of_int s * pow10 p \<le> 180"
    and "1 \<le> k" and "k < declen s"
  shows "shortest (round_magnitude (of_int s * pow10 p)) k =
         shortest (round_magnitude (of_int s * pow10 p)) (k + 1)"
proof -
  from decimal_facts(10) [OF assms(1-5)] assms(7) have "\<not> 17 \<le> k" by simp
  then show ?thesis
    by (subst shortest.simps) (simp add: candidates_fail [OF assms])
qed

lemma shortest_final:
  fixes s p :: int
  assumes "0 < s" and "\<not> 10 dvd s" and "- 3 \<le> p" and "p \<le> 2"
    and "of_int s * pow10 p \<le> 180"
  shows "shortest (round_magnitude (of_int s * pow10 p)) (declen s) =
         (of_int s * pow10 p, declen s)"
proof -
  note core = assms
  note f = decimal_facts [OF core]
  define a where "a = of_int s * pow10 p"
  define w where "w = round_magnitude a"
  define g where "g = pow10 p"
  have grain: "grain w (declen s) = g"
    by (simp add: w_def a_def g_def grain_decimal [OF core])
  have gpos: "0 < g" by (simp add: g_def)
  have glo: "1 / 1000 \<le> g" unfolding g_def by (rule pow10_ge_thousandth [OF assms(3)])
  have "g \<le> pow10 2" unfolding g_def by (rule pow10_mono [OF assms(4)])
  then have ghi: "g \<le> 100" by (simp add: pow10_def)
  have a: "a = of_int s * g" by (simp add: a_def g_def)
  from f(2) have near: "\<bar>w - a\<bar> \<le> 1 / 2 ^ 45" by (simp add: w_def a_def)
  have tiny: "(1 :: rat) / 2 ^ 45 < 1 / 1000" by simp
  from f(4) have exact: "rnd a = Finite w" by (simp add: w_def a_def)
  from f(10) have k: "\<not> 17 \<le> declen s" by simp
  from assms(5) have ahi: "a \<le> 180" by (simp add: a_def)
  have up: "rnd (of_int (s + 1) * g) \<noteq> Finite w"
  proof -
    have "of_int (s + 1) * g = a + g" by (simp add: a algebra_simps)
    with ahi ghi have "of_int (s + 1) * g < 512" by linarith
    then have "of_int (s + 1) * pow10 p < 512" by (simp only: g_def)
    from multiple_fails [OF core _ _ this] assms(1) show ?thesis
      by (simp add: g_def w_def a_def)
  qed
  have down: "rnd (of_int (s - 1) * g) \<noteq> Finite w"
  proof -
    have "of_int (s - 1) * g = a - g" by (simp add: a algebra_simps)
    with ahi gpos have "of_int (s - 1) * g < 512" by linarith
    then have "of_int (s - 1) * pow10 p < 512" by (simp only: g_def)
    from multiple_fails [OF core _ _ this] assms(1) show ?thesis
      by (simp add: g_def w_def a_def)
  qed
  have q: "w / g - of_int s = (w - a) / g"
    using gpos by (simp add: a field_simps)
  consider "w = a" | "a < w" | "w < a" by linarith
  then have "shortest w (declen s) = (a, declen s)"
  proof cases
    case 1
    then have "w / g = of_int s" using gpos by (simp add: a)
    then have b: "dec_below w (declen s) = a" and c: "dec_above w (declen s) = a"
      by (simp_all add: dec_below_def dec_above_def grain a)
    have cl: "closer w (declen s) = a"
      unfolding closer_def b c by simp
    show ?thesis
      by (subst shortest.simps) (simp add: exact k b c cl)
  next
    case 2
    with near glo tiny have "0 < w - a" "w - a < g" by linarith+
    then have "0 < (w - a) / g" "(w - a) / g < 1" using gpos by simp_all
    with q have "of_int s \<le> w / g" "w / g < of_int s + 1" "of_int (s + 1) - 1 < w / g"
      "w / g \<le> of_int (s + 1)"
      by simp_all
    then have "\<lfloor>w / g\<rfloor> = s" "\<lceil>w / g\<rceil> = s + 1"
      by (simp_all only: floor_unique ceiling_unique)
    then have "dec_below w (declen s) = a" "dec_above w (declen s) = of_int (s + 1) * g"
      by (simp_all add: dec_below_def dec_above_def grain a)
    with exact k up show ?thesis
      by (subst shortest.simps) simp
  next
    case 3
    with near glo tiny have "w - a < 0" "- g < w - a" by linarith+
    then have "(w - a) / g < 0" "- 1 < (w - a) / g" using gpos by (simp_all add: field_simps)
    with q have "of_int (s - 1) \<le> w / g" "w / g < of_int (s - 1) + 1" "of_int s - 1 < w / g"
      "w / g \<le> of_int s"
      by simp_all
    then have "\<lfloor>w / g\<rfloor> = s - 1" "\<lceil>w / g\<rceil> = s"
      by (simp_all only: floor_unique ceiling_unique)
    then have "dec_below w (declen s) = of_int (s - 1) * g" "dec_above w (declen s) = a"
      by (simp_all add: dec_below_def dec_above_def grain a)
    with exact k down show ?thesis
      by (subst shortest.simps) simp
  qed
  then show ?thesis by (simp add: w_def a_def)
qed

lemma shortest_from:
  fixes s p k :: int
  assumes "0 < s" and "\<not> 10 dvd s" and "- 3 \<le> p" and "p \<le> 2"
    and "of_int s * pow10 p \<le> 180"
    and "1 \<le> k" and "k \<le> declen s"
  shows "shortest (round_magnitude (of_int s * pow10 p)) k = (of_int s * pow10 p, declen s)"
  using assms(6,7)
proof (induction "nat (declen s - k)" arbitrary: k)
  case 0
  then have "k = declen s" by simp
  with shortest_final [OF assms(1-5)] show ?case by simp
next
  case (Suc n)
  then have k: "k < declen s" "n = nat (declen s - (k + 1))" "1 \<le> k + 1" "k + 1 \<le> declen s"
    by simp_all
  from shortest_step [OF assms(1-5) Suc.prems(1) k(1)] Suc.hyps(1) [OF k(2,3,4)]
  show ?case by simp
qed

lemma positive_to_string_decimal:
  fixes s p :: int
  assumes "0 < s" and "\<not> 10 dvd s" and "- 3 \<le> p" and "p \<le> 2"
    and "of_int s * pow10 p \<le> 180"
  shows "positive_to_string (round_magnitude (of_int s * pow10 p)) =
         layout (int_to_string s) (declen s) (declen s + p)"
proof -
  note f = decimal_facts [OF assms]
  have digits: "of_int s * pow10 p / pow10 p = (of_int s :: rat)" by simp
  have "shortest (round_magnitude (of_int s * pow10 p)) 1 = (of_int s * pow10 p, declen s)"
    by (rule shortest_from [OF assms]) (simp_all add: f(9))
  then show ?thesis
    by (simp add: positive_to_string_def f(5) digits)
qed


section \<open>Decimal numerals\<close>

lemma digit_char_0: "digit_char 0 = CHR ''0''"
  by (simp add: digit_char_def)

lemma int_to_string_digit: "d < 10 \<Longrightarrow> int_to_string d = [digit_char d]"
  by (subst int_to_string.simps) simp

lemma int_to_string_snoc:
  "0 < x \<Longrightarrow> 0 \<le> d \<Longrightarrow> d < 10 \<Longrightarrow> int_to_string (10 * x + d) = int_to_string x @ [digit_char d]"
  by (subst int_to_string.simps) simp

lemma declen_digit: "0 < d \<Longrightarrow> d < 10 \<Longrightarrow> declen d = 1"
  by (simp add: declen_pos declen_nonpos)

lemma declen_snoc: "0 < x \<Longrightarrow> 0 \<le> d \<Longrightarrow> d < 10 \<Longrightarrow> declen (10 * x + d) = declen x + 1"
  by (subst declen_pos) simp_all

lemma length_int_to_string: "0 < x \<Longrightarrow> int (length (int_to_string x)) = declen x"
proof (induction x rule: int_to_string.induct)
  case (1 n)
  show ?case
  proof (cases "n < 10")
    case True
    with 1(2) show ?thesis by (simp add: int_to_string_digit declen_digit)
  next
    case False
    with div_10_bounds [of n] have "0 < n div 10" by linarith
    from 1(1) [OF False this] False 1(2) show ?thesis
      by (simp add: int_to_string.simps [of n] declen_pos [of n])
  qed
qed

lemma int_to_string_zeros:
  "0 < x \<Longrightarrow> int_to_string (x * 10 ^ j) = int_to_string x @ replicate j (CHR ''0'')"
proof (induction j)
  case 0
  then show ?case by simp
next
  case (Suc j)
  from Suc.prems have "0 < x * 10 ^ j" by simp
  from int_to_string_snoc [OF this, of 0] Suc.IH [OF Suc.prems]
  have "int_to_string (10 * (x * 10 ^ j) + 0) =
      (int_to_string x @ replicate j (CHR ''0'')) @ [CHR ''0'']"
    by (simp add: digit_char_0)
  moreover have "10 * (x * 10 ^ j) + 0 = x * 10 ^ Suc j" by simp
  moreover have "(int_to_string x @ replicate j (CHR ''0'')) @ [CHR ''0''] =
      int_to_string x @ replicate (Suc j) (CHR ''0'')"
    by (simp add: replicate_append_same)
  ultimately show ?case by (simp only:)
qed

lemma declen_ge_1: "0 < n \<Longrightarrow> 1 \<le> declen n"
  using declen_bounds [of n] by auto

lemma layout_integer:
  assumes "0 < s" and "0 \<le> p" and "declen s + p \<le> 21"
  shows "layout (int_to_string s) (declen s) (declen s + p) = int_to_string (s * 10 ^ nat p)"
  using assms by (simp add: layout_def int_to_string_zeros)

lemma int_to_string_nonempty: "int_to_string x \<noteq> []"
  by (subst int_to_string.simps) simp

lemma layout_point:
  assumes "ds1 \<noteq> []" and "length ds1 \<le> 21" and "ds2 \<noteq> []"
  shows "layout (ds1 @ ds2) (int (length ds1) + int (length ds2)) (int (length ds1)) =
         ds1 @ ''.'' @ ds2"
  using assms by (simp add: layout_def)

lemma layout_leading:
  assumes "ds \<noteq> []" and "z < 6"
  shows "layout ds (int (length ds)) (- int z) = ''0.'' @ replicate z (CHR ''0'') @ ds"
  using assms by (cases ds) (simp_all add: layout_def)

lemma layout_fraction:
  assumes "0 \<le> i" and "declen i \<le> 21" and "0 < q" and "ds \<noteq> []" and "length ds < 6"
    and whole: "0 < i \<Longrightarrow> int_to_string s = int_to_string i @ ds"
    and whole_len: "0 < i \<Longrightarrow> declen s = declen i + int (length ds)"
    and part: "i = 0 \<Longrightarrow> int_to_string s = int_to_string q"
    and part_len: "i = 0 \<Longrightarrow> declen s = declen q"
    and pad: "replicate (length ds - nat (declen q)) (CHR ''0'') @ int_to_string q = ds"
    and short: "declen q \<le> int (length ds)"
  shows "layout (int_to_string s) (declen s) (declen s - int (length ds)) =
         int_to_string i @ ''.'' @ ds"
proof (cases "0 < i")
  case True
  from length_int_to_string [OF True] assms(2)
  have len: "declen i = int (length (int_to_string i))" "length (int_to_string i) \<le> 21"
    by simp_all
  from layout_point [of "int_to_string i" ds, OF int_to_string_nonempty len(2) assms(4)]
  show ?thesis
    by (simp add: whole [OF True] whole_len [OF True] len(1))
next
  case False
  with assms(1) have i: "i = 0" by simp
  from length_int_to_string [OF assms(3)]
  have len: "declen q = int (length (int_to_string q))" by simp
  define z where "z = length ds - nat (declen q)"
  from short have z: "declen q - int (length ds) = - int z"
    using declen_ge_1 [OF assms(3)] by (simp add: z_def)
  from assms(5) have "z < 6" by (simp add: z_def)
  from layout_leading [of "int_to_string q" z, OF int_to_string_nonempty this] pad
  show ?thesis
    by (simp add: part [OF i] part_len [OF i] z i int_to_string_digit digit_char_0 len [symmetric]
        z_def [symmetric])
qed

text \<open>The numeral of a number given by its digits, the most significant first.\<close>

lemma digits_whole:
  assumes "0 < i" and "\<forall>d \<in> set ds. 0 \<le> d \<and> d < 10"
  shows "int_to_string (foldl (\<lambda>x d. 10 * x + d) i ds) = int_to_string i @ map digit_char ds
       \<and> declen (foldl (\<lambda>x d. 10 * x + d) i ds) = declen i + int (length ds)"
  using assms
proof (induction ds arbitrary: i)
  case Nil
  then show ?case by simp
next
  case (Cons d ds)
  then have d: "0 \<le> d" "d < 10" and ds: "\<forall>d \<in> set ds. 0 \<le> d \<and> d < 10" by simp_all
  from Cons.prems(1) d(1) have "0 < 10 * i + d" by linarith
  from Cons.IH [OF this ds] show ?case
    by (simp add: int_to_string_snoc [OF Cons.prems(1) d] declen_snoc [OF Cons.prems(1) d])
qed

lemma digits_part:
  assumes "\<forall>d \<in> set ds. 0 \<le> d \<and> d < 10" and "0 < foldl (\<lambda>x d. 10 * x + d) 0 ds"
  shows "replicate (length ds - nat (declen (foldl (\<lambda>x d. 10 * x + d) 0 ds))) (CHR ''0'')
           @ int_to_string (foldl (\<lambda>x d. 10 * x + d) 0 ds) = map digit_char ds
       \<and> declen (foldl (\<lambda>x d. 10 * x + d) 0 ds) \<le> int (length ds)"
  using assms
proof (induction ds)
  case Nil
  then show ?case by simp
next
  case (Cons d ds)
  then have d: "0 \<le> d" "d < 10" and ds: "\<forall>d \<in> set ds. 0 \<le> d \<and> d < 10" by simp_all
  show ?case
  proof (cases "d = 0")
    case True
    with Cons.prems(2) have pos: "0 < foldl (\<lambda>x d. 10 * x + d) 0 ds" by simp
    from Cons.IH [OF ds pos] True show ?thesis
      by (simp add: Suc_diff_le digit_char_0 nat_le_iff)
  next
    case False
    with d have "0 < d" by simp
    from digits_whole [OF this ds] \<open>0 < d\<close> d(2) show ?thesis
      by (simp add: int_to_string_digit declen_digit)
  qed
qed

lemma layout_digits:
  assumes "0 \<le> i" and "declen i \<le> 21" and "\<forall>d \<in> set ds. 0 \<le> d \<and> d < 10"
    and "0 < foldl (\<lambda>x d. 10 * x + d) 0 ds" and "length ds < 6"
  shows "layout (int_to_string (foldl (\<lambda>x d. 10 * x + d) i ds))
           (declen (foldl (\<lambda>x d. 10 * x + d) i ds))
           (declen (foldl (\<lambda>x d. 10 * x + d) i ds) - int (length ds)) =
         int_to_string i @ ''.'' @ map digit_char ds"
proof -
  from assms(4) have ne: "map digit_char ds \<noteq> []" by (cases ds) simp_all
  from assms(5) have len: "length (map digit_char ds) < 6" by simp
  from layout_fraction [of i "foldl (\<lambda>x d. 10 * x + d) 0 ds" "map digit_char ds"
      "foldl (\<lambda>x d. 10 * x + d) i ds", OF assms(1,2,4) ne len]
    digits_whole [OF _ assms(3), of i] digits_part [OF assms(3,4)]
  show ?thesis by simp
qed


section \<open>The key of a coordinate in range\<close>

lemma declen_le: "0 \<le> n \<Longrightarrow> n < 10 ^ j \<Longrightarrow> declen n \<le> int j"
proof (cases "n = 0")
  case True
  then show ?thesis by (simp add: declen_nonpos)
next
  case False
  assume "0 \<le> n" and hi: "n < 10 ^ j"
  with False have "0 < n" by simp
  from declen_bounds [OF this] obtain i where
    i: "10 ^ i \<le> n" "declen n = int (Suc i)"
    by (elim exE conjE)
  from i(1) hi have "(10 :: int) ^ i < 10 ^ j" by linarith
  then have "i < j" by (simp only: power_strict_increasing_iff)
  with i(2) show ?thesis by simp
qed

lemma foldl_digits_nonneg:
  fixes i :: int
  assumes "0 \<le> i" and "\<forall>d \<in> set xs. 0 \<le> d"
  shows "0 \<le> foldl (\<lambda>x d. 10 * x + d) i xs"
  using assms
proof (induction xs arbitrary: i)
  case Nil
  then show ?case by simp
next
  case (Cons d xs)
  then have "0 \<le> 10 * i + d" by simp
  from Cons.IH [OF this] Cons.prems(2) show ?case by simp
qed

lemma pow10_neg_numeral:
  "pow10 (- 1) = 1 / 10" "pow10 (- 2) = 1 / 100" "pow10 (- 3) = 1 / 1000"
  "pow10 0 = 1" "pow10 1 = 10" "pow10 2 = 100"
  by (simp_all add: pow10_def)

lemma decimal_fraction:
  fixes i d :: int
  assumes "0 \<le> i" and "i \<le> 180" and "\<forall>e \<in> set xs. 0 \<le> e \<and> e < 10" and "0 < d" and "d < 10"
    and "length xs \<le> 2"
    and "of_int (foldl (\<lambda>x d. 10 * x + d) i (xs @ [d])) * pow10 (- int (length (xs @ [d]))) \<le> 180"
  shows "positive_to_string (round_magnitude
           (of_int (foldl (\<lambda>x d. 10 * x + d) i (xs @ [d])) * pow10 (- int (length (xs @ [d]))))) =
         int_to_string i @ ''.'' @ map digit_char (xs @ [d])"
proof -
  let ?h = "\<lambda>x d. 10 * x + (d :: int)"
  let ?s = "foldl ?h i (xs @ [d])"
  let ?p = "- int (length (xs @ [d]))"
  from assms(3) have nn: "\<forall>e \<in> set xs. 0 \<le> e" by simp
  have s: "?s = 10 * foldl ?h i xs + d" by simp
  from foldl_digits_nonneg [OF assms(1) nn] assms(4) have pos: "0 < ?s"
    unfolding s by linarith
  have "\<not> 10 dvd d" using assms(4,5) by (simp add: zdvd_not_zless)
  then have ndvd: "\<not> 10 dvd ?s"
    unfolding s by (simp add: dvd_add_right_iff)
  from assms(6) have p: "- 3 \<le> ?p" "?p \<le> 2" by simp_all
  have digits: "\<forall>e \<in> set (xs @ [d]). 0 \<le> e \<and> e < 10"
    using assms(3,4,5) by simp
  have "foldl ?h 0 (xs @ [d]) = 10 * foldl ?h 0 xs + d" by simp
  with foldl_digits_nonneg [OF order_refl nn] assms(4)
  have part: "0 < foldl ?h 0 (xs @ [d])" by linarith
  from assms(1,2) have "i < 10 ^ 3" by simp
  from declen_le [OF assms(1) this] have len: "declen i \<le> 21" by simp
  from assms(6) have short: "length (xs @ [d]) < 6" by simp
  have "declen ?s + ?p = declen ?s - int (length (xs @ [d]))" by simp
  with positive_to_string_decimal [OF pos ndvd p assms(7)]
    layout_digits [OF assms(1) len digits part short]
  show ?thesis by (simp only:)
qed

lemma decimal_integer:
  fixes i :: int
  assumes "0 < i" and "i \<le> 180"
  shows "positive_to_string (round_magnitude (of_int i)) = int_to_string i"
proof -
  have whole: "positive_to_string (round_magnitude (of_int (s * 10 ^ nat p))) =
      int_to_string (s * 10 ^ nat p)"
    if "0 < s" "\<not> 10 dvd s" "0 \<le> p" "p \<le> 2" "s * 10 ^ nat p \<le> 180" for s p :: int
  proof -
    have a: "of_int s * pow10 p = (of_int (s * 10 ^ nat p) :: rat)"
      using that(3) by (simp add: pow10_def)
    from that(5) have "(of_int (s * 10 ^ nat p) :: rat) \<le> 180"
      by (metis of_int_le_iff of_int_numeral)
    then have le: "of_int s * pow10 p \<le> 180" by (simp only: a)
    from that(3) have p: "- 3 \<le> p" by simp
    from that(1,5) have "s * 1 \<le> s * 10 ^ nat p"
      by (intro mult_left_mono) simp_all
    with that(5) have "s < 10 ^ 3" by simp
    from declen_le [OF _ this] that(1,4) have "declen s + p \<le> 21" by simp
    from layout_integer [OF that(1,3) this] positive_to_string_decimal [OF that(1,2) p that(4) le]
    show ?thesis by (simp only: a)
  qed
  show ?thesis
  proof (cases "10 dvd i")
    case False
    from whole [OF assms(1) False, of 0] assms(2) show ?thesis by simp
  next
    case True
    then obtain j where j: "i = 10 * j" by (elim dvdE)
    with assms have jb: "0 < j" "j \<le> 18" by simp_all
    show ?thesis
    proof (cases "10 dvd j")
      case False
      from whole [OF jb(1) False, of 1] jb(2) show ?thesis by (simp add: j mult.commute)
    next
      case True
      then obtain k where k: "j = 10 * k" by (elim dvdE)
      with jb have "k = 1" by simp
      with whole [of 1 2] show ?thesis by (simp add: j k)
    qed
  qed
qed

lemma fraction_digits:
  fixes d1 d2 d3 :: int
  assumes "0 \<le> d1" and "0 \<le> d2" "d2 < 10" and "0 \<le> d3" "d3 < 10"
  shows "fraction (10 * (10 * d1 + d2) + d3) =
     (if d3 \<noteq> 0 then ''.'' @ map digit_char [d1, d2, d3]
      else if d2 \<noteq> 0 then ''.'' @ map digit_char [d1, d2]
      else if d1 \<noteq> 0 then ''.'' @ map digit_char [d1]
      else [])"
proof -
  let ?r = "10 * (10 * d1 + d2) + d3"
  have m10: "?r mod 10 = d3"
    using assms(4,5) by (intro int_mod_pos_eq [of _ _ "10 * d1 + d2"]) simp_all
  have d10: "?r div 10 = 10 * d1 + d2"
    using assms(4,5) by (intro int_div_pos_eq [of _ _ _ d3]) simp_all
  have m100: "?r mod 100 = 10 * d2 + d3"
    using assms(2-5) by (intro int_mod_pos_eq [of _ _ d1]) simp_all
  have d100: "?r div 100 = d1"
    using assms(2-5) by (intro int_div_pos_eq [of _ _ _ "10 * d2 + d3"]) simp_all
  have dm: "(10 * d1 + d2) mod 10 = d2"
    using assms(2,3) by (intro int_mod_pos_eq [of _ _ d1]) simp_all
  have z100: "10 * d2 + d3 = 0 \<longleftrightarrow> d2 = 0 \<and> d3 = 0"
    using assms(2,4) by auto
  have z: "?r = 0 \<longleftrightarrow> d1 = 0 \<and> d2 = 0 \<and> d3 = 0"
    using assms(1,2,4) by auto
  show ?thesis
    unfolding fraction_def m10 d10 m100 d100 dm z100 z by auto
qed

lemma decimal_string:
  fixes m :: int
  assumes "0 < m" and "m \<le> 180000"
  shows "positive_to_string (round_magnitude (of_int m / 1000)) =
         int_to_string (m div 1000) @ fraction (m mod 1000)"
proof -
  define i where "i = m div 1000"
  define r where "r = m mod 1000"
  define d3 where "d3 = r mod 10"
  define t where "t = r div 10"
  define d2 where "d2 = t mod 10"
  define d1 where "d1 = t div 10"
  have m: "m = 1000 * i + r" and r: "0 \<le> r" "r < 1000"
    by (simp_all add: i_def r_def)
  have rt: "r = 10 * t + d3" and d3: "0 \<le> d3" "d3 < 10"
    by (simp_all add: t_def d3_def)
  have td: "t = 10 * d1 + d2" and d2: "0 \<le> d2" "d2 < 10"
    by (simp_all add: d1_def d2_def)
  from r rt d3 have t: "0 \<le> t" "t < 100" by linarith+
  with td d2 have d1: "0 \<le> d1" "d1 < 10" by linarith+
  from assms m r have i: "0 \<le> i" "i \<le> 180" by linarith+
  have rd: "r = 10 * (10 * d1 + d2) + d3" by (simp only: rt td)
  have am: "(of_int m :: rat) / 1000 \<le> 180"
  proof -
    from assms(2) have "(of_int m :: rat) \<le> 180000" by (metis of_int_le_iff of_int_numeral)
    then show ?thesis by simp
  qed
  note frac = fraction_digits [OF d1(1) d2 d3, folded rd]
  consider "d3 \<noteq> 0" | "d3 = 0" "d2 \<noteq> 0" | "d3 = 0" "d2 = 0" "d1 \<noteq> 0"
    | "d3 = 0" "d2 = 0" "d1 = 0"
    by blast
  then have "positive_to_string (round_magnitude (of_int m / 1000)) = int_to_string i @ fraction r"
  proof cases
    case 1
    with d3 have pos: "0 < d3" by simp
    have digits: "\<forall>e \<in> set [d1, d2]. 0 \<le> e \<and> e < 10" using d1 d2 by simp
    have s: "foldl (\<lambda>x d. 10 * x + d) i ([d1, d2] @ [d3]) = m"
      by (simp add: m rd)
    have a: "of_int (foldl (\<lambda>x d. 10 * x + d) i ([d1, d2] @ [d3]))
        * pow10 (- int (length ([d1, d2] @ [d3]))) = (of_int m :: rat) / 1000"
      unfolding s by (simp add: pow10_neg_numeral)
    from decimal_fraction [OF i digits pos d3(2), unfolded a, OF _ am] 1 show ?thesis
      by (simp add: frac)
  next
    case 2
    with d2 have pos: "0 < d2" by simp
    have digits: "\<forall>e \<in> set [d1]. 0 \<le> e \<and> e < 10" using d1 by simp
    have s: "10 * foldl (\<lambda>x d. 10 * x + d) i ([d1] @ [d2]) = m"
      by (simp add: m rd 2)
    then have "(of_int m :: rat) = 10 * of_int (foldl (\<lambda>x d. 10 * x + d) i ([d1] @ [d2]))"
      by (metis of_int_mult of_int_numeral)
    then have a: "of_int (foldl (\<lambda>x d. 10 * x + d) i ([d1] @ [d2]))
        * pow10 (- int (length ([d1] @ [d2]))) = (of_int m :: rat) / 1000"
      by (simp add: pow10_neg_numeral)
    from decimal_fraction [OF i digits pos d2(2), unfolded a, OF _ am] 2 show ?thesis
      by (simp add: frac)
  next
    case 3
    with d1 have pos: "0 < d1" by simp
    have digits: "\<forall>e \<in> set []. 0 \<le> e \<and> e < (10 :: int)" by simp
    have s: "100 * foldl (\<lambda>x d. 10 * x + d) i ([] @ [d1]) = m"
      by (simp add: m rd 3)
    then have "(of_int m :: rat) = 100 * of_int (foldl (\<lambda>x d. 10 * x + d) i ([] @ [d1]))"
      by (metis of_int_mult of_int_numeral)
    then have a: "of_int (foldl (\<lambda>x d. 10 * x + d) i ([] @ [d1]))
        * pow10 (- int (length ([] @ [d1]))) = (of_int m :: rat) / 1000"
      by (simp add: pow10_neg_numeral)
    from decimal_fraction [OF i digits pos d1(2), unfolded a, OF _ am] 3 show ?thesis
      by (simp add: frac)
  next
    case 4
    with rd have "r = 0" by simp
    with m have mi: "m = 1000 * i" by simp
    with assms(1) have "0 < i" by simp
    from decimal_integer [OF this i(2)] show ?thesis
      by (simp add: mi \<open>r = 0\<close> fraction_def)
  qed
  then show ?thesis by (simp only: i_def r_def)
qed

lemma round_half_even_nonneg: "0 \<le> y \<Longrightarrow> 0 \<le> round_half_even y"
proof -
  assume "0 \<le> y"
  then have "0 \<le> \<lfloor>y\<rfloor>" by simp
  then show ?thesis by (simp add: round_half_even_def tie_break_def)
qed

lemma round_magnitude_nonneg: "0 \<le> a \<Longrightarrow> 0 \<le> round_magnitude a"
proof -
  assume "0 \<le> a"
  then have "0 \<le> a / pow2 (ulp_exp a)" by simp
  from round_half_even_nonneg [OF this] show ?thesis
    by (simp add: round_magnitude_def)
qed

lemma round_magnitude_close:
  assumes "0 < a" and "a \<le> 180000"
  shows "\<bar>round_magnitude a - a\<bar> \<le> 1 / 2 ^ 36"
proof -
  have "a < 2 ^ Suc 17" using assms(2) by simp
  from round_magnitude_error [OF assms(1) this]
  show ?thesis by (simp add: pow2_def)
qed

lemma fmul_in_range:
  assumes "in_range x"
  shows "(fmul x (Finite 1000) = NegZero \<and> \<bar>magnitude x * 1000\<bar> \<le> 1 / 2 ^ 36)
       \<or> (\<exists>u. fmul x (Finite 1000) = Finite u \<and> \<bar>u - magnitude x * 1000\<bar> \<le> 1 / 2 ^ 36)"
proof (cases x)
  case (Finite q)
  show ?thesis
  proof (cases "q = 0")
    case True
    with Finite show ?thesis
      by (simp add: fmul_def is_nan_def is_inf_def is_zero_def)
  next
    case False
    define a where "a = \<bar>q * 1000\<bar>"
    define v where "v = round_magnitude a"
    from False have pos: "0 < a" by (simp add: a_def)
    from assms Finite have hi: "a \<le> 180000" by (simp add: in_range_def a_def abs_mult)
    from round_magnitude_close [OF pos hi] have near: "\<bar>v - a\<bar> \<le> 1 / 2 ^ 36"
      by (simp add: v_def)
    from round_magnitude_nonneg [of a] pos have nn: "0 \<le> v" by (simp add: v_def)
    have "(180000 :: rat) + 1 / 2 ^ 36 < 2 ^ 1024" by simp
    with near hi have small: "\<not> 2 ^ 1024 \<le> v" by linarith
    from False Finite have prod: "fmul x (Finite 1000) = pack (0 < q * 1000) v"
      by (simp add: fmul_def is_nan_def is_inf_def is_zero_def rnd_def v_def a_def)
    show ?thesis
    proof (cases "0 < q")
      case True
      then have a: "q * 1000 = a" by (simp add: a_def)
      from True prod small have "fmul x (Finite 1000) = Finite v"
        by (simp add: pack_def)
      with near Finite show ?thesis by (simp add: a)
    next
      case neg: False
      with False have a: "q * 1000 = - a" by (simp add: a_def)
      show ?thesis
      proof (cases "v = 0")
        case True
        with neg prod small have "fmul x (Finite 1000) = NegZero"
          by (simp add: pack_def)
        with near True Finite show ?thesis by (simp add: a)
      next
        case nz: False
        with neg prod small have "fmul x (Finite 1000) = Finite (- v)"
          by (simp add: pack_def)
        moreover from near have "\<bar>- v - q * 1000\<bar> \<le> 1 / 2 ^ 36"
          unfolding a by linarith
        ultimately show ?thesis using Finite by simp
      qed
    qed
  qed
next
  case NegZero
  then show ?thesis
    by (simp add: fmul_def is_nan_def is_inf_def is_zero_def)
next
  case PosInf
  with assms show ?thesis by (simp add: in_range_def is_inf_def)
next
  case NegInf
  with assms show ?thesis by (simp add: in_range_def is_inf_def)
next
  case NaN
  with assms show ?thesis by (simp add: in_range_def is_nan_def)
qed

lemma round_in_range:
  assumes "in_range x"
  shows "(math_round (fmul x (Finite 1000)) = NegZero \<and> cell x = 0
          \<or> math_round (fmul x (Finite 1000)) = Finite (of_int (cell x)))
       \<and> \<bar>cell x\<bar> \<le> 180000
       \<and> \<bar>of_int (cell x) - magnitude x * 1000\<bar> \<le> 1 / 2 + 1 / 2 ^ 36"
proof -
  from assms have range: "\<bar>magnitude x * 1000\<bar> \<le> 180000"
    by (simp add: in_range_def abs_mult)
  from fmul_in_range [OF assms] consider
    "fmul x (Finite 1000) = NegZero" "\<bar>magnitude x * 1000\<bar> \<le> 1 / 2 ^ 36"
    | u where "fmul x (Finite 1000) = Finite u" "\<bar>u - magnitude x * 1000\<bar> \<le> 1 / 2 ^ 36"
    by blast
  then show ?thesis
  proof cases
    case 1
    then show ?thesis by (simp add: cell_def)
  next
    case 2
    define n where "n = \<lfloor>u + 1 / 2\<rfloor>"
    have fl: "of_int n \<le> u + 1 / 2" "u + 1 / 2 < of_int n + 1"
      unfolding n_def by linarith+
    have tiny: "(1 :: rat) / 2 ^ 36 < 1 / 2" by simp
    from fl 2(2) range tiny have "of_int n < (180001 :: rat)" "(- 180001 :: rat) < of_int n"
      by linarith+
    then have "n < 180001" "- 180001 < n"
      by (metis of_int_less_iff of_int_numeral, metis of_int_less_iff of_int_numeral of_int_minus)
    then have bound: "\<bar>n\<bar> \<le> 180000" by linarith
    from fl 2(2) have close: "\<bar>of_int n - magnitude x * 1000\<bar> \<le> 1 / 2 + 1 / 2 ^ 36"
      by linarith
    show ?thesis
    proof (cases "n = 0 \<and> u < 0")
      case True
      with 2(1) have "math_round (fmul x (Finite 1000)) = NegZero"
        by (simp add: n_def)
      with True bound close show ?thesis by (simp add: cell_def)
    next
      case False
      with 2(1) have "math_round (fmul x (Finite 1000)) = Finite (of_int n)"
        by (auto simp: n_def)
      with bound close show ?thesis by (simp add: cell_def)
    qed
  qed
qed

lemma thousandths_0: "thousandths 0 = ''0''"
  by (simp add: thousandths_def fraction_def int_to_string_digit digit_char_def)

lemma quotient_string:
  fixes n :: int
  assumes "\<bar>n\<bar> \<le> 180000"
  shows "number_to_string (fdiv (Finite (of_int n)) (Finite 1000)) = thousandths n"
proof -
  have by_sign: "rnd (of_int m / 1000) = Finite (round_magnitude (of_int m / 1000))
      \<and> rnd (- (of_int m / 1000)) = Finite (- round_magnitude (of_int m / 1000))
      \<and> 0 < round_magnitude (of_int m / 1000)
      \<and> positive_to_string (round_magnitude (of_int m / 1000)) =
          int_to_string (m div 1000) @ fraction (m mod 1000)"
    if m: "0 < m" "m \<le> 180000" for m :: int
  proof -
    from m(1) have "1 \<le> (of_int m :: rat)" by simp
    then have lo: "1 / 1000 \<le> (of_int m :: rat) / 1000" by simp
    from m(2) have "(of_int m :: rat) \<le> 180000" by (metis of_int_le_iff of_int_numeral)
    then have hi: "(of_int m :: rat) / 1000 < 512" by simp
    from rnd_small [OF lo hi] decimal_string [OF m] show ?thesis by simp
  qed
  consider "n = 0" | "0 < n" | "n < 0" by linarith
  then show ?thesis
  proof cases
    case 1
    then show ?thesis
      by (simp add: fdiv_def is_nan_def is_inf_def is_zero_def thousandths_0)
  next
    case 2
    with assms have "n \<le> 180000" by simp
    from by_sign [OF 2 this] 2 show ?thesis
      by (simp add: fdiv_def is_nan_def is_inf_def is_zero_def thousandths_def)
  next
    case 3
    define m where "m = - n"
    with 3 assms have m: "0 < m" "m \<le> 180000" and n: "n = - m" by simp_all
    from by_sign [OF m] m(1) show ?thesis
      unfolding n by (simp add: fdiv_def is_nan_def is_inf_def is_zero_def thousandths_def)
  qed
qed

lemma rounded_string:
  assumes "in_range x"
  shows "number_to_string (rounded x) = thousandths (cell x)"
proof -
  from round_in_range [OF assms] consider
    "math_round (fmul x (Finite 1000)) = NegZero" "cell x = 0"
    | "math_round (fmul x (Finite 1000)) = Finite (of_int (cell x))" "\<bar>cell x\<bar> \<le> 180000"
    by blast
  then show ?thesis
  proof cases
    case 1
    then show ?thesis
      by (simp add: rounded_def fdiv_def is_nan_def is_inf_def is_zero_def thousandths_0)
  next
    case 2
    from quotient_string [OF 2(2)] 2(1) show ?thesis
      by (simp add: rounded_def)
  qed
qed

text \<open>
  Claim C2, amended. For coordinates in range, a latitude and a longitude of magnitude at
  most 180, the key of the service class and the key of the utility are the same string
  \<open>"<lat>,<lng>"\<close>, in which each component is the decimal numeral of \<open>n / 1000\<close> for the
  whole number \<open>n\<close> that \<open>Math.round(x * 1000)\<close> returns: an optional minus sign, the
  integer part, and, unless they are all zero, a point and the fractional digits up to the
  last one that is not zero, at most three. So the division by 1000 and the conversion of
  the binary64 quotient to a string put nothing else into the key. The whole number is
  within a half, and the \<open>2 ^ -36\<close> by which the product may be rounded, of \<open>x * 1000\<close>,
  and it is at most 180000 in magnitude. The key is a function of the two numbers.
\<close>

theorem key_is_decimal_numeral:
  assumes "in_range lat" and "in_range lng"
  shows "generateCacheKey lat lng = thousandths (cell lat) @ '','' @ thousandths (cell lng)
       \<and> getCacheKey lat lng = thousandths (cell lat) @ '','' @ thousandths (cell lng)
       \<and> \<bar>cell lat\<bar> \<le> 180000 \<and> \<bar>cell lng\<bar> \<le> 180000
       \<and> \<bar>of_int (cell lat) - magnitude lat * 1000\<bar> \<le> 1 / 2 + 1 / 2 ^ 36
       \<and> \<bar>of_int (cell lng) - magnitude lng * 1000\<bar> \<le> 1 / 2 + 1 / 2 ^ 36"
  using rounded_string [OF assms(1)] rounded_string [OF assms(2)]
    round_in_range [OF assms(1)] round_in_range [OF assms(2)]
  by (simp add: generateCacheKey_def getCacheKey_def Let_def)

theorem key_is_decimal_numeral_witness:
  "in_range gorakhpur_lat \<and> in_range gorakhpur_lng
   \<and> cell gorakhpur_lat = 26761 \<and> cell gorakhpur_lng = 83373
   \<and> generateCacheKey gorakhpur_lat gorakhpur_lng = ''26.761,83.373''
   \<and> in_range (rnd (- (338688 / 10000))) \<and> in_range (rnd (1512000 / 10000))
   \<and> cell (rnd (- (338688 / 10000))) = - 33869 \<and> cell (rnd (1512000 / 10000)) = 151200
   \<and> getCacheKey (rnd (- (338688 / 10000))) (rnd (1512000 / 10000)) = ''-33.869,151.2''"
proof -
  have range: "in_range gorakhpur_lat" "in_range gorakhpur_lng"
    "in_range (rnd (- (338688 / 10000)))" "in_range (rnd (1512000 / 10000))"
    by (simp_all add: in_range_def gorakhpur_lat_def gorakhpur_lng_def float_eval)
  have cells: "cell gorakhpur_lat = 26761" "cell gorakhpur_lng = 83373"
    "cell (rnd (- (338688 / 10000))) = - 33869" "cell (rnd (1512000 / 10000)) = 151200"
    by (simp_all add: cell_def gorakhpur_lat_def gorakhpur_lng_def float_eval)
  have numerals: "thousandths 26761 = ''26.761''" "thousandths 83373 = ''83.373''"
    "thousandths (- 33869) = ''-33.869''" "thousandths 151200 = ''151.2''"
    by (simp_all add: thousandths_def fraction_def float_eval)
  from key_is_decimal_numeral [OF range(1,2), THEN conjunct1]
  have first: "generateCacheKey gorakhpur_lat gorakhpur_lng = ''26.761,83.373''"
    by (simp only: cells numerals) simp
  from key_is_decimal_numeral [OF range(3,4), THEN conjunct2, THEN conjunct1]
  have second: "getCacheKey (rnd (- (338688 / 10000))) (rnd (1512000 / 10000)) =
      ''-33.869,151.2''"
    by (simp only: cells numerals) simp
  from range cells first second show ?thesis
    by (intro conjI)
qed

text \<open>
  The claim as it stands fails: not every finite pair has a key in positional notation. For
  the latitude \<open>1e21\<close> the component is the string \<open>1e+21\<close>.
\<close>

theorem key_exponent_counterexample:
  "generateCacheKey (rnd (10 ^ 21)) (Finite 0) = ''1e+21,0''
   \<and> getCacheKey (rnd (10 ^ 21)) (Finite 0) = ''1e+21,0''"
  by (simp add: generateCacheKey_def getCacheKey_def Let_def float_eval)


section \<open>Quantisation\<close>

text \<open>
  Claim C9. The key is a function of the two coordinates, the same for the service class
  and the utility, and it depends on a coordinate only through the integer
  \<open>Math.round(x * 1000)\<close>: coordinates in the same rounding cell have the same key. In
  particular \<open>(26.76061, 83.37321)\<close> and \<open>(26.76064, 83.37324)\<close> have the same key, and
  \<open>(26.7601, 83.3732)\<close> and \<open>(26.7611, 83.3732)\<close> have different keys.
\<close>

theorem same_cell_same_key:
  "(math_round (fmul lat (Finite 1000)) = math_round (fmul lat' (Finite 1000))
      \<and> math_round (fmul lng (Finite 1000)) = math_round (fmul lng' (Finite 1000)) \<longrightarrow>
      generateCacheKey lat lng = generateCacheKey lat' lng')
   \<and> getCacheKey lat lng = generateCacheKey lat lng
   \<and> generateCacheKey (rnd (2676061 / 100000)) (rnd (8337321 / 100000)) =
       generateCacheKey (rnd (2676064 / 100000)) (rnd (8337324 / 100000))
   \<and> generateCacheKey (rnd (267601 / 10000)) (rnd (833732 / 10000)) \<noteq>
       generateCacheKey (rnd (267611 / 10000)) (rnd (833732 / 10000))"
proof -
  have "generateCacheKey (rnd (267601 / 10000)) (rnd (833732 / 10000)) = ''26.76,83.373''"
    by (simp only: generateCacheKey_def Let_def rounded_26_7601 rounded_83_3732 string_26_76
        string_83_373) simp
  moreover
  have "generateCacheKey (rnd (267611 / 10000)) (rnd (833732 / 10000)) = ''26.761,83.373''"
    by (simp only: generateCacheKey_def Let_def rounded_26_7611 rounded_83_3732 string_26_761
        string_83_373) simp
  moreover
  have "generateCacheKey (rnd (2676061 / 100000)) (rnd (8337321 / 100000)) =
       generateCacheKey (rnd (2676064 / 100000)) (rnd (8337324 / 100000))"
    by (simp only: generateCacheKey_def Let_def rounded_26_76061 rounded_26_76064
        rounded_83_37321 rounded_83_37324)
  ultimately show ?thesis
    by (simp add: generateCacheKey_def getCacheKey_def rounded_def)
qed

theorem same_cell_same_key_witness:
  "math_round (fmul (rnd (267606 / 10000)) (Finite 1000)) =
     math_round (fmul (rnd (2676064 / 100000)) (Finite 1000))
   \<and> math_round (fmul (rnd (833732 / 10000)) (Finite 1000)) =
     math_round (fmul (rnd (8337324 / 100000)) (Finite 1000))
   \<and> generateCacheKey (rnd (267606 / 10000)) (rnd (833732 / 10000)) =
     generateCacheKey (rnd (2676064 / 100000)) (rnd (8337324 / 100000))"
proof -
  have cells: "math_round (fmul (rnd (267606 / 10000)) (Finite 1000)) =
     math_round (fmul (rnd (2676064 / 100000)) (Finite 1000))"
    "math_round (fmul (rnd (833732 / 10000)) (Finite 1000)) =
     math_round (fmul (rnd (8337324 / 100000)) (Finite 1000))"
    by (simp_all add: float_eval)
  with same_cell_same_key [of "rnd (267606 / 10000)" "rnd (2676064 / 100000)"
      "rnd (833732 / 10000)" "rnd (8337324 / 100000)"]
  show ?thesis
    by blast
qed


section \<open>Store failures\<close>

text \<open>
  Claim C5. A failure of the cache store never reaches the caller of \<open>getLocation\<close>. With
  the service initialised: a rejected cache read makes the call proceed exactly as a miss
  does, both being the call that goes straight to the resolver; when the resolver answers a
  formattable result, that location is returned with source \<open>local\<close> whether or not the
  cache write is rejected, and a rejected write leaves the collection as it was; an error
  returned by the call is the error of the resolver, and every resolver error on the
  resolver path is returned.
\<close>

theorem store_failures_absorbed:
  assumes "isInitialized s"
  shows "(readFault w \<noteq> None \<longrightarrow>
            getLocation w s lat lng False = getLocation w s lat lng True)
       \<and> (find (\<lambda>d. cacheKey d = generateCacheKey lat lng) (geoCache s) = None \<longrightarrow>
            getLocation w s lat lng False = getLocation w s lat lng True)
       \<and> (\<forall>raw loc. lookUp w lat lng = Inr raw \<and> formatLocation raw = Some loc \<longrightarrow>
            fst (getLocation w s lat lng True) =
              Inr \<lparr>r_place = Known loc, r_source = ''local'',
                   r_cacheKey = generateCacheKey lat lng, r_hitCount = None\<rparr>
            \<and> (writeFault w \<noteq> None \<longrightarrow>
                 geoCache (snd (getLocation w s lat lng True)) = geoCache s))
       \<and> (\<forall>e. fst (getLocation w s lat lng skipCache) = Inl e \<longrightarrow> lookUp w lat lng = Inl e)
       \<and> (\<forall>e. lookUp w lat lng = Inl e \<longrightarrow> fst (getLocation w s lat lng True) = Inl e)"
proof -
  have bypass: "getLocation w s lat lng True =
     (case lookUp w lat lng of
        Inl err \<Rightarrow> (Inl err, s\<lparr>lookUpCalls := lookUpCalls s @ [(lat, lng)]\<rparr>)
      | Inr rawResult \<Rightarrow>
          (case formatLocation rawResult of
             None \<Rightarrow>
               (Inr \<lparr>r_place = Unknown, r_source = ''local'',
                     r_cacheKey = generateCacheKey lat lng, r_hitCount = None\<rparr>,
                s\<lparr>lookUpCalls := lookUpCalls s @ [(lat, lng)]\<rparr>)
           | Some loc \<Rightarrow>
               (Inr \<lparr>r_place = Known loc, r_source = ''local'',
                     r_cacheKey = generateCacheKey lat lng, r_hitCount = None\<rparr>,
                saveToCache w (generateCacheKey lat lng) lat lng loc rawResult
                  (s\<lparr>lookUpCalls := lookUpCalls s @ [(lat, lng)]\<rparr>))))"
    using assms by (rule getLocation_resolver_path) simp
  have fault: "getLocation w s lat lng False = getLocation w s lat lng True"
    if "readFault w \<noteq> None"
  proof -
    from that obtain m where "readFault w = Some m" by auto
    then have "checkCache w (generateCacheKey lat lng) s = None"
      by (rule checkCache_fault)
    then show ?thesis
      using assms by (simp add: getLocation_resolver_path)
  qed
  have miss: "getLocation w s lat lng False = getLocation w s lat lng True"
    if "find (\<lambda>d. cacheKey d = generateCacheKey lat lng) (geoCache s) = None"
    using assms checkCache_miss [OF that] by (simp add: getLocation_resolver_path)
  have resolved: "fst (getLocation w s lat lng True) =
              Inr \<lparr>r_place = Known loc, r_source = ''local'',
                   r_cacheKey = generateCacheKey lat lng, r_hitCount = None\<rparr>
            \<and> (writeFault w \<noteq> None \<longrightarrow>
                 geoCache (snd (getLocation w s lat lng True)) = geoCache s)"
    if "lookUp w lat lng = Inr raw" "formatLocation raw = Some loc" for raw loc
    using that by (auto simp: bypass saveToCache_fault)
  have only_resolver: "lookUp w lat lng = Inl e"
    if "fst (getLocation w s lat lng skipCache) = Inl e" for e
  proof (cases "skipCache \<or> checkCache w (generateCacheKey lat lng) s = None")
    case True
    then show ?thesis
      using that assms
      by (auto simp: getLocation_resolver_path split: sum.splits option.splits)
  next
    case False
    then obtain cached s' where
      "\<not> skipCache" "checkCache w (generateCacheKey lat lng) s = Some (cached, s')"
      by auto
    then show ?thesis
      using that assms by (simp add: getLocation_hit)
  qed
  have resolver_error: "fst (getLocation w s lat lng True) = Inl e"
    if "lookUp w lat lng = Inl e" for e
    using that by (simp add: bypass)
  show ?thesis
    using fault miss resolved only_resolver resolver_error by blast
qed

theorem store_failures_absorbed_witness:
  "isInitialized (ready :: (featured_location, raw_result) service)
   \<and> readFault (store_down (answers (Some [[gorakhpur]]))) \<noteq> None
   \<and> fst (getLocation (store_down (answers (Some [[gorakhpur]]))) ready
          gorakhpur_lat gorakhpur_lng False) =
       Inr \<lparr>r_place = Known gorakhpur_location, r_source = ''local'',
            r_cacheKey = generateCacheKey gorakhpur_lat gorakhpur_lng, r_hitCount = None\<rparr>
   \<and> geoCache (snd (getLocation (store_down (answers (Some [[gorakhpur]]))) ready
          gorakhpur_lat gorakhpur_lng False)) = []
   \<and> fst (getLocation (store_down (fails ''no data'')) ready gorakhpur_lat gorakhpur_lng False) =
       Inl (Error ''no data'')"
proof -
  have init: "isInitialized (ready :: (featured_location, raw_result) service)"
    by (simp add: ready_def)
  have empty: "geoCache (ready :: (featured_location, raw_result) service) = []"
    by (simp add: ready_def)
  have down: "readFault (store_down r) \<noteq> None" "writeFault (store_down r) \<noteq> None"
    "lookUp (store_down r) = r" for r
    by (simp_all add: store_down_def)
  have resolver: "lookUp (store_down (answers (Some [[gorakhpur]]))) gorakhpur_lat gorakhpur_lng =
      Inr (Some [[gorakhpur]])"
    "lookUp (store_down (fails ''no data'')) gorakhpur_lat gorakhpur_lng = Inl (Error ''no data'')"
    by (simp_all add: down answers_def fails_def)
  note ok = store_failures_absorbed
    [OF init, of "store_down (answers (Some [[gorakhpur]]))" gorakhpur_lat gorakhpur_lng True]
  note bad = store_failures_absorbed
    [OF init, of "store_down (fails ''no data'')" gorakhpur_lat gorakhpur_lng True]
  from ok down(1) have 1: "getLocation (store_down (answers (Some [[gorakhpur]]))) ready
      gorakhpur_lat gorakhpur_lng False =
    getLocation (store_down (answers (Some [[gorakhpur]]))) ready gorakhpur_lat gorakhpur_lng True"
    by blast
  from ok resolver(1) gorakhpur_formatted down(2)
  have 2: "fst (getLocation (store_down (answers (Some [[gorakhpur]]))) ready
          gorakhpur_lat gorakhpur_lng True) =
       Inr \<lparr>r_place = Known gorakhpur_location, r_source = ''local'',
            r_cacheKey = generateCacheKey gorakhpur_lat gorakhpur_lng, r_hitCount = None\<rparr>"
    and 3: "geoCache (snd (getLocation (store_down (answers (Some [[gorakhpur]]))) ready
          gorakhpur_lat gorakhpur_lng True)) =
       geoCache (ready :: (featured_location, raw_result) service)"
    by blast+
  from bad down(1) have 4: "getLocation (store_down (fails ''no data'')) ready
      gorakhpur_lat gorakhpur_lng False =
    getLocation (store_down (fails ''no data'')) ready gorakhpur_lat gorakhpur_lng True"
    by blast
  from bad resolver(2)
  have 5: "fst (getLocation (store_down (fails ''no data'')) ready gorakhpur_lat gorakhpur_lng True) =
      Inl (Error ''no data'')"
    by blast
  show ?thesis
    using init down(1) 2 3 5 by (simp only: 1 4 empty) simp
qed


section \<open>Unresolved lookups\<close>

text \<open>
  Claim C4. When a lookup reaches the resolver (the cache is bypassed, the cache read is
  rejected, or the collection has no document for the key) and the resolver returns no
  candidate, the call answers name \<open>Unknown\<close>, display name \<open>Unknown Location\<close>, source
  \<open>local\<close> and the key, and leaves the collection as it was; the only change of state is
  the logged resolver call. So where the collection had no document for the key it still
  has none, and every following lookup of the same coordinates calls the resolver again.
  This holds for \<open>getLocation\<close> of the service class and for \<open>reverseGeocode\<close> of the
  utility.
\<close>

theorem unknown_not_cached:
  assumes "isInitialized s" and "isInitialized u"
    and "lookUp w lat lng = Inr raw" and "formatLocation raw = None"
    and "skipCache \<or> readFault w \<noteq> None
         \<or> find (\<lambda>d. cacheKey d = generateCacheKey lat lng) (geoCache s) = None"
    and "skipCache \<or> readFault w \<noteq> None
         \<or> find (\<lambda>d. cacheKey d = getCacheKey lat lng) (geoCache u) = None"
  shows "getLocation w s lat lng skipCache =
           (Inr \<lparr>r_place = Unknown, r_source = ''local'',
                 r_cacheKey = generateCacheKey lat lng, r_hitCount = None\<rparr>,
            s\<lparr>lookUpCalls := lookUpCalls s @ [(lat, lng)]\<rparr>)
       \<and> reverseGeocode w u lat lng skipCache =
           (Inr \<lparr>r_place = Unknown, r_source = ''local'',
                 r_cacheKey = getCacheKey lat lng, r_hitCount = None\<rparr>,
            u\<lparr>lookUpCalls := lookUpCalls u @ [(lat, lng)]\<rparr>)
       \<and> place_name (Unknown :: featured_location place) = ''Unknown''
       \<and> place_displayName (Unknown :: featured_location place) = ''Unknown Location''
       \<and> (find (\<lambda>d. cacheKey d = generateCacheKey lat lng) (geoCache s) = None \<longrightarrow>
            (\<forall>w' again.
               lookUpCalls (snd (getLocation w' (snd (getLocation w s lat lng skipCache))
                                   lat lng again)) =
               lookUpCalls s @ [(lat, lng), (lat, lng)]))
       \<and> (find (\<lambda>d. cacheKey d = getCacheKey lat lng) (geoCache u) = None \<longrightarrow>
            (\<forall>w' again.
               lookUpCalls (snd (reverseGeocode w' (snd (reverseGeocode w u lat lng skipCache))
                                   lat lng again)) =
               lookUpCalls u @ [(lat, lng), (lat, lng)]))"
proof -
  let ?s1 = "s\<lparr>lookUpCalls := lookUpCalls s @ [(lat, lng)]\<rparr>"
  let ?u1 = "u\<lparr>lookUpCalls := lookUpCalls u @ [(lat, lng)]\<rparr>"
  have reach_s: "skipCache \<or> checkCache w (generateCacheKey lat lng) s = None"
    using assms(5) checkCache_fault checkCache_miss by (metis not_None_eq)
  have reach_u: "skipCache \<or> checkCache w (getCacheKey lat lng) u = None"
    using assms(6) checkCache_fault checkCache_miss by (metis not_None_eq)
  have first_s: "getLocation w s lat lng skipCache =
           (Inr \<lparr>r_place = Unknown, r_source = ''local'',
                 r_cacheKey = generateCacheKey lat lng, r_hitCount = None\<rparr>, ?s1)"
    using assms(3,4) by (simp add: getLocation_resolver_path [OF assms(1) reach_s])
  have util_unknown: "formatLocation_util raw = Unknown"
    using assms(4) by (simp add: formatLocation_util_Unknown)
  have first_u: "reverseGeocode w u lat lng skipCache =
           (Inr \<lparr>r_place = Unknown, r_source = ''local'',
                 r_cacheKey = getCacheKey lat lng, r_hitCount = None\<rparr>, ?u1)"
    using assms(3) util_unknown by (simp add: reverseGeocode_resolver_path [OF assms(2) reach_u])
  have again_s: "lookUpCalls (snd (getLocation w' ?s1 lat lng again)) =
      lookUpCalls s @ [(lat, lng), (lat, lng)]"
    if "find (\<lambda>d. cacheKey d = generateCacheKey lat lng) (geoCache s) = None" for w' again
  proof -
    have "checkCache w' (generateCacheKey lat lng) ?s1 = None"
      using that by (simp add: checkCache_miss)
    then have "again \<or> checkCache w' (generateCacheKey lat lng) ?s1 = None" ..
    moreover have "isInitialized ?s1" using assms(1) by simp
    ultimately show ?thesis
      by (simp add: getLocation_resolver_path split: sum.splits option.splits)
  qed
  have again_u: "lookUpCalls (snd (reverseGeocode w' ?u1 lat lng again)) =
      lookUpCalls u @ [(lat, lng), (lat, lng)]"
    if "find (\<lambda>d. cacheKey d = getCacheKey lat lng) (geoCache u) = None" for w' again
  proof -
    have "checkCache w' (getCacheKey lat lng) ?u1 = None"
      using that by (simp add: checkCache_miss)
    then have "again \<or> checkCache w' (getCacheKey lat lng) ?u1 = None" ..
    moreover have "isInitialized ?u1" using assms(2) by simp
    ultimately show ?thesis
      by (simp add: reverseGeocode_resolver_path split: sum.splits place.splits)
  qed
  show ?thesis
    using again_s again_u by (simp add: first_s first_u)
qed

theorem unknown_not_cached_witness:
  "getLocation (calm (answers nowhere) 1000) ready gorakhpur_lat gorakhpur_lng False =
     (Inr \<lparr>r_place = Unknown, r_source = ''local'',
           r_cacheKey = generateCacheKey gorakhpur_lat gorakhpur_lng, r_hitCount = None\<rparr>,
      \<lparr>isInitialized = True, geoCache = [], lookUpCalls = [(gorakhpur_lat, gorakhpur_lng)]\<rparr>)
   \<and> lookUpCalls (snd (getLocation (calm (answers (Some [[gorakhpur]])) 2000)
        (snd (getLocation (calm (answers nowhere) 1000) ready gorakhpur_lat gorakhpur_lng False))
        gorakhpur_lat gorakhpur_lng False)) =
     [(gorakhpur_lat, gorakhpur_lng), (gorakhpur_lat, gorakhpur_lng)]
   \<and> fst (reverseGeocode (calm (answers nowhere) 1000) ready gorakhpur_lat gorakhpur_lng False) =
     Inr \<lparr>r_place = Unknown, r_source = ''local'',
          r_cacheKey = getCacheKey gorakhpur_lat gorakhpur_lng, r_hitCount = None\<rparr>"
proof -
  have init: "isInitialized (ready :: (featured_location, raw_result) service)"
    "isInitialized (ready :: (location, unit) service)"
    by (simp_all add: ready_def)
  have resolver: "lookUp (calm (answers nowhere) 1000) gorakhpur_lat gorakhpur_lng = Inr nowhere"
    by (simp add: calm_def answers_def)
  have none: "formatLocation nowhere = None"
    by (simp add: nowhere_def)
  have empty_s: "False \<or> readFault (calm (answers nowhere) 1000) \<noteq> None
      \<or> find (\<lambda>d. cacheKey d = generateCacheKey gorakhpur_lat gorakhpur_lng)
           (geoCache (ready :: (featured_location, raw_result) service)) = None"
    by (simp add: ready_def)
  have empty_u: "False \<or> readFault (calm (answers nowhere) 1000) \<noteq> None
      \<or> find (\<lambda>d. cacheKey d = getCacheKey gorakhpur_lat gorakhpur_lng)
           (geoCache (ready :: (location, unit) service)) = None"
    by (simp add: ready_def)
  note inst = unknown_not_cached [OF init resolver none empty_s empty_u]
  have "find (\<lambda>d. cacheKey d = generateCacheKey gorakhpur_lat gorakhpur_lng)
           (geoCache (ready :: (featured_location, raw_result) service)) = None"
    by (simp add: ready_def)
  with inst have again: "lookUpCalls (snd (getLocation (calm (answers (Some [[gorakhpur]])) 2000)
        (snd (getLocation (calm (answers nowhere) 1000) ready gorakhpur_lat gorakhpur_lng False))
        gorakhpur_lat gorakhpur_lng False)) =
     lookUpCalls (ready :: (featured_location, raw_result) service)
       @ [(gorakhpur_lat, gorakhpur_lng), (gorakhpur_lat, gorakhpur_lng)]"
    by blast
  from inst have first: "getLocation (calm (answers nowhere) 1000) ready gorakhpur_lat gorakhpur_lng
      False =
     (Inr \<lparr>r_place = Unknown, r_source = ''local'',
           r_cacheKey = generateCacheKey gorakhpur_lat gorakhpur_lng, r_hitCount = None\<rparr>,
      ready\<lparr>lookUpCalls := lookUpCalls (ready :: (featured_location, raw_result) service)
        @ [(gorakhpur_lat, gorakhpur_lng)]\<rparr>)"
    by blast
  from inst have util: "reverseGeocode (calm (answers nowhere) 1000) ready gorakhpur_lat
      gorakhpur_lng False =
     (Inr \<lparr>r_place = Unknown, r_source = ''local'',
           r_cacheKey = getCacheKey gorakhpur_lat gorakhpur_lng, r_hitCount = None\<rparr>,
      ready\<lparr>lookUpCalls := lookUpCalls (ready :: (location, unit) service)
        @ [(gorakhpur_lat, gorakhpur_lng)]\<rparr>)"
    by blast
  show ?thesis
  proof (intro conjI)
    show "getLocation (calm (answers nowhere) 1000) ready gorakhpur_lat gorakhpur_lng False =
     (Inr \<lparr>r_place = Unknown, r_source = ''local'',
           r_cacheKey = generateCacheKey gorakhpur_lat gorakhpur_lng, r_hitCount = None\<rparr>,
      \<lparr>isInitialized = True, geoCache = [], lookUpCalls = [(gorakhpur_lat, gorakhpur_lng)]\<rparr>)"
      using first by (simp add: ready_def)
    show "lookUpCalls (snd (getLocation (calm (answers (Some [[gorakhpur]])) 2000)
        (snd (getLocation (calm (answers nowhere) 1000) ready gorakhpur_lat gorakhpur_lng False))
        gorakhpur_lat gorakhpur_lng False)) =
     [(gorakhpur_lat, gorakhpur_lng), (gorakhpur_lat, gorakhpur_lng)]"
      using again by (simp add: ready_def)
    show "fst (reverseGeocode (calm (answers nowhere) 1000) ready gorakhpur_lat gorakhpur_lng
        False) =
     Inr \<lparr>r_place = Unknown, r_source = ''local'',
          r_cacheKey = getCacheKey gorakhpur_lat gorakhpur_lng, r_hitCount = None\<rparr>"
      using util by simp
  qed
qed


section \<open>Batch results\<close>

text \<open>
  Claim C8. A batch returns one entry per input coordinate, in input order. The \<open>i\<close>-th
  entry comes from one lookup of the \<open>i\<close>-th coordinate, made after the lookups of the
  entries before it: a result is recorded as the entry's location, and a failure as the
  entry's error message with no location, after which the batch goes on with the state
  that lookup left. This holds for \<open>getLocations\<close> of the service class and for
  \<open>reverseGeocodeBatch\<close> of the utility, whose entries also carry \<open>success\<close>.
\<close>

theorem batch_partial_success:
  "length (fst (getLocations ws s cs)) = length cs
   \<and> map (\<lambda>e. (coord_lat e, coord_lng e)) (fst (getLocations ws s cs)) =
       map (\<lambda>c. (coord_lat c, coord_lng c)) cs
   \<and> (\<forall>i<length cs.
        (\<forall>result. fst (getLocation (ws i) (snd (getLocations ws s (take i cs)))
                 (coord_lat (cs ! i)) (coord_lng (cs ! i)) False) = Inr result \<longrightarrow>
              fst (getLocations ws s cs) ! i =
                \<lparr>coord_lat = coord_lat (cs ! i), coord_lng = coord_lng (cs ! i),
                 entry_location = Some result, entry_error = None\<rparr>)
        \<and> (\<forall>err. fst (getLocation (ws i) (snd (getLocations ws s (take i cs)))
                 (coord_lat (cs ! i)) (coord_lng (cs ! i)) False) = Inl err \<longrightarrow>
              fst (getLocations ws s cs) ! i =
                \<lparr>coord_lat = coord_lat (cs ! i), coord_lng = coord_lng (cs ! i),
                 entry_location = None, entry_error = Some (message err)\<rparr>)
        \<and> snd (getLocations ws s (take (Suc i) cs)) =
            snd (getLocation (ws i) (snd (getLocations ws s (take i cs)))
                   (coord_lat (cs ! i)) (coord_lng (cs ! i)) False))
   \<and> length (fst (reverseGeocodeBatch ws u cs)) = length cs
   \<and> map (\<lambda>e. (coord_lat e, coord_lng e)) (fst (reverseGeocodeBatch ws u cs)) =
       map (\<lambda>c. (coord_lat c, coord_lng c)) cs
   \<and> (\<forall>i<length cs.
        (\<forall>result. fst (reverseGeocode (ws i) (snd (reverseGeocodeBatch ws u (take i cs)))
                 (coord_lat (cs ! i)) (coord_lng (cs ! i)) False) = Inr result \<longrightarrow>
              fst (reverseGeocodeBatch ws u cs) ! i =
                \<lparr>coord_lat = coord_lat (cs ! i), coord_lng = coord_lng (cs ! i),
                 entry_location = Some result, entry_error = None, success = True\<rparr>)
        \<and> (\<forall>err. fst (reverseGeocode (ws i) (snd (reverseGeocodeBatch ws u (take i cs)))
                 (coord_lat (cs ! i)) (coord_lng (cs ! i)) False) = Inl err \<longrightarrow>
              fst (reverseGeocodeBatch ws u cs) ! i =
                \<lparr>coord_lat = coord_lat (cs ! i), coord_lng = coord_lng (cs ! i),
                 entry_location = None, entry_error = Some (message err), success = False\<rparr>)
        \<and> snd (reverseGeocodeBatch ws u (take (Suc i) cs)) =
            snd (reverseGeocode (ws i) (snd (reverseGeocodeBatch ws u (take i cs)))
                   (coord_lat (cs ! i)) (coord_lng (cs ! i)) False))"
  using getLocations_step [of _ cs ws s] reverseGeocodeBatch_step [of _ cs ws u]
  by (simp add: getLocations_length getLocations_coords reverseGeocodeBatch_length
      reverseGeocodeBatch_coords)

theorem batch_partial_success_witness:
  "(1 :: nat) < length batch3 \<and> (2 :: nat) < length batch3
   \<and> length (fst (getLocations three_calls ready batch3)) = 3
   \<and> fst (getLocations three_calls ready batch3) ! 1 =
       \<lparr>coord_lat = delhi_lat, coord_lng = delhi_lng,
        entry_location = None, entry_error = Some ''no data''\<rparr>
   \<and> fst (getLocations three_calls ready batch3) ! 2 =
       \<lparr>coord_lat = gorakhpur_lat, coord_lng = gorakhpur_lng,
        entry_location =
          Some \<lparr>r_place = Known gorakhpur_location, r_source = ''cache'',
                r_cacheKey = generateCacheKey gorakhpur_lat gorakhpur_lng,
                r_hitCount = Some 2\<rparr>,
        entry_error = None\<rparr>"
proof -
  note run = getLocation_def Let_def checkCache_def findOneAndUpdate_def lookupLocal_def
    saveToCache_def touch_def overwrite_def fresh_def calm_def store_down_def answers_def
    fails_def ready_def three_calls_def gorakhpur_def gorakhpur_location_def
    getCountryName_def countries_def buildDisplayName_def
  have len: "(1 :: nat) < length batch3" "(2 :: nat) < length batch3" "length batch3 = 3"
    by (simp_all add: batch3_def)
  have second: "fst (getLocation (three_calls 1) (snd (getLocations three_calls ready (take 1 batch3)))
      (coord_lat (batch3 ! 1)) (coord_lng (batch3 ! 1)) False) = Inl (Error ''no data'')"
    by (simp add: batch3_def run)
  have third: "fst (getLocation (three_calls 2) (snd (getLocations three_calls ready (take 2 batch3)))
      (coord_lat (batch3 ! 2)) (coord_lng (batch3 ! 2)) False) =
      Inr \<lparr>r_place = Known gorakhpur_location, r_source = ''cache'',
           r_cacheKey = generateCacheKey gorakhpur_lat gorakhpur_lng, r_hitCount = Some 2\<rparr>"
    by (simp add: batch3_def run)
  note inst = batch_partial_success [of three_calls ready batch3]
  from inst have "length (fst (getLocations three_calls ready batch3)) = 3"
    using len(3) by simp
  moreover from inst len(1) second
  have "fst (getLocations three_calls ready batch3) ! 1 =
       \<lparr>coord_lat = coord_lat (batch3 ! 1), coord_lng = coord_lng (batch3 ! 1),
        entry_location = None, entry_error = Some (message (Error ''no data''))\<rparr>"
    by blast
  moreover from inst len(2) third
  have "fst (getLocations three_calls ready batch3) ! 2 =
       \<lparr>coord_lat = coord_lat (batch3 ! 2), coord_lng = coord_lng (batch3 ! 2),
        entry_location =
          Some \<lparr>r_place = Known gorakhpur_location, r_source = ''cache'',
                r_cacheKey = generateCacheKey gorakhpur_lat gorakhpur_lng,
                r_hitCount = Some 2\<rparr>,
        entry_error = None\<rparr>"
    by blast
  ultimately show ?thesis
    using len(1,2) by (simp add: batch3_def)
qed


section \<open>Batches always consult the cache\<close>




section \<open>Eviction\<close>

lemma deleteMany_older:
  "deleteMany (\<lambda>d. lastAccessedAt d < c) ds =
     (length (filter (\<lambda>d. lastAccessedAt d < c) ds), filter (\<lambda>d. c \<le> lastAccessedAt d) ds)"
  by (simp add: deleteMany_def not_less)

lemma clearOldCache_valid:
  "cutoffDate tz now daysOld = Some c \<Longrightarrow>
   clearOldCache tz now None s (Some daysOld) =
     (Inr (length (filter (\<lambda>d. lastAccessedAt d < c) (geoCache s))),
      s\<lparr>geoCache := filter (\<lambda>d. c \<le> lastAccessedAt d) (geoCache s)\<rparr>)"
  by (simp add: clearOldCache_def castDate_def deleteMany_older)

lemma clearOldCache_invalid:
  "cutoffDate tz now daysOld = None \<Longrightarrow>
   clearOldCache tz now fault s (Some daysOld) = (Inl (CastError ''lastAccessedAt''), s)"
  by (simp add: clearOldCache_def castDate_def)

lemma clearOldCache_util_valid:
  "\<bar>now - daysOld * 86400000\<bar> \<le> 8640000000000000 \<Longrightarrow>
   clearOldCache_util now None s (Some daysOld) =
     (Inr (length (filter (\<lambda>d. lastAccessedAt d < now - daysOld * 86400000) (geoCache s))),
      s\<lparr>geoCache := filter (\<lambda>d. now - daysOld * 86400000 \<le> lastAccessedAt d) (geoCache s)\<rparr>)"
  by (simp add: clearOldCache_util_def cutoff_def TimeClip_def msPerDay_def castDate_def
      deleteMany_older)

lemma clearOldCache_util_invalid:
  "8640000000000000 < \<bar>now - daysOld * 86400000\<bar> \<Longrightarrow>
   clearOldCache_util now fault s (Some daysOld) = (Inl (CastError ''lastAccessedAt''), s)"
  by (simp add: clearOldCache_util_def cutoff_def TimeClip_def msPerDay_def castDate_def)

lemma cutoffDate_fixed_offset:
  "\<bar>now - daysOld * 86400000\<bar> \<le> 8640000000000000 \<Longrightarrow>
   cutoffDate (fixed_offset off) now daysOld = Some (now - daysOld * 86400000)"
  by (simp add: cutoffDate_def fixed_offset_def TimeClip_def msPerDay_def)

lemma length_filter_older:
  "length (filter (\<lambda>d. lastAccessedAt d < c) ds) + length (filter (\<lambda>d. c \<le> lastAccessedAt d) ds)
     = length ds"
  using sum_length_filter_compl [of "\<lambda>d. lastAccessedAt d < c" ds] by (simp add: not_less)

text \<open>
  Claim C7, amended. The cutoff of the service class is the local calendar date moved back
  by \<open>daysOld\<close> days, the same local time of day \<open>daysOld\<close> days earlier; the cutoff of the
  utility is now less \<open>daysOld\<close> times 86400000 ms. They agree in a time zone of constant
  offset. Where the cutoff \<open>c\<close> is a valid date, an eviction that the store does not reject
  keeps exactly the documents whose \<open>lastAccessedAt\<close> is not before \<open>c\<close>, in their order,
  and returns the number of documents it removed: a document last read exactly at \<open>c\<close>
  stays, one read a millisecond earlier goes; nothing else of the state changes. Where the
  cutoff is not a valid date, more than \<open>8.64e15\<close> ms from the epoch, the eviction is
  rejected with a \<open>CastError\<close>, whatever the store does, and the state is as it was. A
  missing \<open>daysOld\<close> stands for 90.
\<close>

theorem eviction_strictly_older:
  "cutoffDate tz now daysOld = TimeClip (UTC tz (LocalTime tz now - daysOld * 86400000))
   \<and> (\<bar>now - daysOld * 86400000\<bar> \<le> 8640000000000000 \<longrightarrow>
        cutoffDate (fixed_offset off) now daysOld = Some (now - daysOld * 86400000))
   \<and> (\<forall>c. cutoffDate tz now daysOld = Some c \<longrightarrow>
        fst (clearOldCache tz now None s (Some daysOld)) =
          Inr (length (filter (\<lambda>d. lastAccessedAt d < c) (geoCache s)))
        \<and> geoCache (snd (clearOldCache tz now None s (Some daysOld))) =
            filter (\<lambda>d. c \<le> lastAccessedAt d) (geoCache s)
        \<and> length (filter (\<lambda>d. lastAccessedAt d < c) (geoCache s))
            + length (geoCache (snd (clearOldCache tz now None s (Some daysOld)))) =
              length (geoCache s)
        \<and> (\<forall>d \<in> set (geoCache s).
             (lastAccessedAt d = c \<longrightarrow>
                d \<in> set (geoCache (snd (clearOldCache tz now None s (Some daysOld)))))
             \<and> (lastAccessedAt d = c - 1 \<longrightarrow>
                d \<notin> set (geoCache (snd (clearOldCache tz now None s (Some daysOld)))))))
   \<and> (cutoffDate tz now daysOld = None \<longrightarrow>
        clearOldCache tz now fault s (Some daysOld) = (Inl (CastError ''lastAccessedAt''), s))
   \<and> isInitialized (snd (clearOldCache tz now fault s (Some daysOld))) = isInitialized s
   \<and> lookUpCalls (snd (clearOldCache tz now fault s (Some daysOld))) = lookUpCalls s
   \<and> clearOldCache tz now fault s None = clearOldCache tz now fault s (Some 90)
   \<and> (\<bar>now - daysOld * 86400000\<bar> \<le> 8640000000000000 \<longrightarrow>
        fst (clearOldCache_util now None s (Some daysOld)) =
          Inr (length (filter (\<lambda>d. lastAccessedAt d < now - daysOld * 86400000) (geoCache s)))
        \<and> geoCache (snd (clearOldCache_util now None s (Some daysOld))) =
            filter (\<lambda>d. now - daysOld * 86400000 \<le> lastAccessedAt d) (geoCache s)
        \<and> clearOldCache_util now None s (Some daysOld) =
            clearOldCache (fixed_offset off) now None s (Some daysOld))
   \<and> (8640000000000000 < \<bar>now - daysOld * 86400000\<bar> \<longrightarrow>
        clearOldCache_util now fault s (Some daysOld) = (Inl (CastError ''lastAccessedAt''), s))
   \<and> isInitialized (snd (clearOldCache_util now fault s (Some daysOld))) = isInitialized s
   \<and> lookUpCalls (snd (clearOldCache_util now fault s (Some daysOld))) = lookUpCalls s
   \<and> clearOldCache_util now fault s None = clearOldCache_util now fault s (Some 90)"
proof -
  have formula: "cutoffDate tz now daysOld =
      TimeClip (UTC tz (LocalTime tz now - daysOld * 86400000))"
    by (simp add: cutoffDate_def msPerDay_def)
  have fixed: "\<bar>now - daysOld * 86400000\<bar> \<le> 8640000000000000 \<longrightarrow>
      cutoffDate (fixed_offset off) now daysOld = Some (now - daysOld * 86400000)"
    by (simp add: cutoffDate_fixed_offset)
  have valid: "\<forall>c. cutoffDate tz now daysOld = Some c \<longrightarrow>
        fst (clearOldCache tz now None s (Some daysOld)) =
          Inr (length (filter (\<lambda>d. lastAccessedAt d < c) (geoCache s)))
        \<and> geoCache (snd (clearOldCache tz now None s (Some daysOld))) =
            filter (\<lambda>d. c \<le> lastAccessedAt d) (geoCache s)
        \<and> length (filter (\<lambda>d. lastAccessedAt d < c) (geoCache s))
            + length (geoCache (snd (clearOldCache tz now None s (Some daysOld)))) =
              length (geoCache s)
        \<and> (\<forall>d \<in> set (geoCache s).
             (lastAccessedAt d = c \<longrightarrow>
                d \<in> set (geoCache (snd (clearOldCache tz now None s (Some daysOld)))))
             \<and> (lastAccessedAt d = c - 1 \<longrightarrow>
                d \<notin> set (geoCache (snd (clearOldCache tz now None s (Some daysOld))))))"
    by (simp add: clearOldCache_valid length_filter_older)
  have invalid: "cutoffDate tz now daysOld = None \<longrightarrow>
        clearOldCache tz now fault s (Some daysOld) = (Inl (CastError ''lastAccessedAt''), s)"
    by (simp add: clearOldCache_invalid)
  have rest: "isInitialized (snd (clearOldCache tz now fault s (Some daysOld))) = isInitialized s"
    "lookUpCalls (snd (clearOldCache tz now fault s (Some daysOld))) = lookUpCalls s"
    "clearOldCache tz now fault s None = clearOldCache tz now fault s (Some 90)"
    by (simp_all add: clearOldCache_def castDate_def deleteMany_def
        split: option.splits sum.splits)
  have uvalid: "\<bar>now - daysOld * 86400000\<bar> \<le> 8640000000000000 \<longrightarrow>
        fst (clearOldCache_util now None s (Some daysOld)) =
          Inr (length (filter (\<lambda>d. lastAccessedAt d < now - daysOld * 86400000) (geoCache s)))
        \<and> geoCache (snd (clearOldCache_util now None s (Some daysOld))) =
            filter (\<lambda>d. now - daysOld * 86400000 \<le> lastAccessedAt d) (geoCache s)
        \<and> clearOldCache_util now None s (Some daysOld) =
            clearOldCache (fixed_offset off) now None s (Some daysOld)"
    by (simp add: clearOldCache_util_valid clearOldCache_valid [OF cutoffDate_fixed_offset])
  have uinvalid: "8640000000000000 < \<bar>now - daysOld * 86400000\<bar> \<longrightarrow>
        clearOldCache_util now fault s (Some daysOld) = (Inl (CastError ''lastAccessedAt''), s)"
    by (simp add: clearOldCache_util_invalid)
  have urest:
    "isInitialized (snd (clearOldCache_util now fault s (Some daysOld))) = isInitialized s"
    "lookUpCalls (snd (clearOldCache_util now fault s (Some daysOld))) = lookUpCalls s"
    "clearOldCache_util now fault s None = clearOldCache_util now fault s (Some 90)"
    by (simp_all add: clearOldCache_util_def castDate_def deleteMany_def
        split: option.splits sum.splits)
  show ?thesis
    using formula fixed valid invalid rest uvalid uinvalid urest by (intro conjI)
qed

theorem eviction_strictly_older_witness:
  "cutoffDate (fixed_offset 19800000) 864000000 3 = Some 604800000
   \<and> seen_at ''a'' 604800000 \<in> set (geoCache (aged 604800000))
   \<and> seen_at ''b'' 604799999 \<in> set (geoCache (aged 604800000))
   \<and> fst (clearOldCache (fixed_offset 19800000) 864000000 None (aged 604800000) (Some 3)) = Inr 1
   \<and> geoCache (snd (clearOldCache (fixed_offset 19800000) 864000000 None (aged 604800000)
        (Some 3))) =
       [seen_at ''a'' 604800000, seen_at ''c'' 604800001]
   \<and> clearOldCache_util 864000000 None (aged 604800000) (Some 3) =
       clearOldCache (fixed_offset 19800000) 864000000 None (aged 604800000) (Some 3)
   \<and> cutoffDate new_york 1710504000000 10 = Some 1709643600000
   \<and> fst (clearOldCache new_york 1710504000000 None (aged 1709643600000) (Some 10)) = Inr 1
   \<and> cutoffDate (fixed_offset 0) 1710504000000 200000000 = None
   \<and> clearOldCache (fixed_offset 0) 1710504000000 (Some ''down'') (aged 0) (Some 200000000) =
       (Inl (CastError ''lastAccessedAt''), aged 0)
   \<and> clearOldCache_util 1710504000000 (Some ''down'') (aged 0) (Some 200000000) =
       (Inl (CastError ''lastAccessedAt''), aged 0)"
proof -
  note inst = eviction_strictly_older
    [of "fixed_offset 19800000" 864000000 3 19800000 "aged 604800000" None]
  have range: "\<bar>864000000 - 3 * 86400000 :: int\<bar> \<le> 8640000000000000"
    by simp
  from inst [THEN conjunct2, THEN conjunct1, rule_format, OF range]
  have c: "cutoffDate (fixed_offset 19800000) 864000000 3 = Some 604800000"
    by simp
  note valid = inst [THEN conjunct2, THEN conjunct2, THEN conjunct1, rule_format, OF c]
  have stamps: "lastAccessedAt (seen_at k t) = t" for k t
    by (simp add: seen_at_def fresh_def)
  from valid [THEN conjunct1]
  have count: "fst (clearOldCache (fixed_offset 19800000) 864000000 None (aged 604800000)
      (Some 3)) = Inr 1"
    by (simp add: aged_def stamps)
  from valid [THEN conjunct2, THEN conjunct1]
  have kept: "geoCache (snd (clearOldCache (fixed_offset 19800000) 864000000 None
        (aged 604800000) (Some 3))) = [seen_at ''a'' 604800000, seen_at ''c'' 604800001]"
    by (simp add: aged_def stamps)
  have members: "seen_at ''a'' 604800000 \<in> set (geoCache (aged 604800000))"
    "seen_at ''b'' 604799999 \<in> set (geoCache (aged 604800000))"
    by (simp_all add: aged_def)
  from inst [THEN conjunct2, THEN conjunct2, THEN conjunct2, THEN conjunct2, THEN conjunct2,
      THEN conjunct2, THEN conjunct2, THEN conjunct1, rule_format, OF range]
  have same: "clearOldCache_util 864000000 None (aged 604800000) (Some 3) =
       clearOldCache (fixed_offset 19800000) 864000000 None (aged 604800000) (Some 3)"
    by (rule conjunct2 [THEN conjunct2])
  note dst = eviction_strictly_older
    [of new_york 1710504000000 10 0 "aged 1709643600000" None]
  from dst [THEN conjunct1]
  have d: "cutoffDate new_york 1710504000000 10 = Some 1709643600000"
    by (simp add: new_york_def TimeClip_def)
  from dst [THEN conjunct2, THEN conjunct2, THEN conjunct1, rule_format, OF d, THEN conjunct1]
  have dcount: "fst (clearOldCache new_york 1710504000000 None (aged 1709643600000) (Some 10)) =
      Inr 1"
    by (simp add: aged_def stamps)
  note far = eviction_strictly_older
    [of "fixed_offset 0" 1710504000000 200000000 0 "aged 0" "Some ''down''"]
  from far [THEN conjunct1]
  have n: "cutoffDate (fixed_offset 0) 1710504000000 200000000 = None"
    by (simp add: fixed_offset_def TimeClip_def)
  from far [THEN conjunct2, THEN conjunct2, THEN conjunct2, THEN conjunct1, rule_format, OF n]
  have rejected: "clearOldCache (fixed_offset 0) 1710504000000 (Some ''down'') (aged 0)
      (Some 200000000) = (Inl (CastError ''lastAccessedAt''), aged 0)" .
  have out: "8640000000000000 < \<bar>1710504000000 - 200000000 * 86400000 :: int\<bar>"
    by simp
  from far [THEN conjunct2, THEN conjunct2, THEN conjunct2, THEN conjunct2, THEN conjunct2,
      THEN conjunct2, THEN conjunct2, THEN conjunct2, THEN conjunct1, rule_format, OF out]
  have urejected: "clearOldCache_util 1710504000000 (Some ''down'') (aged 0) (Some 200000000) =
      (Inl (CastError ''lastAccessedAt''), aged 0)" .
  show ?thesis
    using c members count kept same d dcount n rejected urejected by (intro conjI)
qed

text \<open>
  The claim as it stands fails in two ways. In a time zone with daylight saving time the
  cutoff of the service class is not now less \<open>daysOld\<close> days: on 15 March 2024, 12:00 UTC,
  in New York, ten days back is an hour later than 240 hours back, and the three documents
  last read half an hour after now less ten days, which the utility keeps, are removed.
  And for 200000000 days the cutoff is not a valid date: both evictions are rejected and
  return no count.
\<close>

theorem eviction_cutoff_counterexample:
  "cutoffDate new_york 1710504000000 10 = Some (1710504000000 - 10 * 86400000 + 3600000)
   \<and> list_all (\<lambda>d. 1710504000000 - 10 * 86400000 \<le> lastAccessedAt d)
       (geoCache (aged 1709641800000))
   \<and> clearOldCache new_york 1710504000000 None (aged 1709641800000) (Some 10) =
       (Inr 3, (aged 1709641800000)\<lparr>geoCache := []\<rparr>)
   \<and> clearOldCache_util 1710504000000 None (aged 1709641800000) (Some 10) =
       (Inr 0, aged 1709641800000)
   \<and> clearOldCache (fixed_offset 0) 1710504000000 None (aged 0) (Some 200000000) =
       (Inl (CastError ''lastAccessedAt''), aged 0)
   \<and> clearOldCache_util 1710504000000 None (aged 0) (Some 200000000) =
       (Inl (CastError ''lastAccessedAt''), aged 0)"
  by (simp add: clearOldCache_def clearOldCache_util_def cutoffDate_def cutoff_def TimeClip_def
      msPerDay_def castDate_def deleteMany_def new_york_def fixed_offset_def aged_def
      seen_at_def fresh_def)


section \<open>Formatted fields\<close>

text \<open>
  What the formatter builds from the first candidate of the first list, field by field.
  The country name is the table's name for a known code and the code itself otherwise,
  and it is undefined when the candidate has no country code. For admin names that are
  strings, the display name joins with \<open>', '\<close> the non-empty ones among the name, the
  second-level name where it differs from the name, the first-level name and the country
  name.
\<close>

lemma countries_named: "map_of countries code = Some n \<Longrightarrow> n \<noteq> []"
  by (auto simp: countries_def split: if_splits)

lemma COUNTRY_NAMES_named: "map_of COUNTRY_NAMES code = Some n \<Longrightarrow> n \<noteq> []"
  by (auto simp: COUNTRY_NAMES_def split: if_splits)

lemma lookup_or_code_Some:
  "(\<And>n. map_of table code = Some n \<Longrightarrow> n \<noteq> []) \<Longrightarrow>
   lookup_or_code table (Some code) =
     Some (case map_of table code of Some n \<Rightarrow> n | None \<Rightarrow> code)"
  by (cases "map_of table code") auto

lemma formatLocation_fields:
  "formatLocation (Some ((data # r) # rs)) = Some loc \<Longrightarrow>
   name loc = or_empty (data_name data)
   \<and> adminName1 loc = adminName (data_admin1Code data)
   \<and> adminName2 loc = adminName (data_admin2Code data)
   \<and> countryCode loc = or_empty (data_countryCode data)
   \<and> population loc = or_zero (data_population data)
   \<and> featureCode loc = or_empty (data_featureCode data)
   \<and> countryName loc =
       (case data_countryCode data of
          None \<Rightarrow> None
        | Some code \<Rightarrow> Some (case map_of countries code of Some n \<Rightarrow> n | None \<Rightarrow> code))"
proof -
  assume "formatLocation (Some ((data # r) # rs)) = Some loc"
  then have loc: "loc =
     \<lparr>name = or_empty (data_name data),
      adminName1 = adminName (data_admin1Code data),
      adminName2 = adminName (data_admin2Code data),
      countryCode = or_empty (data_countryCode data),
      countryName = getCountryName (data_countryCode data),
      population = or_zero (data_population data),
      displayName =
        buildDisplayName (or_empty (data_name data)) (adminName (data_admin2Code data))
          (adminName (data_admin1Code data)) (getCountryName (data_countryCode data)),
      featureCode = or_empty (data_featureCode data)\<rparr>"
    by simp
  have "getCountryName (data_countryCode data) =
       (case data_countryCode data of
          None \<Rightarrow> None
        | Some code \<Rightarrow> Some (case map_of countries code of Some n \<Rightarrow> n | None \<Rightarrow> code))"
  proof (cases "data_countryCode data")
    case None
    then show ?thesis by (simp add: getCountryName_def)
  next
    case (Some code)
    show ?thesis
      unfolding getCountryName_def Some
      using lookup_or_code_Some [of countries code, OF countries_named] by simp
  qed
  then show ?thesis
    by (simp add: loc)
qed

lemma displayName_assembly:
  "buildDisplayName nm (Text a2) (Text a1) cn =
     join '', '' (filter (\<lambda>s. s \<noteq> [])
       [nm, if a2 \<noteq> nm then a2 else [], a1, or_empty cn])"
  by (simp add: buildDisplayName_def)

text \<open>
  Claim C6. At a candidate that has a name and no country code, the formatted location
  has the empty string for every other absent string field and 0 for the population, but
  its \<open>countryName\<close> is undefined (\<open>None\<close>), not the empty string; the display name is the
  name alone. The utility's formatter does the same.
\<close>

theorem countryName_undefined_without_code:
  "formatLocation (Some [[atlantis]]) =
     Some \<lparr>name = ''Atlantis'', adminName1 = Text [], adminName2 = Text [],
           countryCode = [], countryName = None, population = 0,
           displayName = ''Atlantis'', featureCode = []\<rparr>
   \<and> formatLocation_util (Some [[atlantis]]) =
     Known \<lparr>name = ''Atlantis'', adminName1 = Text [], adminName2 = Text [],
            countryCode = [], countryName = None, population = 0,
            displayName = ''Atlantis''\<rparr>"
  by (simp add: atlantis_def getCountryName_def buildDisplayName_def)


section \<open>The hit counter\<close>

lemma lookups_positive:
  "\<forall>d \<in> set (geoCache s). 1 \<le> hitCount d \<Longrightarrow>
   \<forall>d \<in> set (geoCache (lookups calls s)). 1 \<le> hitCount d"
proof (induction calls arbitrary: s)
  case Nil
  then show ?case by simp
next
  case (Cons c calls)
  obtain w lat lng skipCache where c: "c = (w, lat, lng, skipCache)"
    by (cases c) auto
  from cache_step_positive [OF getLocation_step Cons.prems]
  have "\<forall>d \<in> set (geoCache (snd (getLocation w s lat lng skipCache))). 1 \<le> hitCount d" .
  from Cons.IH [OF this] show ?case by (simp add: c)
qed

lemma lookups_util_positive:
  "\<forall>d \<in> set (geoCache s). 1 \<le> hitCount d \<Longrightarrow>
   \<forall>d \<in> set (geoCache (lookups_util calls s)). 1 \<le> hitCount d"
proof (induction calls arbitrary: s)
  case Nil
  then show ?case by simp
next
  case (Cons c calls)
  obtain w lat lng skipCache where c: "c = (w, lat, lng, skipCache)"
    by (cases c) auto
  from cache_step_positive [OF reverseGeocode_step Cons.prems]
  have "\<forall>d \<in> set (geoCache (snd (reverseGeocode w s lat lng skipCache))). 1 \<le> hitCount d" .
  from Cons.IH [OF this] show ?case by (simp add: c)
qed

lemma lookups_monotone:
  assumes "\<forall>(w, lat, lng, skipCache) \<in> set calls. \<not> skipCache \<and> readFault w = None"
    and "i < length (geoCache s)"
  shows "i < length (geoCache (lookups calls s))
       \<and> hitCount (geoCache s ! i) \<le> hitCount (geoCache (lookups calls s) ! i)"
  using assms
proof (induction calls arbitrary: s)
  case Nil
  then show ?case by simp
next
  case (Cons c calls)
  obtain w lat lng skipCache where c: "c = (w, lat, lng, skipCache)"
    by (cases c) auto
  let ?s1 = "snd (getLocation w s lat lng skipCache)"
  from Cons.prems(1) c have quiet: "\<not> skipCache" "readFault w = None" by auto
  from getLocation_step [of skipCache w s lat lng] quiet
  have step: "cache_step False (geoCache s) (geoCache ?s1)" by simp
  from cache_step_length [OF step] Cons.prems(2) have i: "i < length (geoCache ?s1)" by simp
  from Cons.prems(1) have "\<forall>(w, lat, lng, skipCache) \<in> set calls. \<not> skipCache \<and> readFault w = None"
    by simp
  from Cons.IH [OF this i] cache_step_monotone [OF step Cons.prems(2)]
  show ?case by (simp add: c)
qed

lemma lookups_util_monotone:
  assumes "\<forall>(w, lat, lng, skipCache) \<in> set calls. \<not> skipCache \<and> readFault w = None"
    and "i < length (geoCache s)"
  shows "i < length (geoCache (lookups_util calls s))
       \<and> hitCount (geoCache s ! i) \<le> hitCount (geoCache (lookups_util calls s) ! i)"
  using assms
proof (induction calls arbitrary: s)
  case Nil
  then show ?case by simp
next
  case (Cons c calls)
  obtain w lat lng skipCache where c: "c = (w, lat, lng, skipCache)"
    by (cases c) auto
  let ?s1 = "snd (reverseGeocode w s lat lng skipCache)"
  from Cons.prems(1) c have quiet: "\<not> skipCache" "readFault w = None" by auto
  from reverseGeocode_step [of skipCache w s lat lng] quiet
  have step: "cache_step False (geoCache s) (geoCache ?s1)" by simp
  from cache_step_length [OF step] Cons.prems(2) have i: "i < length (geoCache ?s1)" by simp
  from Cons.prems(1) have "\<forall>(w, lat, lng, skipCache) \<in> set calls. \<not> skipCache \<and> readFault w = None"
    by simp
  from Cons.IH [OF this i] cache_step_monotone [OF step Cons.prems(2)]
  show ?case by (simp add: c)
qed

lemma forced_write:
  assumes "skipCache \<or> readFault w \<noteq> None" and "writeFault w = None"
    and "find (\<lambda>d. cacheKey d = key) (geoCache s) = Some d"
  shows "find (\<lambda>d. cacheKey d = key) (geoCache (saveToCache w key lat lng loc raw s)) =
     Some (d\<lparr>cacheKey := key, latitude := lat, longitude := lng, location := loc,
             rawResponse := raw, hitCount := 1, lastAccessedAt := writeClock w\<rparr>)"
  using find_update_first [OF assms(3), of "overwrite key lat lng loc raw (writeClock w)"]
  by (simp add: saveToCache_overwrite [OF assms(2,3)] overwrite_def)

lemma write_resets:
  assumes "writeFault w = None" and "find (\<lambda>d. cacheKey d = key) (geoCache s) = Some d"
  shows "find (\<lambda>d. cacheKey d = key) (geoCache (saveToCache w key lat lng loc raw s)) =
     Some (d\<lparr>cacheKey := key, latitude := lat, longitude := lng, location := loc,
             rawResponse := raw, hitCount := 1, lastAccessedAt := writeClock w\<rparr>)"
  using find_update_first [OF assms(2), of "overwrite key lat lng loc raw (writeClock w)"]
  by (simp add: saveToCache_overwrite [OF assms] overwrite_def)

lemma checkCache_step:
  assumes "checkCache w key s = Some (cached, s')"
  shows "cache_step False (geoCache s) (geoCache s')"
proof -
  from checkCache_cases [of w key s] assms have
    "s' = s\<lparr>geoCache :=
       update_first (\<lambda>d. cacheKey d = key) (touch (readClock w)) (geoCache s)\<rparr>"
    by auto
  then have "geoCache s' =
      update_first (\<lambda>d. cacheKey d = key) (touch (readClock w)) (geoCache s)"
    by simp
  then have "\<exists>p now. geoCache s' = update_first p (touch now) (geoCache s)"
    by blast
  then show ?thesis
    by (simp add: cache_step_def)
qed

text \<open>
  Claim C1, amended. The cache write names \<open>hitCount: 1\<close> among the fields it sets. A
  document that the write creates starts at 1. A document that the write finds under its
  key, in whatever state the collection is when the write arrives, is overwritten: its
  \<open>hitCount\<close> is set back to 1 together with the location, the raw response, the
  coordinates and \<open>lastAccessedAt\<close>, and its \<open>createdAt\<close> stays. That is what a lookup does
  to a stored key when it bypasses the cache or when its cache read is rejected, and what
  the write of a lookup does to a document that another lookup has stored since the first
  one's cache read. A hit adds 1. Every cache read and every cache write keeps every
  \<open>hitCount\<close> at least 1, so every \<open>hitCount\<close> starts at 1 and stays at least 1; and
  across a sequence of lookups that run one after the other and neither bypass the cache
  nor have their cache read rejected no \<open>hitCount\<close> decreases. This holds for the service
  class and for the utility.
\<close>

theorem hitCount_one_on_write:
  "((\<forall>d \<in> set (geoCache s). 1 \<le> hitCount d) \<longrightarrow>
      (\<forall>d \<in> set (geoCache (lookups calls s)). 1 \<le> hitCount d))
   \<and> ((\<forall>(w, lat, lng, skipCache) \<in> set calls. \<not> skipCache \<and> readFault w = None) \<longrightarrow>
      (\<forall>i < length (geoCache s).
         i < length (geoCache (lookups calls s))
         \<and> hitCount (geoCache s ! i) \<le> hitCount (geoCache (lookups calls s) ! i)))
   \<and> (\<forall>i. length (geoCache s) \<le> i
          \<and> i < length (geoCache (snd (getLocation w s lat lng skipCache))) \<longrightarrow>
        hitCount (geoCache (snd (getLocation w s lat lng skipCache)) ! i) = 1)
   \<and> (\<forall>d raw loc.
        isInitialized s \<and> (skipCache \<or> readFault w \<noteq> None) \<and> writeFault w = None
        \<and> lookUp w lat lng = Inr raw \<and> formatLocation raw = Some loc
        \<and> find (\<lambda>d. cacheKey d = generateCacheKey lat lng) (geoCache s) = Some d \<longrightarrow>
        find (\<lambda>d. cacheKey d = generateCacheKey lat lng)
          (geoCache (snd (getLocation w s lat lng skipCache))) =
          Some (d\<lparr>cacheKey := generateCacheKey lat lng, latitude := lat, longitude := lng,
                  location := loc, rawResponse := raw, hitCount := 1,
                  lastAccessedAt := writeClock w\<rparr>))
   \<and> (\<forall>d. isInitialized s \<and> readFault w = None
        \<and> find (\<lambda>d. cacheKey d = generateCacheKey lat lng) (geoCache s) = Some d \<longrightarrow>
        find (\<lambda>d. cacheKey d = generateCacheKey lat lng)
          (geoCache (snd (getLocation w s lat lng False))) =
          Some (d\<lparr>hitCount := hitCount d + 1, lastAccessedAt := readClock w\<rparr>))
   \<and> ((\<forall>d \<in> set (geoCache u). 1 \<le> hitCount d) \<longrightarrow>
      (\<forall>d \<in> set (geoCache (lookups_util calls u)). 1 \<le> hitCount d))
   \<and> ((\<forall>(w, lat, lng, skipCache) \<in> set calls. \<not> skipCache \<and> readFault w = None) \<longrightarrow>
      (\<forall>i < length (geoCache u).
         i < length (geoCache (lookups_util calls u))
         \<and> hitCount (geoCache u ! i) \<le> hitCount (geoCache (lookups_util calls u) ! i)))
   \<and> (\<forall>d raw l.
        isInitialized u \<and> (skipCache \<or> readFault w \<noteq> None) \<and> writeFault w = None
        \<and> lookUp w lat lng = Inr raw \<and> formatLocation_util raw = Known l
        \<and> name l \<noteq> ''Unknown''
        \<and> find (\<lambda>d. cacheKey d = getCacheKey lat lng) (geoCache u) = Some d \<longrightarrow>
        find (\<lambda>d. cacheKey d = getCacheKey lat lng)
          (geoCache (snd (reverseGeocode w u lat lng skipCache))) =
          Some (d\<lparr>cacheKey := getCacheKey lat lng, latitude := lat, longitude := lng,
                  location := l, rawResponse := (), hitCount := 1,
                  lastAccessedAt := writeClock w\<rparr>))
   \<and> (\<forall>d. writeFault w = None \<and> find (\<lambda>d. cacheKey d = key) (geoCache t) = Some d \<longrightarrow>
        find (\<lambda>d. cacheKey d = key) (geoCache (saveToCache w key lat lng x y t)) =
          Some (d\<lparr>cacheKey := key, latitude := lat, longitude := lng, location := x,
                  rawResponse := y, hitCount := 1, lastAccessedAt := writeClock w\<rparr>))
   \<and> (writeFault w = None \<and> find (\<lambda>d. cacheKey d = key) (geoCache t) = None \<longrightarrow>
        geoCache (saveToCache w key lat lng x y t) =
          geoCache t @
            [\<lparr>cacheKey = key, latitude = lat, longitude = lng, location = x, rawResponse = y,
              createdAt = writeClock w, hitCount = 1, lastAccessedAt = writeClock w\<rparr>])
   \<and> ((\<forall>d \<in> set (geoCache t). 1 \<le> hitCount d) \<longrightarrow>
        (\<forall>d \<in> set (geoCache (saveToCache w key lat lng x y t)). 1 \<le> hitCount d))
   \<and> (\<forall>cached t'. checkCache w key t = Some (cached, t')
          \<and> (\<forall>d \<in> set (geoCache t). 1 \<le> hitCount d) \<longrightarrow>
        (\<forall>d \<in> set (geoCache t'). 1 \<le> hitCount d))"
proof -
  have calls: "((\<forall>d \<in> set (geoCache s). 1 \<le> hitCount d) \<longrightarrow>
      (\<forall>d \<in> set (geoCache (lookups calls s)). 1 \<le> hitCount d))
   \<and> ((\<forall>(w, lat, lng, skipCache) \<in> set calls. \<not> skipCache \<and> readFault w = None) \<longrightarrow>
      (\<forall>i < length (geoCache s).
         i < length (geoCache (lookups calls s))
         \<and> hitCount (geoCache s ! i) \<le> hitCount (geoCache (lookups calls s) ! i)))
   \<and> (\<forall>i. length (geoCache s) \<le> i
          \<and> i < length (geoCache (snd (getLocation w s lat lng skipCache))) \<longrightarrow>
        hitCount (geoCache (snd (getLocation w s lat lng skipCache)) ! i) = 1)
   \<and> (\<forall>d raw loc.
        isInitialized s \<and> (skipCache \<or> readFault w \<noteq> None) \<and> writeFault w = None
        \<and> lookUp w lat lng = Inr raw \<and> formatLocation raw = Some loc
        \<and> find (\<lambda>d. cacheKey d = generateCacheKey lat lng) (geoCache s) = Some d \<longrightarrow>
        find (\<lambda>d. cacheKey d = generateCacheKey lat lng)
          (geoCache (snd (getLocation w s lat lng skipCache))) =
          Some (d\<lparr>cacheKey := generateCacheKey lat lng, latitude := lat, longitude := lng,
                  location := loc, rawResponse := raw, hitCount := 1,
                  lastAccessedAt := writeClock w\<rparr>))
   \<and> (\<forall>d. isInitialized s \<and> readFault w = None
        \<and> find (\<lambda>d. cacheKey d = generateCacheKey lat lng) (geoCache s) = Some d \<longrightarrow>
        find (\<lambda>d. cacheKey d = generateCacheKey lat lng)
          (geoCache (snd (getLocation w s lat lng False))) =
          Some (d\<lparr>hitCount := hitCount d + 1, lastAccessedAt := readClock w\<rparr>))
   \<and> ((\<forall>d \<in> set (geoCache u). 1 \<le> hitCount d) \<longrightarrow>
      (\<forall>d \<in> set (geoCache (lookups_util calls u)). 1 \<le> hitCount d))
   \<and> ((\<forall>(w, lat, lng, skipCache) \<in> set calls. \<not> skipCache \<and> readFault w = None) \<longrightarrow>
      (\<forall>i < length (geoCache u).
         i < length (geoCache (lookups_util calls u))
         \<and> hitCount (geoCache u ! i) \<le> hitCount (geoCache (lookups_util calls u) ! i)))
   \<and> (\<forall>d raw l.
        isInitialized u \<and> (skipCache \<or> readFault w \<noteq> None) \<and> writeFault w = None
        \<and> lookUp w lat lng = Inr raw \<and> formatLocation_util raw = Known l
        \<and> name l \<noteq> ''Unknown''
        \<and> find (\<lambda>d. cacheKey d = getCacheKey lat lng) (geoCache u) = Some d \<longrightarrow>
        find (\<lambda>d. cacheKey d = getCacheKey lat lng)
          (geoCache (snd (reverseGeocode w u lat lng skipCache))) =
          Some (d\<lparr>cacheKey := getCacheKey lat lng, latitude := lat, longitude := lng,
                  location := l, rawResponse := (), hitCount := 1,
                  lastAccessedAt := writeClock w\<rparr>))"
  proof -
    have positive: "(\<forall>d \<in> set (geoCache s). 1 \<le> hitCount d) \<longrightarrow>
        (\<forall>d \<in> set (geoCache (lookups calls s)). 1 \<le> hitCount d)"
      using lookups_positive [of s calls] by blast
    have upositive: "(\<forall>d \<in> set (geoCache u). 1 \<le> hitCount d) \<longrightarrow>
        (\<forall>d \<in> set (geoCache (lookups_util calls u)). 1 \<le> hitCount d)"
      using lookups_util_positive [of u calls] by blast
    have monotone: "(\<forall>(w, lat, lng, skipCache) \<in> set calls. \<not> skipCache \<and> readFault w = None) \<longrightarrow>
        (\<forall>i < length (geoCache s).
           i < length (geoCache (lookups calls s))
           \<and> hitCount (geoCache s ! i) \<le> hitCount (geoCache (lookups calls s) ! i))"
      by (intro impI allI) (rule lookups_monotone)
    have umonotone: "(\<forall>(w, lat, lng, skipCache) \<in> set calls. \<not> skipCache \<and> readFault w = None) \<longrightarrow>
        (\<forall>i < length (geoCache u).
           i < length (geoCache (lookups_util calls u))
           \<and> hitCount (geoCache u ! i) \<le> hitCount (geoCache (lookups_util calls u) ! i))"
      by (intro impI allI) (rule lookups_util_monotone)
    have created: "\<forall>i. length (geoCache s) \<le> i
            \<and> i < length (geoCache (snd (getLocation w s lat lng skipCache))) \<longrightarrow>
          hitCount (geoCache (snd (getLocation w s lat lng skipCache)) ! i) = 1"
      using cache_step_created [OF getLocation_step] by blast
    have reset: "find (\<lambda>d. cacheKey d = generateCacheKey lat lng)
            (geoCache (snd (getLocation w s lat lng skipCache))) =
            Some (d\<lparr>cacheKey := generateCacheKey lat lng, latitude := lat, longitude := lng,
                    location := loc, rawResponse := raw, hitCount := 1,
                    lastAccessedAt := writeClock w\<rparr>)"
      if "isInitialized s \<and> (skipCache \<or> readFault w \<noteq> None) \<and> writeFault w = None
          \<and> lookUp w lat lng = Inr raw \<and> formatLocation raw = Some loc
          \<and> find (\<lambda>d. cacheKey d = generateCacheKey lat lng) (geoCache s) = Some d" for d raw loc
    proof -
      from that have that': "isInitialized s" "skipCache \<or> readFault w \<noteq> None" "writeFault w = None"
        "lookUp w lat lng = Inr raw" "formatLocation raw = Some loc"
        "find (\<lambda>d. cacheKey d = generateCacheKey lat lng) (geoCache s) = Some d"
        by simp_all
      have "skipCache \<or> checkCache w (generateCacheKey lat lng) s = None"
        using that'(2) checkCache_fault by (metis not_None_eq)
      from getLocation_resolver_path [OF that'(1) this]
      have "snd (getLocation w s lat lng skipCache) =
          saveToCache w (generateCacheKey lat lng) lat lng loc raw
            (s\<lparr>lookUpCalls := lookUpCalls s @ [(lat, lng)]\<rparr>)"
        using that'(4,5) by simp
      then show ?thesis
        using forced_write [OF that'(2,3), of "generateCacheKey lat lng"
            "s\<lparr>lookUpCalls := lookUpCalls s @ [(lat, lng)]\<rparr>" d lat lng loc raw] that'(6)
        by simp
    qed
    have hit: "find (\<lambda>d. cacheKey d = generateCacheKey lat lng)
            (geoCache (snd (getLocation w s lat lng False))) =
            Some (d\<lparr>hitCount := hitCount d + 1, lastAccessedAt := readClock w\<rparr>)"
      if "isInitialized s \<and> readFault w = None
          \<and> find (\<lambda>d. cacheKey d = generateCacheKey lat lng) (geoCache s) = Some d" for d
    proof -
      from that have that': "isInitialized s" "readFault w = None"
        "find (\<lambda>d. cacheKey d = generateCacheKey lat lng) (geoCache s) = Some d"
        by simp_all
      show ?thesis
        using getLocation_hit [OF that'(1) checkCache_hit [OF that'(2,3)]]
          find_update_first [OF that'(3), of "touch (readClock w)"] find_key [OF that'(3)]
        by (simp add: touch_def)
    qed
    have ureset: "find (\<lambda>d. cacheKey d = getCacheKey lat lng)
            (geoCache (snd (reverseGeocode w u lat lng skipCache))) =
            Some (d\<lparr>cacheKey := getCacheKey lat lng, latitude := lat, longitude := lng,
                    location := l, rawResponse := (), hitCount := 1,
                    lastAccessedAt := writeClock w\<rparr>)"
      if "isInitialized u \<and> (skipCache \<or> readFault w \<noteq> None) \<and> writeFault w = None
          \<and> lookUp w lat lng = Inr raw \<and> formatLocation_util raw = Known l
          \<and> name l \<noteq> ''Unknown''
          \<and> find (\<lambda>d. cacheKey d = getCacheKey lat lng) (geoCache u) = Some d" for d raw l
    proof -
      from that have that': "isInitialized u" "skipCache \<or> readFault w \<noteq> None" "writeFault w = None"
        "lookUp w lat lng = Inr raw" "formatLocation_util raw = Known l" "name l \<noteq> ''Unknown''"
        "find (\<lambda>d. cacheKey d = getCacheKey lat lng) (geoCache u) = Some d"
        by simp_all
      have "skipCache \<or> checkCache w (getCacheKey lat lng) u = None"
        using that'(2) checkCache_fault by (metis not_None_eq)
      from reverseGeocode_resolver_path [OF that'(1) this]
      have "snd (reverseGeocode w u lat lng skipCache) =
          saveToCache w (getCacheKey lat lng) lat lng l ()
            (u\<lparr>lookUpCalls := lookUpCalls u @ [(lat, lng)]\<rparr>)"
        using that'(4,5,6) by simp
      then show ?thesis
        using forced_write [OF that'(2,3), of "getCacheKey lat lng"
            "u\<lparr>lookUpCalls := lookUpCalls u @ [(lat, lng)]\<rparr>" d lat lng l "()"] that'(7)
        by simp
    qed
    have reset_all: "\<forall>d raw loc.
          isInitialized s \<and> (skipCache \<or> readFault w \<noteq> None) \<and> writeFault w = None
          \<and> lookUp w lat lng = Inr raw \<and> formatLocation raw = Some loc
          \<and> find (\<lambda>d. cacheKey d = generateCacheKey lat lng) (geoCache s) = Some d \<longrightarrow>
          find (\<lambda>d. cacheKey d = generateCacheKey lat lng)
            (geoCache (snd (getLocation w s lat lng skipCache))) =
            Some (d\<lparr>cacheKey := generateCacheKey lat lng, latitude := lat, longitude := lng,
                    location := loc, rawResponse := raw, hitCount := 1,
                    lastAccessedAt := writeClock w\<rparr>)"
      by (intro allI impI) (rule reset)
    have hit_all: "\<forall>d. isInitialized s \<and> readFault w = None
          \<and> find (\<lambda>d. cacheKey d = generateCacheKey lat lng) (geoCache s) = Some d \<longrightarrow>
          find (\<lambda>d. cacheKey d = generateCacheKey lat lng)
            (geoCache (snd (getLocation w s lat lng False))) =
            Some (d\<lparr>hitCount := hitCount d + 1, lastAccessedAt := readClock w\<rparr>)"
      by (intro allI impI) (rule hit)
    have ureset_all: "\<forall>d raw l.
          isInitialized u \<and> (skipCache \<or> readFault w \<noteq> None) \<and> writeFault w = None
          \<and> lookUp w lat lng = Inr raw \<and> formatLocation_util raw = Known l
          \<and> name l \<noteq> ''Unknown''
          \<and> find (\<lambda>d. cacheKey d = getCacheKey lat lng) (geoCache u) = Some d \<longrightarrow>
          find (\<lambda>d. cacheKey d = getCacheKey lat lng)
            (geoCache (snd (reverseGeocode w u lat lng skipCache))) =
            Some (d\<lparr>cacheKey := getCacheKey lat lng, latitude := lat, longitude := lng,
                    location := l, rawResponse := (), hitCount := 1,
                    lastAccessedAt := writeClock w\<rparr>)"
      by (intro allI impI) (rule ureset)
    show ?thesis
      using positive monotone created reset_all hit_all upositive umonotone ureset_all
      by (intro conjI)
  qed
  have resets: "\<forall>d. writeFault w = None \<and> find (\<lambda>d. cacheKey d = key) (geoCache t) = Some d \<longrightarrow>
        find (\<lambda>d. cacheKey d = key) (geoCache (saveToCache w key lat lng x y t)) =
          Some (d\<lparr>cacheKey := key, latitude := lat, longitude := lng, location := x,
                  rawResponse := y, hitCount := 1, lastAccessedAt := writeClock w\<rparr>)"
    by (simp add: write_resets)
  have creates: "writeFault w = None \<and> find (\<lambda>d. cacheKey d = key) (geoCache t) = None \<longrightarrow>
        geoCache (saveToCache w key lat lng x y t) =
          geoCache t @
            [\<lparr>cacheKey = key, latitude = lat, longitude = lng, location = x, rawResponse = y,
              createdAt = writeClock w, hitCount = 1, lastAccessedAt = writeClock w\<rparr>]"
    by (simp add: saveToCache_insert fresh_def)
  have wpositive: "(\<forall>d \<in> set (geoCache t). 1 \<le> hitCount d) \<longrightarrow>
        (\<forall>d \<in> set (geoCache (saveToCache w key lat lng x y t)). 1 \<le> hitCount d)"
    by (intro impI) (rule cache_step_positive [OF saveToCache_step])
  have rpositive: "\<forall>cached t'. checkCache w key t = Some (cached, t')
          \<and> (\<forall>d \<in> set (geoCache t). 1 \<le> hitCount d) \<longrightarrow>
        (\<forall>d \<in> set (geoCache t'). 1 \<le> hitCount d)"
  proof (intro allI impI)
    fix cached t'
    assume "checkCache w key t = Some (cached, t') \<and> (\<forall>d \<in> set (geoCache t). 1 \<le> hitCount d)"
    then show "\<forall>d \<in> set (geoCache t'). 1 \<le> hitCount d"
      using cache_step_positive [OF checkCache_step, of w key t cached t'] by simp
  qed
  from resets creates wpositive rpositive
  have store: "(\<forall>d. writeFault w = None \<and> find (\<lambda>d. cacheKey d = key) (geoCache t) = Some d \<longrightarrow>
        find (\<lambda>d. cacheKey d = key) (geoCache (saveToCache w key lat lng x y t)) =
          Some (d\<lparr>cacheKey := key, latitude := lat, longitude := lng, location := x,
                  rawResponse := y, hitCount := 1, lastAccessedAt := writeClock w\<rparr>))
   \<and> (writeFault w = None \<and> find (\<lambda>d. cacheKey d = key) (geoCache t) = None \<longrightarrow>
        geoCache (saveToCache w key lat lng x y t) =
          geoCache t @
            [\<lparr>cacheKey = key, latitude = lat, longitude = lng, location = x, rawResponse = y,
              createdAt = writeClock w, hitCount = 1, lastAccessedAt = writeClock w\<rparr>])
   \<and> ((\<forall>d \<in> set (geoCache t). 1 \<le> hitCount d) \<longrightarrow>
        (\<forall>d \<in> set (geoCache (saveToCache w key lat lng x y t)). 1 \<le> hitCount d))
   \<and> (\<forall>cached t'. checkCache w key t = Some (cached, t')
          \<and> (\<forall>d \<in> set (geoCache t). 1 \<le> hitCount d) \<longrightarrow>
        (\<forall>d \<in> set (geoCache t'). 1 \<le> hitCount d))"
    by (intro conjI)
  from calls store show ?thesis
    by (elim conjE) (intro conjI)
qed

lemma two_lookups:
  "lookups
     [(calm (answers (Some [[gorakhpur]])) 1000, gorakhpur_lat, gorakhpur_lng, False),
      (calm (answers (Some [[gorakhpur]])) 1500, gorakhpur_lat, gorakhpur_lng, False)] ready =
   \<lparr>isInitialized = True,
    geoCache =
      [\<lparr>cacheKey = generateCacheKey gorakhpur_lat gorakhpur_lng,
        latitude = gorakhpur_lat, longitude = gorakhpur_lng,
        location = gorakhpur_location, rawResponse = Some [[gorakhpur]],
        createdAt = 1000, hitCount = 2, lastAccessedAt = 1500\<rparr>],
    lookUpCalls = [(gorakhpur_lat, gorakhpur_lng)]\<rparr>"
  by (simp add: ready_def getLocation_def Let_def lookupLocal_def saveToCache_def
      checkCache_def findOneAndUpdate_def touch_def fresh_def calm_def answers_def
      gorakhpur_formatted
      del: formatLocation.simps)

theorem hitCount_one_on_write_witness:
  "list_all (\<lambda>d. 1 \<le> hitCount d) (geoCache popular)
   \<and> list_all (\<lambda>d. 1 \<le> hitCount d) (geoCache (lookups
          [(calm (answers (Some [[gorakhpur]])) 2000, gorakhpur_lat, gorakhpur_lng, True)]
          popular))
   \<and> find (\<lambda>d. cacheKey d = generateCacheKey gorakhpur_lat gorakhpur_lng)
        (geoCache (snd (getLocation (calm (answers (Some [[gorakhpur]])) 2000) popular
           gorakhpur_lat gorakhpur_lng True))) =
       Some \<lparr>cacheKey = generateCacheKey gorakhpur_lat gorakhpur_lng,
             latitude = gorakhpur_lat, longitude = gorakhpur_lng,
             location = gorakhpur_location, rawResponse = Some [[gorakhpur]],
             createdAt = 1000, hitCount = 1, lastAccessedAt = 2000\<rparr>
   \<and> map hitCount (geoCache (lookups
        [(calm (answers (Some [[gorakhpur]])) 1000, gorakhpur_lat, gorakhpur_lng, False),
         (calm (answers (Some [[gorakhpur]])) 1500, gorakhpur_lat, gorakhpur_lng, False)]
        ready)) = [2]
   \<and> find (\<lambda>d. cacheKey d = generateCacheKey gorakhpur_lat gorakhpur_lng)
        (geoCache (saveToCache (calm (answers (Some [[gorakhpur]])) 2000)
           (generateCacheKey gorakhpur_lat gorakhpur_lng) gorakhpur_lat gorakhpur_lng
           gorakhpur_location (Some [[gorakhpur]])
           (lookups
              [(calm (answers (Some [[gorakhpur]])) 1000, gorakhpur_lat, gorakhpur_lng, False),
               (calm (answers (Some [[gorakhpur]])) 1500, gorakhpur_lat, gorakhpur_lng, False)]
              ready))) =
       Some \<lparr>cacheKey = generateCacheKey gorakhpur_lat gorakhpur_lng,
             latitude = gorakhpur_lat, longitude = gorakhpur_lng,
             location = gorakhpur_location, rawResponse = Some [[gorakhpur]],
             createdAt = 1000, hitCount = 1, lastAccessedAt = 2000\<rparr>"
proof -
  let ?key = "generateCacheKey gorakhpur_lat gorakhpur_lng"
  let ?w = "calm (answers (Some [[gorakhpur]])) 2000"
  let ?busy = "lookups
     [(calm (answers (Some [[gorakhpur]])) 1000, gorakhpur_lat, gorakhpur_lng, False),
      (calm (answers (Some [[gorakhpur]])) 1500, gorakhpur_lat, gorakhpur_lng, False)] ready"
  note inst = hitCount_one_on_write
    [where s = popular
       and calls = "[(?w, gorakhpur_lat, gorakhpur_lng, True)]"
       and w = ?w and lat = gorakhpur_lat and lng = gorakhpur_lng and skipCache = True
       and key = ?key and t = ?busy and x = gorakhpur_location and y = "Some [[gorakhpur]]"]
  have positive: "\<forall>d \<in> set (geoCache popular). 1 \<le> hitCount d"
    by (simp add: popular_def)
  from inst [THEN conjunct1] positive have after: "\<forall>d \<in> set (geoCache (lookups
          [(?w, gorakhpur_lat, gorakhpur_lng, True)] popular)). 1 \<le> hitCount d"
    by (rule mp)
  have hyp: "isInitialized popular \<and> (True \<or> readFault ?w \<noteq> None)
      \<and> writeFault ?w = None
      \<and> lookUp ?w gorakhpur_lat gorakhpur_lng = Inr (Some [[gorakhpur]])
      \<and> formatLocation (Some [[gorakhpur]]) = Some gorakhpur_location
      \<and> find (\<lambda>d. cacheKey d = ?key) (geoCache popular) =
          Some ((seen_at ?key 1000)\<lparr>hitCount := 5\<rparr>)"
    by (simp add: popular_def calm_def answers_def gorakhpur_formatted seen_at_def fresh_def
        del: formatLocation.simps)
  from inst [THEN conjunct2, THEN conjunct2, THEN conjunct2, THEN conjunct1, rule_format, OF hyp]
  have "find (\<lambda>d. cacheKey d = ?key)
        (geoCache (snd (getLocation ?w popular gorakhpur_lat gorakhpur_lng True))) =
       Some ((seen_at ?key 1000)
          \<lparr>hitCount := 5, cacheKey := ?key,
            latitude := gorakhpur_lat, longitude := gorakhpur_lng,
            location := gorakhpur_location, rawResponse := Some [[gorakhpur]], hitCount := 1,
            lastAccessedAt := writeClock ?w\<rparr>)"
    .
  then have reset: "find (\<lambda>d. cacheKey d = ?key)
        (geoCache (snd (getLocation ?w popular gorakhpur_lat gorakhpur_lng True))) =
       Some \<lparr>cacheKey = ?key,
             latitude = gorakhpur_lat, longitude = gorakhpur_lng,
             location = gorakhpur_location, rawResponse = Some [[gorakhpur]],
             createdAt = 1000, hitCount = 1, lastAccessedAt = 2000\<rparr>"
    by (simp add: seen_at_def fresh_def calm_def)
  have busy: "map hitCount (geoCache ?busy) = [2]"
    by (simp only: two_lookups) simp
  have found: "writeFault ?w = None \<and> find (\<lambda>d. cacheKey d = ?key) (geoCache ?busy) =
      Some \<lparr>cacheKey = ?key,
        latitude = gorakhpur_lat, longitude = gorakhpur_lng,
        location = gorakhpur_location, rawResponse = Some [[gorakhpur]],
        createdAt = 1000, hitCount = 2, lastAccessedAt = 1500\<rparr>"
    by (simp only: two_lookups) (simp add: calm_def)
  from inst [THEN conjunct2, THEN conjunct2, THEN conjunct2, THEN conjunct2, THEN conjunct2,
      THEN conjunct2, THEN conjunct2, THEN conjunct2, THEN conjunct1, rule_format, OF found]
  have late: "find (\<lambda>d. cacheKey d = ?key)
        (geoCache (saveToCache ?w ?key gorakhpur_lat gorakhpur_lng
           gorakhpur_location (Some [[gorakhpur]]) ?busy)) =
       Some \<lparr>cacheKey = ?key,
             latitude = gorakhpur_lat, longitude = gorakhpur_lng,
             location = gorakhpur_location, rawResponse = Some [[gorakhpur]],
             createdAt = 1000, hitCount = 1, lastAccessedAt = 2000\<rparr>"
    by (simp add: calm_def)
  show ?thesis
    using positive after reset busy late by (simp only: list_all_iff)
qed

text \<open>
  The claim as it stands fails: a lookup that bypasses the cache takes a document read five
  times back to \<open>hitCount\<close> 1, in the service class and in the utility.
\<close>

theorem hitCount_reset_counterexample:
  "map hitCount (geoCache popular) = [5]
   \<and> map hitCount (geoCache (snd (getLocation (calm (answers (Some [[gorakhpur]])) 2000) popular
        gorakhpur_lat gorakhpur_lng True))) = [1]
   \<and> map hitCount (geoCache popular_util) = [5]
   \<and> map hitCount (geoCache (snd (reverseGeocode (calm (answers (Some [[gorakhpur]])) 2000)
        popular_util gorakhpur_lat gorakhpur_lng True))) = [1]"
  by (simp add: popular_def popular_util_def seen_at_def fresh_def getLocation_def
      reverseGeocode_def Let_def lookupLocal_def saveToCache_def findOneAndUpdate_def
      overwrite_def calm_def answers_def gorakhpur_formatted gorakhpur_formatted_util
      gorakhpur_place_def
      del: formatLocation.simps formatLocation_util.simps)


section \<open>A repeated lookup\<close>

lemma formatLocation_util_Known:
  "formatLocation raw = Some loc \<Longrightarrow> \<exists>l. formatLocation_util raw = Known l"
  by (induction raw rule: formatLocation.induct) simp_all

text \<open>
  Claim C3, amended. On an empty collection, with the service initialised, a lookup whose
  resolver result is formattable and whose cache write is not rejected answers that
  location with source \<open>local\<close> and the key. With \<open>getLocation\<close> of the service class, a
  second lookup of the same coordinates with \<open>skipCache = false\<close>, its cache read not
  rejected, answers the same location fields and the same key with source \<open>cache\<close> and
  \<open>hitCount\<close> 2, calls no resolver and leaves the document's \<open>hitCount\<close> at 2.
  \<open>reverseGeocode\<close> of the utility does the same when the name of the location is not
  the word \<open>Unknown\<close>, except that its answer carries no \<open>hitCount\<close>; a location of that
  name it answers and does not store, so that the second lookup finds the collection
  empty and calls the resolver again.
\<close>

theorem repeat_answered_from_cache:
  assumes "isInitialized s" and "geoCache s = []"
    and "isInitialized u" and "geoCache u = []"
    and "lookUp w1 lat lng = Inr raw"
    and "formatLocation raw = Some loc"
    and "writeFault w1 = None" and "readFault w2 = None"
  shows "fst (getLocation w1 s lat lng skipCache) =
           Inr \<lparr>r_place = Known loc, r_source = ''local'',
                r_cacheKey = generateCacheKey lat lng, r_hitCount = None\<rparr>
       \<and> fst (getLocation w2 (snd (getLocation w1 s lat lng skipCache)) lat lng False) =
           Inr \<lparr>r_place = Known loc, r_source = ''cache'',
                r_cacheKey = generateCacheKey lat lng, r_hitCount = Some 2\<rparr>
       \<and> lookUpCalls (snd (getLocation w2 (snd (getLocation w1 s lat lng skipCache))
             lat lng False)) = lookUpCalls s @ [(lat, lng)]
       \<and> map hitCount (geoCache (snd (getLocation w2 (snd (getLocation w1 s lat lng skipCache))
             lat lng False))) = [2]
       \<and> (\<exists>l. formatLocation_util raw = Known l)
       \<and> (\<forall>l. formatLocation_util raw = Known l \<longrightarrow>
            fst (reverseGeocode w1 u lat lng skipCache) =
              Inr \<lparr>r_place = Known l, r_source = ''local'',
                   r_cacheKey = getCacheKey lat lng, r_hitCount = None\<rparr>
            \<and> (name l \<noteq> ''Unknown'' \<longrightarrow>
                 fst (reverseGeocode w2 (snd (reverseGeocode w1 u lat lng skipCache)) lat lng
                   False) =
                   Inr \<lparr>r_place = Known l, r_source = ''cache'',
                        r_cacheKey = getCacheKey lat lng, r_hitCount = None\<rparr>
                 \<and> lookUpCalls (snd (reverseGeocode w2
                      (snd (reverseGeocode w1 u lat lng skipCache)) lat lng False)) =
                     lookUpCalls u @ [(lat, lng)]
                 \<and> map hitCount (geoCache (snd (reverseGeocode w2
                      (snd (reverseGeocode w1 u lat lng skipCache)) lat lng False))) = [2])
            \<and> (name l = ''Unknown'' \<longrightarrow>
                 geoCache (snd (reverseGeocode w1 u lat lng skipCache)) = []
                 \<and> lookUpCalls (snd (reverseGeocode w2
                      (snd (reverseGeocode w1 u lat lng skipCache)) lat lng False)) =
                     lookUpCalls u @ [(lat, lng), (lat, lng)]
                 \<and> (\<forall>r. fst (reverseGeocode w2 (snd (reverseGeocode w1 u lat lng skipCache))
                        lat lng False) = Inr r \<longrightarrow> r_source r = ''local'')))"
proof -
  let ?key = "generateCacheKey lat lng"
  let ?s0 = "s\<lparr>lookUpCalls := lookUpCalls s @ [(lat, lng)]\<rparr>"
  let ?s1 = "?s0\<lparr>geoCache := [fresh ?key lat lng loc raw (writeClock w1)]\<rparr>"
  let ?ukey = "getCacheKey lat lng"
  let ?u0 = "u\<lparr>lookUpCalls := lookUpCalls u @ [(lat, lng)]\<rparr>"
  have miss: "skipCache \<or> checkCache w1 ?key s = None"
    using assms(2) by (simp add: checkCache_miss)
  have saved: "saveToCache w1 ?key lat lng loc raw ?s0 = ?s1"
    using assms(2,7) by (simp add: saveToCache_def findOneAndUpdate_def)
  have first: "getLocation w1 s lat lng skipCache =
      (Inr \<lparr>r_place = Known loc, r_source = ''local'', r_cacheKey = ?key, r_hitCount = None\<rparr>,
       ?s1)"
    using assms(5,6) by (simp add: getLocation_resolver_path [OF assms(1) miss] saved)
  have found: "find (\<lambda>d. cacheKey d = ?key) (geoCache ?s1) =
      Some (fresh ?key lat lng loc raw (writeClock w1))"
    by simp
  have init1: "isInitialized ?s1"
    using assms(1) by simp
  have second: "getLocation w2 ?s1 lat lng False =
      (Inr \<lparr>r_place = Known loc, r_source = ''cache'', r_cacheKey = ?key,
            r_hitCount = Some 2\<rparr>,
       ?s1\<lparr>geoCache := [touch (readClock w2) (fresh ?key lat lng loc raw (writeClock w1))]\<rparr>)"
    using getLocation_hit [OF init1 checkCache_hit [OF assms(8) found]]
    by (simp add: touch_def fresh_def)
  have service: "fst (getLocation w1 s lat lng skipCache) =
           Inr \<lparr>r_place = Known loc, r_source = ''local'',
                r_cacheKey = generateCacheKey lat lng, r_hitCount = None\<rparr>
       \<and> fst (getLocation w2 (snd (getLocation w1 s lat lng skipCache)) lat lng False) =
           Inr \<lparr>r_place = Known loc, r_source = ''cache'',
                r_cacheKey = generateCacheKey lat lng, r_hitCount = Some 2\<rparr>
       \<and> lookUpCalls (snd (getLocation w2 (snd (getLocation w1 s lat lng skipCache))
             lat lng False)) = lookUpCalls s @ [(lat, lng)]
       \<and> map hitCount (geoCache (snd (getLocation w2 (snd (getLocation w1 s lat lng skipCache))
             lat lng False))) = [2]"
    by (simp add: first second touch_def)
  have umiss: "skipCache \<or> checkCache w1 ?ukey u = None"
    using assms(4) by (simp add: checkCache_miss)
  have utility: "fst (reverseGeocode w1 u lat lng skipCache) =
              Inr \<lparr>r_place = Known l, r_source = ''local'',
                   r_cacheKey = getCacheKey lat lng, r_hitCount = None\<rparr>
            \<and> (name l \<noteq> ''Unknown'' \<longrightarrow>
                 fst (reverseGeocode w2 (snd (reverseGeocode w1 u lat lng skipCache)) lat lng
                   False) =
                   Inr \<lparr>r_place = Known l, r_source = ''cache'',
                        r_cacheKey = getCacheKey lat lng, r_hitCount = None\<rparr>
                 \<and> lookUpCalls (snd (reverseGeocode w2
                      (snd (reverseGeocode w1 u lat lng skipCache)) lat lng False)) =
                     lookUpCalls u @ [(lat, lng)]
                 \<and> map hitCount (geoCache (snd (reverseGeocode w2
                      (snd (reverseGeocode w1 u lat lng skipCache)) lat lng False))) = [2])
            \<and> (name l = ''Unknown'' \<longrightarrow>
                 geoCache (snd (reverseGeocode w1 u lat lng skipCache)) = []
                 \<and> lookUpCalls (snd (reverseGeocode w2
                      (snd (reverseGeocode w1 u lat lng skipCache)) lat lng False)) =
                     lookUpCalls u @ [(lat, lng), (lat, lng)]
                 \<and> (\<forall>r. fst (reverseGeocode w2 (snd (reverseGeocode w1 u lat lng skipCache))
                        lat lng False) = Inr r \<longrightarrow> r_source r = ''local''))"
    if l: "formatLocation_util raw = Known l" for l
  proof (cases "name l = ''Unknown''")
    case False
    let ?u1 = "?u0\<lparr>geoCache := [fresh ?ukey lat lng l () (writeClock w1)]\<rparr>"
    have usaved: "saveToCache w1 ?ukey lat lng l () ?u0 = ?u1"
      using assms(4,7) by (simp add: saveToCache_def findOneAndUpdate_def)
    have ufirst: "reverseGeocode w1 u lat lng skipCache =
        (Inr \<lparr>r_place = Known l, r_source = ''local'', r_cacheKey = ?ukey, r_hitCount = None\<rparr>,
         ?u1)"
      using assms(5) l False
      by (simp add: reverseGeocode_resolver_path [OF assms(3) umiss] usaved)
    have ufound: "find (\<lambda>d. cacheKey d = ?ukey) (geoCache ?u1) =
        Some (fresh ?ukey lat lng l () (writeClock w1))"
      by simp
    have uinit1: "isInitialized ?u1"
      using assms(3) by simp
    have usecond: "reverseGeocode w2 ?u1 lat lng False =
        (Inr \<lparr>r_place = Known l, r_source = ''cache'', r_cacheKey = ?ukey, r_hitCount = None\<rparr>,
         ?u1\<lparr>geoCache := [touch (readClock w2) (fresh ?ukey lat lng l () (writeClock w1))]\<rparr>)"
      using reverseGeocode_hit [OF uinit1 checkCache_hit [OF assms(8) ufound]]
      by (simp add: touch_def fresh_def)
    from False show ?thesis
      by (simp add: ufirst usecond touch_def)
  next
    case True
    have ufirst: "reverseGeocode w1 u lat lng skipCache =
        (Inr \<lparr>r_place = Known l, r_source = ''local'', r_cacheKey = ?ukey, r_hitCount = None\<rparr>,
         ?u0)"
      using assms(5) l True
      by (simp add: reverseGeocode_resolver_path [OF assms(3) umiss])
    have uinit0: "isInitialized ?u0"
      using assms(3) by simp
    have umiss0: "False \<or> checkCache w2 ?ukey ?u0 = None"
      using assms(4) by (simp add: checkCache_miss)
    note again = reverseGeocode_resolver_path [OF uinit0 umiss0]
    have calls: "lookUpCalls (snd (reverseGeocode w2 ?u0 lat lng False)) =
        lookUpCalls u @ [(lat, lng), (lat, lng)]"
      by (simp add: again split: sum.splits place.splits)
    have source: "r_source r = ''local''" if "fst (reverseGeocode w2 ?u0 lat lng False) = Inr r"
      for r
      using that by (auto simp: again split: sum.splits)
    from True calls source assms(4) show ?thesis
      by (simp add: ufirst)
  qed
  show ?thesis
    using service formatLocation_util_Known [OF assms(6)] utility
    by (intro conjI allI impI) blast+
qed

lemma unknown_village_formatted:
  "formatLocation (Some [[unknown_village]]) =
     Some \<lparr>name = ''Unknown'', adminName1 = Text [], adminName2 = Text [],
           countryCode = ''IN'', countryName = Some ''India'', population = 0,
           displayName = ''Unknown, India'', featureCode = []\<rparr>"
  by (simp add: unknown_village_def getCountryName_def countries_def buildDisplayName_def)

lemma unknown_village_formatted_util:
  "formatLocation_util (Some [[unknown_village]]) =
     Known \<lparr>name = ''Unknown'', adminName1 = Text [], adminName2 = Text [],
            countryCode = ''IN'', countryName = Some ''India'', population = 0,
            displayName = ''Unknown, India''\<rparr>"
  by (simp add: unknown_village_def COUNTRY_NAMES_def buildDisplayName_def)

theorem repeat_answered_from_cache_witness:
  "fst (getLocation (calm (answers (Some [[gorakhpur]])) 1000) ready gorakhpur_lat gorakhpur_lng
      False) =
     Inr \<lparr>r_place = Known gorakhpur_location, r_source = ''local'',
          r_cacheKey = ''26.761,83.373'', r_hitCount = None\<rparr>
   \<and> displayName gorakhpur_location = ''Gorakhpur, Uttar Pradesh, India''
   \<and> fst (getLocation (calm (answers (Some [[gorakhpur]])) 2000)
        (snd (getLocation (calm (answers (Some [[gorakhpur]])) 1000) ready gorakhpur_lat
           gorakhpur_lng False))
        gorakhpur_lat gorakhpur_lng False) =
     Inr \<lparr>r_place = Known gorakhpur_location, r_source = ''cache'',
          r_cacheKey = ''26.761,83.373'', r_hitCount = Some 2\<rparr>
   \<and> fst (reverseGeocode (calm (answers (Some [[gorakhpur]])) 2000)
        (snd (reverseGeocode (calm (answers (Some [[gorakhpur]])) 1000) ready gorakhpur_lat
           gorakhpur_lng False))
        gorakhpur_lat gorakhpur_lng False) =
     Inr \<lparr>r_place = Known gorakhpur_place, r_source = ''cache'',
          r_cacheKey = ''26.761,83.373'', r_hitCount = None\<rparr>
   \<and> fst (getLocation (calm (answers (Some [[unknown_village]])) 2000)
        (snd (getLocation (calm (answers (Some [[unknown_village]])) 1000) ready gorakhpur_lat
           gorakhpur_lng False))
        gorakhpur_lat gorakhpur_lng False) =
     Inr \<lparr>r_place = Known \<lparr>name = ''Unknown'', adminName1 = Text [], adminName2 = Text [],
             countryCode = ''IN'', countryName = Some ''India'', population = 0,
             displayName = ''Unknown, India'', featureCode = []\<rparr>,
          r_source = ''cache'', r_cacheKey = ''26.761,83.373'', r_hitCount = Some 2\<rparr>
   \<and> lookUpCalls (snd (reverseGeocode (calm (answers (Some [[unknown_village]])) 2000)
        (snd (reverseGeocode (calm (answers (Some [[unknown_village]])) 1000) ready gorakhpur_lat
           gorakhpur_lng False))
        gorakhpur_lat gorakhpur_lng False)) =
     [(gorakhpur_lat, gorakhpur_lng), (gorakhpur_lat, gorakhpur_lng)]"
proof -
  have init: "isInitialized (ready :: (featured_location, raw_result) service)"
    and empty: "geoCache (ready :: (featured_location, raw_result) service) = []"
    and uinit: "isInitialized (ready :: (location, unit) service)"
    and uempty: "geoCache (ready :: (location, unit) service) = []"
    by (simp_all add: ready_def)
  have resolver: "lookUp (calm (answers raw) 1000) gorakhpur_lat gorakhpur_lng = Inr raw" for raw
    by (simp add: calm_def answers_def)
  have faults: "writeFault (calm (answers raw) 1000) = None"
    "readFault (calm (answers raw) 2000) = None" for raw
    by (simp_all add: calm_def)
  note inst = repeat_answered_from_cache
    [OF init empty uinit uempty resolver gorakhpur_formatted faults, of False]
  have named: "name gorakhpur_place \<noteq> ''Unknown''"
    by (simp add: gorakhpur_place_def)
  note uinst = inst [THEN conjunct2, THEN conjunct2, THEN conjunct2, THEN conjunct2,
      THEN conjunct2, rule_format, OF gorakhpur_formatted_util]
  note ucached = uinst [THEN conjunct2, THEN conjunct1, rule_format, OF named, THEN conjunct1]
  note other = repeat_answered_from_cache
    [OF init empty uinit uempty resolver unknown_village_formatted faults, of False]
  note uother = other [THEN conjunct2, THEN conjunct2, THEN conjunct2, THEN conjunct2,
      THEN conjunct2, rule_format, OF unknown_village_formatted_util]
  have "lookUpCalls (snd (reverseGeocode (calm (answers (Some [[unknown_village]])) 2000)
        (snd (reverseGeocode (calm (answers (Some [[unknown_village]])) 1000) ready gorakhpur_lat
           gorakhpur_lng False))
        gorakhpur_lat gorakhpur_lng False)) =
     lookUpCalls (ready :: (location, unit) service)
       @ [(gorakhpur_lat, gorakhpur_lng), (gorakhpur_lat, gorakhpur_lng)]"
    by (rule uother [THEN conjunct2, THEN conjunct2, rule_format, THEN conjunct2,
          THEN conjunct1]) simp
  then have twice: "lookUpCalls (snd (reverseGeocode
        (calm (answers (Some [[unknown_village]])) 2000)
        (snd (reverseGeocode (calm (answers (Some [[unknown_village]])) 1000) ready gorakhpur_lat
           gorakhpur_lng False))
        gorakhpur_lat gorakhpur_lng False)) =
     [(gorakhpur_lat, gorakhpur_lng), (gorakhpur_lat, gorakhpur_lng)]"
    by (simp add: ready_def)
  have "displayName gorakhpur_location = ''Gorakhpur, Uttar Pradesh, India''"
    by (simp add: gorakhpur_location_def)
  with inst [THEN conjunct1] inst [THEN conjunct2, THEN conjunct1] ucached
    other [THEN conjunct2, THEN conjunct1] twice
  show ?thesis
    by (simp only: gorakhpur_key getCacheKey_eq)
qed

text \<open>
  The claim as it stands fails for the utility in two ways: the answer to the repeated
  lookup carries no \<open>hitCount\<close>; and a formattable result whose name is the word
  \<open>Unknown\<close> is not stored, so that the repeated lookup is answered by the resolver again,
  with source \<open>local\<close>.
\<close>

theorem utility_hit_counterexample:
  "fst (reverseGeocode (calm (answers (Some [[gorakhpur]])) 2000)
        (snd (reverseGeocode (calm (answers (Some [[gorakhpur]])) 1000) ready gorakhpur_lat
           gorakhpur_lng False))
        gorakhpur_lat gorakhpur_lng False) =
     Inr \<lparr>r_place = Known gorakhpur_place, r_source = ''cache'',
          r_cacheKey = getCacheKey gorakhpur_lat gorakhpur_lng, r_hitCount = None\<rparr>
   \<and> formatLocation (Some [[unknown_village]]) \<noteq> None
   \<and> fst (reverseGeocode (calm (answers (Some [[unknown_village]])) 2000)
        (snd (reverseGeocode (calm (answers (Some [[unknown_village]])) 1000) ready gorakhpur_lat
           gorakhpur_lng False))
        gorakhpur_lat gorakhpur_lng False) =
     Inr \<lparr>r_place = Known \<lparr>name = ''Unknown'', adminName1 = Text [], adminName2 = Text [],
             countryCode = ''IN'', countryName = Some ''India'', population = 0,
             displayName = ''Unknown, India''\<rparr>,
          r_source = ''local'', r_cacheKey = getCacheKey gorakhpur_lat gorakhpur_lng,
          r_hitCount = None\<rparr>"
  by (simp add: ready_def fresh_def reverseGeocode_def Let_def lookupLocal_def saveToCache_def
      checkCache_def findOneAndUpdate_def touch_def overwrite_def calm_def answers_def
      gorakhpur_formatted_util gorakhpur_place_def unknown_village_formatted
      unknown_village_formatted_util
      del: formatLocation_util.simps formatLocation.simps)

end
